theory Spec2Isabelle
  imports Main "HOL-Library.Sublist"
begin

section \<open>Values of the platform\<close>

text \<open>
  A JavaScript string is a sequence of UTF-16 code units; a code unit is modelled as a
  natural number. \<open>lit\<close> turns a literal of the source into its code units.
\<close>

type_synonym jsstring = "nat list"

definition lit :: "string \<Rightarrow> jsstring" where
  "lit s = map of_char s"

text \<open>The decimal digits of a natural number.\<close>

fun digits_of_nat :: "nat \<Rightarrow> jsstring" where
  "digits_of_nat n = (if n < 10 then [48 + n] else digits_of_nat (n div 10) @ [48 + n mod 10])"

declare digits_of_nat.simps [simp del]

text \<open>A thrown exception: its class and its message.\<close>

datatype js_error =
    Error jsstring
  | TypeError jsstring
  | SyntaxError jsstring
  | RangeError jsstring

text \<open>
  A \<open>Date\<close> holds a time value: milliseconds since the epoch, or NaN (an invalid date).
\<close>

datatype Date = Date_ms int | Invalid_Date

text \<open>
  A \<open>Map\<close> keeps its entries in insertion order, one entry for each key. It is modelled
  as the list of its entries; \<open>set\<close> replaces the value of a key in place or appends a new
  entry.
\<close>

type_synonym ('k, 'v) Map = "('k \<times> 'v) list"

fun Map_set :: "'k \<Rightarrow> 'v \<Rightarrow> ('k, 'v) Map \<Rightarrow> ('k, 'v) Map" where
  "Map_set k v [] = [(k, v)]"
| "Map_set k v ((k', v') # m) = (if k' = k then (k', v) # m else (k', v') # Map_set k v m)"

definition Map_get :: "('k, 'v) Map \<Rightarrow> 'k \<Rightarrow> 'v option" where
  "Map_get m k = map_of m k"

definition Map_size :: "('k, 'v) Map \<Rightarrow> nat" where
  "Map_size m = length m"

definition Map_keys :: "('k, 'v) Map \<Rightarrow> 'k list" where
  "Map_keys m = map fst m"

section \<open>Numbers and JSON\<close>

text \<open>
  A finite number is modelled by its exact decimal value \<open>m * 10 ^ e\<close>, normalized:
  \<open>m\<close> is not divisible by 10, and 0 is \<open>Decimal 0 0\<close>. It stands for the number that the
  engine prints with these digits. Rounding to binary64 and the sign of zero are outside
  the model.
\<close>

datatype decimal = Decimal int int

function normalize :: "int \<Rightarrow> int \<Rightarrow> decimal" where
  "normalize m e =
     (if m = 0 then Decimal 0 0
      else if m mod 10 = 0 then normalize (m div 10) (e + 1)
      else Decimal m e)"
  by pat_completeness auto
termination
  by (relation "measure (\<lambda>(m, e). nat \<bar>m\<bar>)") auto

declare normalize.simps [simp del]

definition Number_toString :: "decimal \<Rightarrow> jsstring" where
  "Number_toString d =
     (case d of Decimal m e \<Rightarrow>
        if m = 0 then [48]
        else
          let s = digits_of_nat (nat \<bar>m\<bar>);
              k = int (length s);
              n = k + e;
              body =
                (if k \<le> n \<and> n \<le> 21 then s @ replicate (nat (n - k)) 48
                 else if 0 < n \<and> n \<le> 21 then take (nat n) s @ [46] @ drop (nat n) s
                 else if - 6 < n \<and> n \<le> 0 then [48, 46] @ replicate (nat (- n)) 48 @ s
                 else
                   let x = n - 1;
                       xs = (if x < 0 then 45 else 43) # digits_of_nat (nat \<bar>x\<bar>)
                   in if k = 1 then s @ [101] @ xs
                      else [hd s] @ [46] @ tl s @ [101] @ xs)
          in (if m < 0 then [45] else []) @ body)"

text \<open>An integer as a decimal.\<close>

definition number_of_int :: "int \<Rightarrow> decimal" where
  "number_of_int i = normalize i 0"

text \<open>
  A number of the language: a finite value, \<open>NaN\<close> or an infinity. A finite number is
  given by the decimal that the engine prints for it, so that \<open>7.5\<close> is
  \<open>Finite (Decimal 75 (- 1))\<close>; arithmetic on finite numbers is exact. \<open>num i\<close> is the
  number of the integer \<open>i\<close>.
\<close>

datatype number = Finite decimal | NaN | PosInfinity | NegInfinity

definition num :: "int \<Rightarrow> number" where
  "num i = Finite (number_of_int i)"

text \<open>\<open>a < b\<close> and \<open>a >= b\<close> on numbers: both are false when an operand is \<open>NaN\<close>.\<close>

definition decimal_less :: "decimal \<Rightarrow> decimal \<Rightarrow> bool" where
  "decimal_less a b =
     (case a of Decimal m1 e1 \<Rightarrow>
        (case b of Decimal m2 e2 \<Rightarrow>
           m1 * 10 ^ nat (e1 - min e1 e2) < m2 * 10 ^ nat (e2 - min e1 e2)))"

definition number_less :: "number \<Rightarrow> number \<Rightarrow> bool" where
  "number_less a b =
     (case a of
        NaN \<Rightarrow> False
      | PosInfinity \<Rightarrow> False
      | NegInfinity \<Rightarrow> (b \<noteq> NaN \<and> b \<noteq> NegInfinity)
      | Finite x \<Rightarrow>
          (case b of
             NaN \<Rightarrow> False
           | PosInfinity \<Rightarrow> True
           | NegInfinity \<Rightarrow> False
           | Finite y \<Rightarrow> decimal_less x y))"

definition number_ge :: "number \<Rightarrow> number \<Rightarrow> bool" where
  "number_ge a b \<longleftrightarrow> a \<noteq> NaN \<and> b \<noteq> NaN \<and> \<not> number_less a b"

text \<open>\<open>a + b\<close> and \<open>a - b\<close> on numbers.\<close>

definition decimal_add :: "decimal \<Rightarrow> decimal \<Rightarrow> decimal" where
  "decimal_add a b =
     (case a of Decimal m1 e1 \<Rightarrow>
        (case b of Decimal m2 e2 \<Rightarrow>
           normalize (m1 * 10 ^ nat (e1 - min e1 e2) + m2 * 10 ^ nat (e2 - min e1 e2))
             (min e1 e2)))"

definition number_neg :: "number \<Rightarrow> number" where
  "number_neg a =
     (case a of
        Finite (Decimal m e) \<Rightarrow> Finite (Decimal (- m) e)
      | NaN \<Rightarrow> NaN
      | PosInfinity \<Rightarrow> NegInfinity
      | NegInfinity \<Rightarrow> PosInfinity)"

definition number_add :: "number \<Rightarrow> number \<Rightarrow> number" where
  "number_add a b =
     (case a of
        NaN \<Rightarrow> NaN
      | PosInfinity \<Rightarrow> (if b = NaN \<or> b = NegInfinity then NaN else PosInfinity)
      | NegInfinity \<Rightarrow> (if b = NaN \<or> b = PosInfinity then NaN else NegInfinity)
      | Finite x \<Rightarrow> (case b of Finite y \<Rightarrow> Finite (decimal_add x y) | _ \<Rightarrow> b))"

definition number_sub :: "number \<Rightarrow> number \<Rightarrow> number" where
  "number_sub a b = number_add a (number_neg b)"

text \<open>A number in a template literal.\<close>

definition number_toString :: "number \<Rightarrow> jsstring" where
  "number_toString a =
     (case a of
        Finite d \<Rightarrow> Number_toString d
      | NaN \<Rightarrow> lit ''NaN''
      | PosInfinity \<Rightarrow> lit ''Infinity''
      | NegInfinity \<Rightarrow> lit ''-Infinity'')"

text \<open>
  \<open>array[n]\<close> reads the element at \<open>n\<close> when \<open>n\<close> is a non-negative integer, and the
  property of another name otherwise, which an array of data does not have.
\<close>

definition array_index :: "number \<Rightarrow> nat option" where
  "array_index a =
     (case a of
        Finite (Decimal m e) \<Rightarrow>
          if m < 0 then None
          else if 0 \<le> e then Some (nat (m * 10 ^ nat e))
          else if m mod 10 ^ nat (- e) = 0 then Some (nat (m div 10 ^ nat (- e)))
          else None
      | _ \<Rightarrow> None)"

datatype jsval =
    JUndefined
  | JNull
  | JBool bool
  | JNumber decimal
  | JString jsstring
  | JArray "jsval list"
  | JObject "(jsstring \<times> jsval) list"

definition hex_digit :: "nat \<Rightarrow> nat" where
  "hex_digit n = (if n < 10 then 48 + n else 87 + n)"

definition unicode_escape :: "nat \<Rightarrow> jsstring" where
  "unicode_escape c =
     [92, 117, hex_digit (c div 4096 mod 16), hex_digit (c div 256 mod 16),
      hex_digit (c div 16 mod 16), hex_digit (c mod 16)]"

definition is_lead :: "nat \<Rightarrow> bool" where
  "is_lead c \<longleftrightarrow> 55296 \<le> c \<and> c \<le> 56319"

definition is_trail :: "nat \<Rightarrow> bool" where
  "is_trail c \<longleftrightarrow> 56320 \<le> c \<and> c \<le> 57343"

definition quote_unit :: "nat \<Rightarrow> jsstring" where
  "quote_unit c =
     (if c = 8 then [92, 98]
      else if c = 9 then [92, 116]
      else if c = 10 then [92, 110]
      else if c = 12 then [92, 102]
      else if c = 13 then [92, 114]
      else if c = 34 then [92, 34]
      else if c = 92 then [92, 92]
      else if c < 32 \<or> is_lead c \<or> is_trail c then unicode_escape c
      else [c])"

fun quote_units :: "jsstring \<Rightarrow> jsstring" where
  "quote_units [] = []"
| "quote_units [c] = quote_unit c"
| "quote_units (c # d # cs) =
     (if is_lead c \<and> is_trail d then c # d # quote_units cs
      else quote_unit c @ quote_units (d # cs))"

definition QuoteJSONString :: "jsstring \<Rightarrow> jsstring" where
  "QuoteJSONString s = [34] @ quote_units s @ [34]"

fun join :: "jsstring \<Rightarrow> jsstring list \<Rightarrow> jsstring" where
  "join sep [] = []"
| "join sep [x] = x"
| "join sep (x # y # ys) = x @ sep @ join sep (y # ys)"

fun SerializeJSONProperty :: "jsval \<Rightarrow> jsstring option" where
  "SerializeJSONProperty JUndefined = None"
| "SerializeJSONProperty JNull = Some (lit ''null'')"
| "SerializeJSONProperty (JBool b) = Some (if b then lit ''true'' else lit ''false'')"
| "SerializeJSONProperty (JNumber d) = Some (Number_toString d)"
| "SerializeJSONProperty (JString s) = Some (QuoteJSONString s)"
| "SerializeJSONProperty (JArray vs) =
     Some ([91] @ join [44]
        (map (\<lambda>v. case SerializeJSONProperty v of None \<Rightarrow> lit ''null'' | Some t \<Rightarrow> t) vs) @ [93])"
| "SerializeJSONProperty (JObject ps) =
     Some ([123] @ join [44]
        (concat (map (\<lambda>(k, v). case SerializeJSONProperty v of None \<Rightarrow> []
                        | Some t \<Rightarrow> [QuoteJSONString k @ [58] @ t]) ps)) @ [125])"

definition JSON_stringify :: "jsval \<Rightarrow> jsstring option" where
  "JSON_stringify v = SerializeJSONProperty v"

definition is_ws :: "nat \<Rightarrow> bool" where
  "is_ws c \<longleftrightarrow> c = 32 \<or> c = 9 \<or> c = 10 \<or> c = 13"

definition is_digit :: "nat \<Rightarrow> bool" where
  "is_digit c \<longleftrightarrow> 48 \<le> c \<and> c \<le> 57"

definition skip_ws :: "jsstring \<Rightarrow> jsstring" where
  "skip_ws cs = dropWhile is_ws cs"

definition nat_of_digits :: "jsstring \<Rightarrow> nat" where
  "nat_of_digits ds = foldl (\<lambda>a c. 10 * a + (c - 48)) 0 ds"

definition hex_value :: "nat \<Rightarrow> nat option" where
  "hex_value c =
     (if 48 \<le> c \<and> c \<le> 57 then Some (c - 48)
      else if 97 \<le> c \<and> c \<le> 102 then Some (c - 87)
      else if 65 \<le> c \<and> c \<le> 70 then Some (c - 55)
      else None)"

definition unescape :: "nat \<Rightarrow> nat option" where
  "unescape c =
     (if c = 34 then Some 34
      else if c = 92 then Some 92
      else if c = 47 then Some 47
      else if c = 98 then Some 8
      else if c = 102 then Some 12
      else if c = 110 then Some 10
      else if c = 114 then Some 13
      else if c = 116 then Some 9
      else None)"

fun parse_string :: "jsstring \<Rightarrow> jsstring \<Rightarrow> (jsstring \<times> jsstring) option" where
  "parse_string acc [] = None"
| "parse_string acc (c # cs) =
     (if c = 34 then Some (acc, cs)
      else if c = 92 then
        (case cs of
           [] \<Rightarrow> None
         | e # r \<Rightarrow>
             if e = 117 then
               (case r of
                  a # b # c # d # r' \<Rightarrow>
                    (case (hex_value a, hex_value b, hex_value c, hex_value d) of
                       (Some x, Some y, Some z, Some w) \<Rightarrow>
                         parse_string (acc @ [4096 * x + 256 * y + 16 * z + w]) r'
                     | _ \<Rightarrow> None)
                | _ \<Rightarrow> None)
             else
               (case unescape e of
                  Some u \<Rightarrow> parse_string (acc @ [u]) r
                | None \<Rightarrow> None))
      else if c < 32 then None
      else parse_string (acc @ [c]) cs)"

text \<open>number = [ minus ] int [ frac ] [ exp ], read part by part.\<close>

definition lex_sign :: "jsstring \<Rightarrow> bool \<times> jsstring" where
  "lex_sign cs = (case cs of c # r \<Rightarrow> if c = 45 then (True, r) else (False, cs) | [] \<Rightarrow> (False, cs))"

definition lex_int :: "jsstring \<Rightarrow> (jsstring \<times> jsstring) option" where
  "lex_int cs =
     (case cs of
        [] \<Rightarrow> None
      | c # r \<Rightarrow>
          if c = 48 then Some ([48], r)
          else if is_digit c then Some (takeWhile is_digit cs, dropWhile is_digit cs)
          else None)"

definition lex_frac :: "jsstring \<Rightarrow> (jsstring \<times> jsstring) option" where
  "lex_frac cs =
     (case cs of
        [] \<Rightarrow> Some ([], cs)
      | c # r \<Rightarrow>
          if c = 46 then
            (if takeWhile is_digit r = [] then None
             else Some (takeWhile is_digit r, dropWhile is_digit r))
          else Some ([], cs))"

definition lex_exp :: "jsstring \<Rightarrow> (int \<times> jsstring) option" where
  "lex_exp cs =
     (case cs of
        [] \<Rightarrow> Some (0, cs)
      | c # r \<Rightarrow>
          if c = 101 \<or> c = 69 then
            (let (sg, r1) = (case r of
                               s # r' \<Rightarrow> if s = 45 then (- 1, r')
                                         else if s = 43 then (1, r') else (1, r)
                             | [] \<Rightarrow> (1, r))
             in if takeWhile is_digit r1 = [] then None
                else Some (sg * int (nat_of_digits (takeWhile is_digit r1)),
                           dropWhile is_digit r1))
          else Some (0, cs))"

definition parse_number :: "jsstring \<Rightarrow> (decimal \<times> jsstring) option" where
  "parse_number cs =
     (case lex_sign cs of
        (neg, cs1) \<Rightarrow>
          (case lex_int cs1 of
             None \<Rightarrow> None
           | Some (ip, cs2) \<Rightarrow>
               (case lex_frac cs2 of
                  None \<Rightarrow> None
                | Some (fp, cs3) \<Rightarrow>
                    (case lex_exp cs3 of
                       None \<Rightarrow> None
                     | Some (ex, cs4) \<Rightarrow>
                         let m = int (nat_of_digits (ip @ fp))
                         in Some (normalize (if neg then - m else m) (ex - int (length fp)),
                                  cs4)))))"

fun match_literal :: "jsstring \<Rightarrow> jsstring \<Rightarrow> jsstring option" where
  "match_literal [] cs = Some cs"
| "match_literal (l # ls) [] = None"
| "match_literal (l # ls) (c # cs) = (if l = c then match_literal ls cs else None)"

lemma skip_ws_length: "skip_ws cs = c # r \<Longrightarrow> length r < length cs"
  unfolding skip_ws_def by (metis length_dropWhile_le length_Cons Suc_le_eq)

function (sequential) parse_value :: "jsstring \<Rightarrow> (jsval \<times> jsstring) option"
  and parse_elements :: "jsval list \<Rightarrow> jsstring \<Rightarrow> (jsval \<times> jsstring) option"
  and parse_members :: "(jsstring \<times> jsval) list \<Rightarrow> jsstring \<Rightarrow> (jsval \<times> jsstring) option"
where
  "parse_value cs =
     (case skip_ws cs of
        [] \<Rightarrow> None
      | c # r \<Rightarrow>
          if c = 123 then
            (case skip_ws r of
               [] \<Rightarrow> None
             | d # r' \<Rightarrow> if d = 125 then Some (JObject [], r') else parse_members [] r)
          else if c = 91 then
            (case skip_ws r of
               [] \<Rightarrow> None
             | d # r' \<Rightarrow> if d = 93 then Some (JArray [], r') else parse_elements [] r)
          else if c = 34 then
            (case parse_string [] r of
               None \<Rightarrow> None
             | Some (s, r') \<Rightarrow> Some (JString s, r'))
          else if c = 116 then
            (case match_literal (lit ''rue'') r of None \<Rightarrow> None | Some r' \<Rightarrow> Some (JBool True, r'))
          else if c = 102 then
            (case match_literal (lit ''alse'') r of None \<Rightarrow> None | Some r' \<Rightarrow> Some (JBool False, r'))
          else if c = 110 then
            (case match_literal (lit ''ull'') r of None \<Rightarrow> None | Some r' \<Rightarrow> Some (JNull, r'))
          else if c = 45 \<or> is_digit c then
            (case parse_number (c # r) of None \<Rightarrow> None | Some (d, r') \<Rightarrow> Some (JNumber d, r'))
          else None)"
| "parse_elements acc cs =
     (case parse_value cs of
        None \<Rightarrow> None
      | Some (v, r) \<Rightarrow>
          if length r < length cs then
            (case skip_ws r of
               [] \<Rightarrow> None
             | d # r' \<Rightarrow>
                 if d = 44 then parse_elements (acc @ [v]) r'
                 else if d = 93 then Some (JArray (acc @ [v]), r')
                 else None)
          else None)"
| "parse_members acc cs =
     (case skip_ws cs of
        [] \<Rightarrow> None
      | q # r \<Rightarrow>
          if q = 34 then
            (case parse_string [] r of
               None \<Rightarrow> None
             | Some (k, r1) \<Rightarrow>
                 (case skip_ws r1 of
                    [] \<Rightarrow> None
                  | c # r2 \<Rightarrow>
                      if c = 58 \<and> length r2 < length cs then
                        (case parse_value r2 of
                           None \<Rightarrow> None
                         | Some (v, r3) \<Rightarrow>
                             if length r3 < length r2 then
                               (case skip_ws r3 of
                                  [] \<Rightarrow> None
                                | d # r4 \<Rightarrow>
                                    if d = 44 then parse_members (Map_set k v acc) r4
                                    else if d = 125 then Some (JObject (Map_set k v acc), r4)
                                    else None)
                             else None)
                      else None)
            )
          else None)"
  by pat_completeness auto
termination
  by (relation "measures
        [\<lambda>x. case x of Inl cs \<Rightarrow> length cs
                       | Inr (Inl (acc, cs)) \<Rightarrow> length cs
                       | Inr (Inr (acc, cs)) \<Rightarrow> length cs,
         \<lambda>x. case x of Inl cs \<Rightarrow> 0 | Inr y \<Rightarrow> 1]")
     (auto dest: skip_ws_length)

definition JSON_parse :: "jsstring \<Rightarrow> js_error + jsval" where
  "JSON_parse text =
     (case parse_value text of
        None \<Rightarrow> Inl (SyntaxError (lit ''Unexpected token in JSON''))
      | Some (v, r) \<Rightarrow>
          if skip_ws r = [] then Inr v
          else Inl (SyntaxError (lit ''Unexpected token in JSON'')))"

subsection \<open>Values that JSON text can carry\<close>

text \<open>
  A value is well-formed when it holds no \<open>undefined\<close>, its numbers are normalized and
  the keys of each of its objects are distinct. \<open>json_text\<close> is the text
  \<open>JSON.stringify\<close> gives for it, and \<open>reads_back\<close> says that this text, followed by
  whatever may follow a value, is parsed to the value again.
\<close>

definition wf_decimal :: "decimal \<Rightarrow> bool" where
  "wf_decimal d = (case d of Decimal m e \<Rightarrow> if m = 0 then e = 0 else m mod 10 \<noteq> 0)"

definition number_follow :: "jsstring \<Rightarrow> bool" where
  "number_follow rest =
     (case rest of [] \<Rightarrow> True | c # r \<Rightarrow> \<not> is_digit c \<and> c \<noteq> 46 \<and> c \<noteq> 101 \<and> c \<noteq> 69)"

fun wf_json :: "jsval \<Rightarrow> bool" where
  "wf_json JUndefined = False"
| "wf_json JNull = True"
| "wf_json (JBool b) = True"
| "wf_json (JNumber d) = wf_decimal d"
| "wf_json (JString s) = True"
| "wf_json (JArray vs) = list_all wf_json vs"
| "wf_json (JObject ps) = (distinct (map fst ps) \<and> list_all (\<lambda>p. wf_json (snd p)) ps)"

definition value_follow :: "jsstring \<Rightarrow> bool" where
  "value_follow rest = (case rest of [] \<Rightarrow> True | c # r \<Rightarrow> c = 44 \<or> c = 93 \<or> c = 125 \<or> is_ws c)"

definition value_start :: "nat \<Rightarrow> bool" where
  "value_start c \<longleftrightarrow> c = 110 \<or> c = 116 \<or> c = 102 \<or> c = 34 \<or> c = 91 \<or> c = 123 \<or> c = 45 \<or> is_digit c"

definition json_text :: "jsval \<Rightarrow> jsstring" where
  "json_text v = (case SerializeJSONProperty v of None \<Rightarrow> lit ''null'' | Some t \<Rightarrow> t)"

definition reads_back :: "jsval \<Rightarrow> bool" where
  "reads_back v \<longleftrightarrow>
     SerializeJSONProperty v = Some (json_text v) \<and> json_text v \<noteq> [] \<and> value_start (hd (json_text v))
     \<and> (\<forall>rest. value_follow rest \<longrightarrow> parse_value (json_text v @ rest) = Some (v, rest))"

definition member_text :: "jsstring \<times> jsval \<Rightarrow> jsstring" where
  "member_text p = QuoteJSONString (fst p) @ 58 # json_text (snd p)"

declare parse_value.simps [simp del] parse_elements.simps [simp del] parse_members.simps [simp del]
declare parse_string.simps [simp del]

subsection \<open>Dates\<close>

definition DayFromYear :: "int \<Rightarrow> int" where
  "DayFromYear y =
     365 * (y - 1970) + (y - 1969) div 4 - (y - 1901) div 100 + (y - 1601) div 400"

definition InLeapYear :: "int \<Rightarrow> bool" where
  "InLeapYear y \<longleftrightarrow> y mod 4 = 0 \<and> (y mod 100 \<noteq> 0 \<or> y mod 400 = 0)"

definition YearFromDay :: "int \<Rightarrow> int" where
  "YearFromDay d =
     (let y = 1970 + (400 * d) div 146097
      in if d < DayFromYear y then y - 1
         else if DayFromYear (y + 1) \<le> d then y + 1
         else y)"

definition month_start :: "bool \<Rightarrow> int \<Rightarrow> int" where
  "month_start leap m =
     (if m \<le> 0 then 0
      else if m = 1 then 31
      else (if leap then 1 else 0) +
        (if m = 2 then 59 else if m = 3 then 90 else if m = 4 then 120
         else if m = 5 then 151 else if m = 6 then 181 else if m = 7 then 212
         else if m = 8 then 243 else if m = 9 then 273 else if m = 10 then 304
         else if m = 11 then 334 else 365))"

definition MonthFromDay :: "bool \<Rightarrow> int \<Rightarrow> int" where
  "MonthFromDay leap dy =
     (if dy < month_start leap 1 then 0
      else if dy < month_start leap 2 then 1
      else if dy < month_start leap 3 then 2
      else if dy < month_start leap 4 then 3
      else if dy < month_start leap 5 then 4
      else if dy < month_start leap 6 then 5
      else if dy < month_start leap 7 then 6
      else if dy < month_start leap 8 then 7
      else if dy < month_start leap 9 then 8
      else if dy < month_start leap 10 then 9
      else if dy < month_start leap 11 then 10
      else 11)"

fun pad_digits :: "nat \<Rightarrow> nat \<Rightarrow> jsstring" where
  "pad_digits 0 x = []"
| "pad_digits (Suc n) x = pad_digits n (x div 10) @ [48 + x mod 10]"

definition max_time :: int where
  "max_time = 8640000000000000"

definition format_iso :: "int \<Rightarrow> jsstring" where
  "format_iso t =
     (let d = t div 86400000;
          tod = t mod 86400000;
          y = YearFromDay d;
          dy = d - DayFromYear y;
          mo = MonthFromDay (InLeapYear y) dy;
          date = dy - month_start (InLeapYear y) mo + 1;
          ys = (if 0 \<le> y \<and> y \<le> 9999 then pad_digits 4 (nat y)
                else (if y < 0 then 45 else 43) # pad_digits 6 (nat \<bar>y\<bar>))
      in ys @ [45] @ pad_digits 2 (nat (mo + 1)) @ [45] @ pad_digits 2 (nat date)
         @ [84] @ pad_digits 2 (nat (tod div 3600000))
         @ [58] @ pad_digits 2 (nat (tod div 60000 mod 60))
         @ [58] @ pad_digits 2 (nat (tod div 1000 mod 60))
         @ [46] @ pad_digits 3 (nat (tod mod 1000)) @ [90])"

definition toISOString :: "Date \<Rightarrow> js_error + jsstring" where
  "toISOString d =
     (case d of
        Invalid_Date \<Rightarrow> Inl (RangeError (lit ''Invalid time value''))
      | Date_ms t \<Rightarrow> Inr (format_iso t))"

definition digits_field :: "jsstring \<Rightarrow> nat option" where
  "digits_field ds = (if list_all is_digit ds then Some (nat_of_digits ds) else None)"

definition iso_time :: "bool \<Rightarrow> nat \<Rightarrow> nat \<Rightarrow> nat \<Rightarrow> nat \<Rightarrow> nat \<Rightarrow> nat \<Rightarrow> nat \<Rightarrow> int option" where
  "iso_time negative yn mo date h mi sec ms =
     (let y = (if negative then - int yn else int yn);
          leap = InLeapYear y
      in if (yn = 0 \<longrightarrow> \<not> negative)
            \<and> 1 \<le> mo \<and> mo \<le> 12 \<and> 1 \<le> date
            \<and> int date \<le> month_start leap (int mo) - month_start leap (int mo - 1)
            \<and> h \<le> 23 \<and> mi \<le> 59 \<and> sec \<le> 59
         then
           (let t = (DayFromYear y + month_start leap (int mo - 1) + int date - 1) * 86400000
                    + int h * 3600000 + int mi * 60000 + int sec * 1000 + int ms
            in if \<bar>t\<bar> \<le> max_time then Some t else None)
         else None)"

definition parse_iso :: "jsstring \<Rightarrow> int option" where
  "parse_iso s =
     (let signed = (case s of c # r \<Rightarrow> c = 43 \<or> c = 45 | [] \<Rightarrow> False);
          negative = (case s of c # r \<Rightarrow> c = 45 | [] \<Rightarrow> False);
          ys = (if signed then take 6 (drop 1 s) else take 4 s);
          r = (if signed then drop 7 s else drop 4 s)
      in if length ys = (if signed then 6 else 4) \<and> length r = 20
            \<and> r ! 0 = 45 \<and> r ! 3 = 45 \<and> r ! 6 = 84 \<and> r ! 9 = 58 \<and> r ! 12 = 58
            \<and> r ! 15 = 46 \<and> r ! 19 = 90
         then
           (case (digits_field ys, digits_field (take 2 (drop 1 r)),
                  digits_field (take 2 (drop 4 r)), digits_field (take 2 (drop 7 r)),
                  digits_field (take 2 (drop 10 r)), digits_field (take 2 (drop 13 r)),
                  digits_field (take 3 (drop 16 r))) of
              (Some yn, Some mo, Some date, Some h, Some mi, Some sec, Some ms) \<Rightarrow>
                iso_time negative yn mo date h mi sec ms
            | _ \<Rightarrow> None)
         else None)"

definition Date_parse :: "(jsstring \<Rightarrow> Date) \<Rightarrow> jsstring \<Rightarrow> Date" where
  "Date_parse other s = (case parse_iso s of Some t \<Rightarrow> Date_ms t | None \<Rightarrow> other s)"

subsection \<open>Reading parsed data\<close>

definition truthy :: "jsval \<Rightarrow> bool" where
  "truthy v =
     (case v of
        JUndefined \<Rightarrow> False
      | JNull \<Rightarrow> False
      | JBool b \<Rightarrow> b
      | JNumber d \<Rightarrow> (case d of Decimal m e \<Rightarrow> m \<noteq> 0)
      | JString s \<Rightarrow> s \<noteq> []
      | JArray vs \<Rightarrow> True
      | JObject ps \<Rightarrow> True)"

definition nullish :: "jsval \<Rightarrow> bool" where
  "nullish v \<longleftrightarrow> v = JUndefined \<or> v = JNull"

definition isArray :: "jsval \<Rightarrow> bool" where
  "isArray v = (case v of JArray vs \<Rightarrow> True | _ \<Rightarrow> False)"

definition field :: "jsval \<Rightarrow> jsstring \<Rightarrow> jsval" where
  "field v name =
     (case v of
        JObject ps \<Rightarrow> (case map_of ps name of Some x \<Rightarrow> x | None \<Rightarrow> JUndefined)
      | _ \<Rightarrow> JUndefined)"

definition get_prop :: "jsval \<Rightarrow> jsstring \<Rightarrow> js_error + jsval" where
  "get_prop v name =
     (if nullish v
      then Inl (TypeError (lit ''Cannot read properties of null or undefined''))
      else Inr (field v name))"

definition element_at :: "jsval list \<Rightarrow> nat \<Rightarrow> jsval" where
  "element_at vs i = (if i < length vs then vs ! i else JUndefined)"

fun code_points :: "jsstring \<Rightarrow> jsstring list" where
  "code_points [] = []"
| "code_points [c] = [[c]]"
| "code_points (c # d # cs) =
     (if is_lead c \<and> is_trail d then [c, d] # code_points cs
      else [c] # code_points (d # cs))"

fun ToString :: "jsval \<Rightarrow> jsstring" where
  "ToString JUndefined = lit ''undefined''"
| "ToString JNull = lit ''null''"
| "ToString (JBool b) = (if b then lit ''true'' else lit ''false'')"
| "ToString (JNumber d) = Number_toString d"
| "ToString (JString s) = s"
| "ToString (JArray vs) =
     join [44] (map (\<lambda>v. if v = JUndefined \<or> v = JNull then [] else ToString v) vs)"
| "ToString (JObject ps) = lit ''[object Object]''"

definition TimeClip :: "decimal \<Rightarrow> Date" where
  "TimeClip d =
     (case d of Decimal m e \<Rightarrow>
        let t = (if 0 \<le> e then m * 10 ^ nat e
                 else if 0 \<le> m then m div 10 ^ nat (- e)
                 else - ((- m) div 10 ^ nat (- e)))
        in if \<bar>t\<bar> \<le> max_time then Date_ms t else Invalid_Date)"

definition new_Date :: "(jsstring \<Rightarrow> Date) \<Rightarrow> jsval \<Rightarrow> Date" where
  "new_Date other v =
     (case v of
        JUndefined \<Rightarrow> Invalid_Date
      | JNull \<Rightarrow> Date_ms 0
      | JBool b \<Rightarrow> Date_ms (if b then 1 else 0)
      | JNumber d \<Rightarrow> TimeClip d
      | JString s \<Rightarrow> Date_parse other s
      | JArray vs \<Rightarrow> Date_parse other (ToString v)
      | JObject ps \<Rightarrow> Date_parse other (ToString v))"

definition getTime :: "Date \<Rightarrow> int option" where
  "getTime d = (case d of Date_ms t \<Rightarrow> Some t | Invalid_Date \<Rightarrow> None)"

text \<open>
  Keys of a \<open>Map\<close> are compared with SameValueZero: primitive values by value, objects
  (arrays included) by identity. Every array or object in parsed data is a fresh object,
  so such a key equals no other key.
\<close>

definition same_key :: "jsval \<Rightarrow> jsval \<Rightarrow> bool" where
  "same_key a b = (case a of JArray vs \<Rightarrow> False | JObject ps \<Rightarrow> False | _ \<Rightarrow> a = b)"

fun Map_set_value :: "jsval \<Rightarrow> 'v \<Rightarrow> (jsval, 'v) Map \<Rightarrow> (jsval, 'v) Map" where
  "Map_set_value k v [] = [(k, v)]"
| "Map_set_value k v ((k', v') # m) =
     (if same_key k' k then (k', v) # m else (k', v') # Map_set_value k v m)"

text \<open>
  \<open>new Map(iterable)\<close>: every value the iterable yields must be an object, whose
  properties \<open>0\<close> and \<open>1\<close> are the key and the value of an entry.
\<close>

definition entry_of :: "jsval \<Rightarrow> js_error + (jsval \<times> jsval)" where
  "entry_of v =
     (case v of
        JArray es \<Rightarrow> Inr (element_at es 0, element_at es 1)
      | JObject ps \<Rightarrow> Inr (field v [48], field v [49])
      | _ \<Rightarrow> Inl (TypeError (lit ''Iterator value is not an entry object'')))"

fun Map_of_entries :: "(jsval, jsval) Map \<Rightarrow> jsval list \<Rightarrow> js_error + (jsval, jsval) Map" where
  "Map_of_entries m [] = Inr m"
| "Map_of_entries m (v # vs) =
     (case entry_of v of
        Inl e \<Rightarrow> Inl e
      | Inr (k, x) \<Rightarrow> Map_of_entries (Map_set_value k x m) vs)"

definition new_Map :: "jsval \<Rightarrow> js_error + (jsval, jsval) Map" where
  "new_Map v =
     (case v of
        JArray vs \<Rightarrow> Map_of_entries [] vs
      | JString s \<Rightarrow>
          (if s = [] then Inr []
           else Inl (TypeError (lit ''Iterator value is not an entry object'')))
      | JUndefined \<Rightarrow> Inr []
      | JNull \<Rightarrow> Inr []
      | _ \<Rightarrow> Inl (TypeError (lit ''object is not iterable'')))"

section \<open>The data model (types/index.ts)\<close>

datatype RoleType = software | devops | security

datatype QuestionType = behavioral | technical | system_design

datatype ExperienceLevel = junior | mid | senior | staff

record ParsedJobDescription =
  roleType :: RoleType
  skills :: "jsstring list"
  experienceLevel :: ExperienceLevel
  technologies :: "jsstring list"
  responsibilities :: "jsstring list"
  rawDescription :: jsstring

record InterviewQuestion =
  id_question :: jsstring
  type_question :: QuestionType
  question :: jsstring
  difficulty :: ExperienceLevel
  relatedSkills :: "jsstring list"

record AnswerFeedback =
  questionId :: jsstring
  score :: number
  strengths :: "jsstring list"
  improvements :: "jsstring list"
  timestamp :: Date

record PerformanceSummary =
  behavioral_score :: number
  technical_score :: number
  systemDesign_score :: number

record SessionFeedback =
  overallScore :: number
  performanceSummary :: PerformanceSummary
  strongestAreas :: "jsstring list"
  improvementAreas :: "jsstring list"
  recommendations :: "jsstring list"

record InterviewSession =
  id_session :: jsstring
  parsedJD :: ParsedJobDescription
  questions :: "InterviewQuestion list"
  answers :: "(jsstring, jsstring) Map"
  feedback :: "(jsstring, AnswerFeedback) Map"
  sessionFeedback :: "SessionFeedback option"
  currentQuestionIndex :: number
  isComplete :: bool
  createdAt :: Date
  completedAt :: "Date option"

section \<open>The session manager (lib/session-manager.ts)\<close>

text \<open>
  \<open>createSession\<close> reads two values from its environment: a fresh identifier
  (\<open>uuidv4()\<close>) and the clock (\<open>new Date()\<close>). They are parameters here.
\<close>

definition createSession ::
  "jsstring \<Rightarrow> int \<Rightarrow> ParsedJobDescription \<Rightarrow> InterviewQuestion list \<Rightarrow> InterviewSession" where
  "createSession uuid now jd qs =
     \<lparr> id_session = uuid,
       parsedJD = jd,
       questions = qs,
       answers = [],
       feedback = [],
       sessionFeedback = None,
       currentQuestionIndex = num 0,
       isComplete = False,
       createdAt = Date_ms now,
       completedAt = None \<rparr>"

definition storeAnswer ::
  "InterviewSession \<Rightarrow> jsstring \<Rightarrow> jsstring \<Rightarrow> js_error + InterviewSession" where
  "storeAnswer session qid answer =
     (let questionExists = list_ex (\<lambda>q. id_question q = qid) (questions session) in
      if \<not> questionExists
      then Inl (Error (lit ''Question with ID '' @ qid @ lit '' not found in session''))
      else Inr (session\<lparr>answers := Map_set qid answer (answers session)\<rparr>))"

definition getAnswer :: "InterviewSession \<Rightarrow> jsstring \<Rightarrow> jsstring option" where
  "getAnswer session qid = Map_get (answers session) qid"

definition storeFeedback :: "InterviewSession \<Rightarrow> AnswerFeedback \<Rightarrow> InterviewSession" where
  "storeFeedback session fb =
     session\<lparr>feedback := Map_set (questionId fb) fb (feedback session)\<rparr>"

definition getFeedback :: "InterviewSession \<Rightarrow> jsstring \<Rightarrow> AnswerFeedback option" where
  "getFeedback session qid = Map_get (feedback session) qid"

definition setCurrentQuestionIndex ::
  "InterviewSession \<Rightarrow> number \<Rightarrow> js_error + InterviewSession" where
  "setCurrentQuestionIndex session index =
     (if number_less index (num 0) \<or> number_ge index (num (int (length (questions session))))
      then Inl (Error (lit ''Invalid question index: '' @ number_toString index
                       @ lit ''. Must be between 0 and ''
                       @ number_toString (num (int (length (questions session)) - 1))))
      else Inr (session\<lparr>currentQuestionIndex := index\<rparr>))"

definition completeSession :: "int \<Rightarrow> InterviewSession \<Rightarrow> InterviewSession" where
  "completeSession now session =
     session\<lparr>isComplete := True, completedAt := Some (Date_ms now)\<rparr>"

definition areAllQuestionsAnswered :: "InterviewSession \<Rightarrow> bool" where
  "areAllQuestionsAnswered session \<longleftrightarrow> Map_size (answers session) = length (questions session)"

definition storeSessionFeedback :: "InterviewSession \<Rightarrow> SessionFeedback \<Rightarrow> InterviewSession" where
  "storeSessionFeedback session sf = session\<lparr>sessionFeedback := Some sf\<rparr>"

text \<open>Reading an array outside its bounds gives \<open>undefined\<close>: \<open>None\<close> here.\<close>

definition getCurrentQuestion :: "InterviewSession \<Rightarrow> InterviewQuestion option" where
  "getCurrentQuestion session =
     (case array_index (currentQuestionIndex session) of
        None \<Rightarrow> None
      | Some i \<Rightarrow> if i < length (questions session) then Some (questions session ! i) else None)"

definition nextQuestion :: "InterviewSession \<Rightarrow> js_error + InterviewSession" where
  "nextQuestion session =
     (let nextIndex = number_add (currentQuestionIndex session) (num 1) in
      if number_ge nextIndex (num (int (length (questions session))))
      then Inl (Error (lit ''Already at the last question''))
      else setCurrentQuestionIndex session nextIndex)"

definition previousQuestion :: "InterviewSession \<Rightarrow> js_error + InterviewSession" where
  "previousQuestion session =
     (let prevIndex = number_sub (currentQuestionIndex session) (num 1) in
      if number_less prevIndex (num 0)
      then Inl (Error (lit ''Already at the first question''))
      else setCurrentQuestionIndex session prevIndex)"

text \<open>
  The operations that produce a session from a session, as a datatype, and a run of
  them: an operation that throws ends the run with its error.
\<close>

datatype manager_op =
    StoreAnswer jsstring jsstring
  | StoreFeedback AnswerFeedback
  | SetCurrentQuestionIndex number
  | CompleteSession int
  | StoreSessionFeedback SessionFeedback
  | NextQuestion
  | PreviousQuestion

fun apply_op :: "manager_op \<Rightarrow> InterviewSession \<Rightarrow> js_error + InterviewSession" where
  "apply_op (StoreAnswer q a) s = storeAnswer s q a"
| "apply_op (StoreFeedback fb) s = Inr (storeFeedback s fb)"
| "apply_op (SetCurrentQuestionIndex i) s = setCurrentQuestionIndex s i"
| "apply_op (CompleteSession now) s = Inr (completeSession now s)"
| "apply_op (StoreSessionFeedback sf) s = Inr (storeSessionFeedback s sf)"
| "apply_op NextQuestion s = nextQuestion s"
| "apply_op PreviousQuestion s = previousQuestion s"

fun run_ops :: "manager_op list \<Rightarrow> InterviewSession \<Rightarrow> js_error + InterviewSession" where
  "run_ops [] s = Inr s"
| "run_ops (op # ops) s = (case apply_op op s of Inl e \<Rightarrow> Inl e | Inr s' \<Rightarrow> run_ops ops s')"

fun completion_times :: "manager_op list \<Rightarrow> int list" where
  "completion_times [] = []"
| "completion_times (CompleteSession now # ops) = now # completion_times ops"
| "completion_times (_ # ops) = completion_times ops"

fun stored_feedback_ids :: "manager_op list \<Rightarrow> jsstring list" where
  "stored_feedback_ids [] = []"
| "stored_feedback_ids (StoreFeedback fb # ops) = questionId fb # stored_feedback_ids ops"
| "stored_feedback_ids (_ # ops) = stored_feedback_ids ops"


definition question_ids :: "InterviewSession \<Rightarrow> jsstring set" where
  "question_ids s = id_question ` set (questions s)"

section \<open>Typed values as runtime values\<close>

text \<open>
  A value of a declared type is, at run time, a string, a number, an array or an object
  with the declared properties, here in the order of the declaration. The values here
  are those that JSON text carries: \<open>JSON.stringify\<close> prints \<open>NaN\<close> and the infinities as
  \<open>null\<close>, so that is what stands for them.
\<close>

definition js_of_number :: "number \<Rightarrow> jsval" where
  "js_of_number a = (case a of Finite (Decimal m e) \<Rightarrow> JNumber (normalize m e) | _ \<Rightarrow> JNull)"

definition js_of_strings :: "jsstring list \<Rightarrow> jsval" where
  "js_of_strings ss = JArray (map JString ss)"

definition js_of_RoleType :: "RoleType \<Rightarrow> jsval" where
  "js_of_RoleType r =
     JString (case r of software \<Rightarrow> lit ''software'' | devops \<Rightarrow> lit ''devops''
              | security \<Rightarrow> lit ''security'')"

definition js_of_QuestionType :: "QuestionType \<Rightarrow> jsval" where
  "js_of_QuestionType t =
     JString (case t of behavioral \<Rightarrow> lit ''behavioral'' | technical \<Rightarrow> lit ''technical''
              | system_design \<Rightarrow> lit ''system-design'')"

definition js_of_ExperienceLevel :: "ExperienceLevel \<Rightarrow> jsval" where
  "js_of_ExperienceLevel l =
     JString (case l of junior \<Rightarrow> lit ''junior'' | mid \<Rightarrow> lit ''mid''
              | senior \<Rightarrow> lit ''senior'' | staff \<Rightarrow> lit ''staff'')"

definition js_of_ParsedJobDescription :: "ParsedJobDescription \<Rightarrow> jsval" where
  "js_of_ParsedJobDescription jd =
     JObject
       [(lit ''roleType'', js_of_RoleType (roleType jd)),
        (lit ''skills'', js_of_strings (skills jd)),
        (lit ''experienceLevel'', js_of_ExperienceLevel (experienceLevel jd)),
        (lit ''technologies'', js_of_strings (technologies jd)),
        (lit ''responsibilities'', js_of_strings (responsibilities jd)),
        (lit ''rawDescription'', JString (rawDescription jd))]"

definition js_of_InterviewQuestion :: "InterviewQuestion \<Rightarrow> jsval" where
  "js_of_InterviewQuestion q =
     JObject
       [(lit ''id'', JString (id_question q)),
        (lit ''type'', js_of_QuestionType (type_question q)),
        (lit ''question'', JString (question q)),
        (lit ''difficulty'', js_of_ExperienceLevel (difficulty q)),
        (lit ''relatedSkills'', js_of_strings (relatedSkills q))]"

definition js_of_SessionFeedback :: "SessionFeedback option \<Rightarrow> jsval" where
  "js_of_SessionFeedback sf =
     (case sf of
        None \<Rightarrow> JNull
      | Some f \<Rightarrow>
          JObject
            [(lit ''overallScore'', js_of_number (overallScore f)),
             (lit ''performanceSummary'',
                JObject
                  [(lit ''behavioral'',
                      js_of_number (behavioral_score (performanceSummary f))),
                   (lit ''technical'',
                      js_of_number (technical_score (performanceSummary f))),
                   (lit ''systemDesign'',
                      js_of_number (systemDesign_score (performanceSummary f)))]),
             (lit ''strongestAreas'', js_of_strings (strongestAreas f)),
             (lit ''improvementAreas'', js_of_strings (improvementAreas f)),
             (lit ''recommendations'', js_of_strings (recommendations f))])"

section \<open>The serialization codec (lib/storage.ts)\<close>

text \<open>
  What \<open>deserializeSession\<close> returns is declared an \<open>InterviewSession\<close>, by a cast of
  the parsed data that checks nothing: its fields hold whatever values the text gave.
\<close>

record ParsedFeedback =
  p_questionId :: jsval
  p_score :: jsval
  p_strengths :: jsval
  p_improvements :: jsval
  p_timestamp :: Date

record ParsedSession =
  p_id :: jsval
  p_parsedJD :: jsval
  p_questions :: "jsval list"
  p_answers :: "(jsval, jsval) Map"
  p_feedback :: "(jsval, ParsedFeedback) Map"
  p_sessionFeedback :: jsval
  p_currentQuestionIndex :: jsval
  p_isComplete :: jsval
  p_createdAt :: Date
  p_completedAt :: "Date option"

text \<open>
  The callback of \<open>data.feedback.map\<close>: the element is destructured as \<open>[id, fb]\<close>,
  which iterates it (an array by its elements, a string by its code points; anything
  else is not iterable), and \<open>fb\<close> is read field by field.
\<close>

definition destructure_pair :: "jsval \<Rightarrow> js_error + (jsval \<times> jsval)" where
  "destructure_pair v =
     (case v of
        JArray es \<Rightarrow> Inr (element_at es 0, element_at es 1)
      | JString s \<Rightarrow> Inr (element_at (map JString (code_points s)) 0,
                           element_at (map JString (code_points s)) 1)
      | _ \<Rightarrow> Inl (TypeError (lit ''value is not iterable'')))"

definition feedback_entry :: "(jsstring \<Rightarrow> Date) \<Rightarrow> jsval \<Rightarrow> js_error + (jsval \<times> ParsedFeedback)" where
  "feedback_entry other v =
     (case destructure_pair v of
        Inl e \<Rightarrow> Inl e
      | Inr (k, fb) \<Rightarrow>
          if nullish fb
          then Inl (TypeError (lit ''Cannot read properties of null or undefined''))
          else Inr (k, \<lparr> p_questionId = field fb (lit ''questionId''),
                         p_score = field fb (lit ''score''),
                         p_strengths = field fb (lit ''strengths''),
                         p_improvements = field fb (lit ''improvements''),
                         p_timestamp = new_Date other (field fb (lit ''timestamp'')) \<rparr>))"

fun feedback_entries ::
  "(jsstring \<Rightarrow> Date) \<Rightarrow> jsval list \<Rightarrow> js_error + (jsval \<times> ParsedFeedback) list" where
  "feedback_entries other [] = Inr []"
| "feedback_entries other (v # vs) =
     (case feedback_entry other v of
        Inl e \<Rightarrow> Inl e
      | Inr p \<Rightarrow>
          (case feedback_entries other vs of
             Inl e \<Rightarrow> Inl e
           | Inr ps \<Rightarrow> Inr (p # ps)))"

definition feedback_Map ::
  "(jsstring \<Rightarrow> Date) \<Rightarrow> jsval \<Rightarrow> js_error + (jsval, ParsedFeedback) Map" where
  "feedback_Map other v =
     (if \<not> truthy v then Inr []
      else
        (case v of
           JArray vs \<Rightarrow>
             (case feedback_entries other vs of
                Inl e \<Rightarrow> Inl e
              | Inr ps \<Rightarrow> Inr (foldl (\<lambda>m (k, fb). Map_set_value k fb m) [] ps))
         | _ \<Rightarrow> Inl (TypeError (lit ''data.feedback.map is not a function''))))"

definition deserialize_body :: "(jsstring \<Rightarrow> Date) \<Rightarrow> jsstring \<Rightarrow> js_error + ParsedSession" where
  "deserialize_body other json =
     (case JSON_parse json of
        Inl e \<Rightarrow> Inl e
      | Inr data \<Rightarrow>
          (case get_prop data (lit ''id'') of
             Inl e \<Rightarrow> Inl e
           | Inr data_id \<Rightarrow>
               if \<not> truthy data_id \<or> \<not> truthy (field data (lit ''parsedJD''))
                  \<or> \<not> truthy (field data (lit ''questions''))
                  \<or> \<not> isArray (field data (lit ''questions''))
               then Inl (Error (lit ''Invalid session data: missing required fields''))
               else
                 (case new_Map (if truthy (field data (lit ''answers''))
                                then field data (lit ''answers'') else JArray []) of
                    Inl e \<Rightarrow> Inl e
                  | Inr answers_map \<Rightarrow>
                      (case feedback_Map other (field data (lit ''feedback'')) of
                         Inl e \<Rightarrow> Inl e
                       | Inr feedback_map \<Rightarrow>
                           let created = new_Date other (field data (lit ''createdAt''));
                               completed =
                                 (if truthy (field data (lit ''completedAt''))
                                  then Some (new_Date other (field data (lit ''completedAt'')))
                                  else None)
                           in if getTime created = None
                              then Inl (Error (lit ''Invalid session data: createdAt is not a valid date''))
                              else if truthy (field data (lit ''completedAt''))
                                      \<and> completed = Some Invalid_Date
                              then Inl (Error (lit ''Invalid session data: completedAt is not a valid date''))
                              else Inr
                                \<lparr> p_id = data_id,
                                  p_parsedJD = field data (lit ''parsedJD''),
                                  p_questions =
                                    (case field data (lit ''questions'') of JArray qs \<Rightarrow> qs | _ \<Rightarrow> []),
                                  p_answers = answers_map,
                                  p_feedback = feedback_map,
                                  p_sessionFeedback = field data (lit ''sessionFeedback''),
                                  p_currentQuestionIndex =
                                    (if nullish (field data (lit ''currentQuestionIndex''))
                                     then JNumber (Decimal 0 0)
                                     else field data (lit ''currentQuestionIndex'')),
                                  p_isComplete =
                                    (if nullish (field data (lit ''isComplete''))
                                     then JBool False
                                     else field data (lit ''isComplete'')),
                                  p_createdAt = created,
                                  p_completedAt = completed \<rparr>))))"

definition deserializeSession :: "(jsstring \<Rightarrow> Date) \<Rightarrow> jsstring \<Rightarrow> js_error + ParsedSession" where
  "deserializeSession other json =
     (case deserialize_body other json of
        Inr session \<Rightarrow> Inr session
      | Inl (SyntaxError msg) \<Rightarrow>
          Inl (Error (lit ''Failed to deserialize session: Invalid JSON format - '' @ msg))
      | Inl (Error msg) \<Rightarrow> Inl (Error (lit ''Failed to deserialize session: '' @ msg))
      | Inl (TypeError msg) \<Rightarrow> Inl (Error (lit ''Failed to deserialize session: '' @ msg))
      | Inl (RangeError msg) \<Rightarrow> Inl (Error (lit ''Failed to deserialize session: '' @ msg)))"

definition no_other_formats :: "jsstring \<Rightarrow> Date" where
  "no_other_formats s = Invalid_Date"

subsection \<open>serializeSession\<close>

fun serialize_feedback :: "(jsstring, AnswerFeedback) Map \<Rightarrow> js_error + jsval list" where
  "serialize_feedback [] = Inr []"
| "serialize_feedback ((k, fb) # m) =
     (case toISOString (timestamp fb) of
        Inl e \<Rightarrow> Inl e
      | Inr ts \<Rightarrow>
          (case serialize_feedback m of
             Inl e \<Rightarrow> Inl e
           | Inr vs \<Rightarrow>
               Inr (JArray
                      [JString k,
                       JObject
                         [(lit ''questionId'', JString (questionId fb)),
                          (lit ''score'', js_of_number (score fb)),
                          (lit ''strengths'', js_of_strings (strengths fb)),
                          (lit ''improvements'', js_of_strings (improvements fb)),
                          (lit ''timestamp'', JString ts)]] # vs)))"

definition serializable :: "InterviewSession \<Rightarrow> js_error + jsval" where
  "serializable session =
     (case serialize_feedback (feedback session) of
        Inl e \<Rightarrow> Inl e
      | Inr fbs \<Rightarrow>
          (case toISOString (createdAt session) of
             Inl e \<Rightarrow> Inl e
           | Inr created \<Rightarrow>
               (case (case completedAt session of
                        None \<Rightarrow> Inr JNull
                      | Some c \<Rightarrow>
                          (case toISOString c of Inl e \<Rightarrow> Inl e | Inr t \<Rightarrow> Inr (JString t))) of
                  Inl e \<Rightarrow> Inl e
                | Inr completed \<Rightarrow>
                    Inr (JObject
                      [(lit ''id'', JString (id_session session)),
                       (lit ''parsedJD'', js_of_ParsedJobDescription (parsedJD session)),
                       (lit ''questions'', JArray (map js_of_InterviewQuestion (questions session))),
                       (lit ''answers'',
                          JArray (map (\<lambda>(k, a). JArray [JString k, JString a]) (answers session))),
                       (lit ''feedback'', JArray fbs),
                       (lit ''sessionFeedback'', js_of_SessionFeedback (sessionFeedback session)),
                       (lit ''currentQuestionIndex'',
                          js_of_number (currentQuestionIndex session)),
                       (lit ''isComplete'', JBool (isComplete session)),
                       (lit ''createdAt'', JString created),
                       (lit ''completedAt'', completed)]))))"

text \<open>\<open>JSON.stringify\<close> of an object is a string, never \<open>undefined\<close>.\<close>

definition serializeSession :: "InterviewSession \<Rightarrow> js_error + jsstring" where
  "serializeSession session =
     (case serializable session of
        Inl e \<Rightarrow> Inl e
      | Inr v \<Rightarrow> (case JSON_stringify v of Some text \<Rightarrow> Inr text | None \<Rightarrow> Inr []))"

subsection \<open>Parsed data read at the declared types\<close>

definition as_string :: "jsval \<Rightarrow> jsstring option" where
  "as_string v = (case v of JString s \<Rightarrow> Some s | _ \<Rightarrow> None)"

definition as_number :: "jsval \<Rightarrow> number option" where
  "as_number v = (case v of JNumber d \<Rightarrow> Some (Finite d) | _ \<Rightarrow> None)"

definition as_bool :: "jsval \<Rightarrow> bool option" where
  "as_bool v = (case v of JBool b \<Rightarrow> Some b | _ \<Rightarrow> None)"

fun all_some :: "'a option list \<Rightarrow> 'a list option" where
  "all_some [] = Some []"
| "all_some (x # xs) =
     (case x of
        None \<Rightarrow> None
      | Some y \<Rightarrow> (case all_some xs of None \<Rightarrow> None | Some ys \<Rightarrow> Some (y # ys)))"

definition as_strings :: "jsval \<Rightarrow> jsstring list option" where
  "as_strings v = (case v of JArray vs \<Rightarrow> all_some (map as_string vs) | _ \<Rightarrow> None)"

definition as_RoleType :: "jsval \<Rightarrow> RoleType option" where
  "as_RoleType v =
     (if v = JString (lit ''software'') then Some software
      else if v = JString (lit ''devops'') then Some devops
      else if v = JString (lit ''security'') then Some security
      else None)"

definition as_QuestionType :: "jsval \<Rightarrow> QuestionType option" where
  "as_QuestionType v =
     (if v = JString (lit ''behavioral'') then Some behavioral
      else if v = JString (lit ''technical'') then Some technical
      else if v = JString (lit ''system-design'') then Some system_design
      else None)"

definition as_ExperienceLevel :: "jsval \<Rightarrow> ExperienceLevel option" where
  "as_ExperienceLevel v =
     (if v = JString (lit ''junior'') then Some junior
      else if v = JString (lit ''mid'') then Some mid
      else if v = JString (lit ''senior'') then Some senior
      else if v = JString (lit ''staff'') then Some staff
      else None)"

definition as_ParsedJobDescription :: "jsval \<Rightarrow> ParsedJobDescription option" where
  "as_ParsedJobDescription v =
     (case (as_RoleType (field v (lit ''roleType'')), as_strings (field v (lit ''skills'')),
            as_ExperienceLevel (field v (lit ''experienceLevel'')),
            as_strings (field v (lit ''technologies'')),
            as_strings (field v (lit ''responsibilities'')),
            as_string (field v (lit ''rawDescription''))) of
        (Some r, Some sk, Some l, Some t, Some rs, Some raw) \<Rightarrow>
          Some \<lparr> roleType = r, skills = sk, experienceLevel = l, technologies = t,
                 responsibilities = rs, rawDescription = raw \<rparr>
      | _ \<Rightarrow> None)"

definition as_InterviewQuestion :: "jsval \<Rightarrow> InterviewQuestion option" where
  "as_InterviewQuestion v =
     (case (as_string (field v (lit ''id'')), as_QuestionType (field v (lit ''type'')),
            as_string (field v (lit ''question'')),
            as_ExperienceLevel (field v (lit ''difficulty'')),
            as_strings (field v (lit ''relatedSkills''))) of
        (Some i, Some t, Some q, Some d, Some r) \<Rightarrow>
          Some \<lparr> id_question = i, type_question = t, question = q, difficulty = d,
                 relatedSkills = r \<rparr>
      | _ \<Rightarrow> None)"

definition as_PerformanceSummary :: "jsval \<Rightarrow> PerformanceSummary option" where
  "as_PerformanceSummary v =
     (case (as_number (field v (lit ''behavioral'')), as_number (field v (lit ''technical'')),
            as_number (field v (lit ''systemDesign''))) of
        (Some b, Some t, Some s) \<Rightarrow>
          Some \<lparr> behavioral_score = b, technical_score = t, systemDesign_score = s \<rparr>
      | _ \<Rightarrow> None)"

definition as_SessionFeedback :: "jsval \<Rightarrow> SessionFeedback option option" where
  "as_SessionFeedback v =
     (if v = JNull then Some None
      else
        (case (as_number (field v (lit ''overallScore'')),
               as_PerformanceSummary (field v (lit ''performanceSummary'')),
               as_strings (field v (lit ''strongestAreas'')),
               as_strings (field v (lit ''improvementAreas'')),
               as_strings (field v (lit ''recommendations''))) of
           (Some sc, Some p, Some st, Some im, Some re) \<Rightarrow>
             Some (Some \<lparr> overallScore = sc, performanceSummary = p, strongestAreas = st,
                          improvementAreas = im, recommendations = re \<rparr>)
         | _ \<Rightarrow> None))"

definition as_answer :: "jsval \<times> jsval \<Rightarrow> (jsstring \<times> jsstring) option" where
  "as_answer p =
     (case (as_string (fst p), as_string (snd p)) of
        (Some k, Some a) \<Rightarrow> Some (k, a)
      | _ \<Rightarrow> None)"

definition as_AnswerFeedback :: "jsval \<times> ParsedFeedback \<Rightarrow> (jsstring \<times> AnswerFeedback) option" where
  "as_AnswerFeedback p =
     (case (as_string (fst p), as_string (p_questionId (snd p)), as_number (p_score (snd p)),
            as_strings (p_strengths (snd p)), as_strings (p_improvements (snd p))) of
        (Some k, Some q, Some sc, Some st, Some im) \<Rightarrow>
          Some (k, \<lparr> questionId = q, score = sc, strengths = st, improvements = im,
                     timestamp = p_timestamp (snd p) \<rparr>)
      | _ \<Rightarrow> None)"

definition as_InterviewSession :: "ParsedSession \<Rightarrow> InterviewSession option" where
  "as_InterviewSession p =
     (case (as_string (p_id p), as_ParsedJobDescription (p_parsedJD p),
            all_some (map as_InterviewQuestion (p_questions p)),
            all_some (map as_answer (p_answers p)),
            all_some (map as_AnswerFeedback (p_feedback p)),
            as_SessionFeedback (p_sessionFeedback p),
            as_number (p_currentQuestionIndex p), as_bool (p_isComplete p)) of
        (Some i, Some jd, Some qs, Some ans, Some fbs, Some sf, Some idx, Some c) \<Rightarrow>
          Some \<lparr> id_session = i, parsedJD = jd, questions = qs, answers = ans,
                 feedback = fbs, sessionFeedback = sf, currentQuestionIndex = idx,
                 isComplete = c, createdAt = p_createdAt p, completedAt = p_completedAt p \<rparr>
      | _ \<Rightarrow> None)"

subsection \<open>The wire form of a session\<close>

text \<open>
  A date is valid when it holds a time value, which is within the range of time values.
  \<open>wire_session\<close> is the object that \<open>serializeSession\<close> hands to \<open>JSON.stringify\<close>
  for a session whose dates are valid, and \<open>parsed_feedback\<close> is what the callback of
  \<open>deserializeSession\<close> makes of one entry of its feedback list. \<open>round_trip\<close> is
  \<open>deserializeSession(serializeSession(session))\<close>, read at the declared types.
\<close>

definition valid_Date :: "Date \<Rightarrow> bool" where
  "valid_Date d = (case d of Date_ms t \<Rightarrow> \<bar>t\<bar> \<le> max_time | Invalid_Date \<Rightarrow> False)"

definition iso_text :: "Date \<Rightarrow> jsstring" where
  "iso_text d = (case d of Date_ms t \<Rightarrow> format_iso t | Invalid_Date \<Rightarrow> [])"

definition wire_feedback :: "jsstring \<times> AnswerFeedback \<Rightarrow> jsval" where
  "wire_feedback p =
     JArray
       [JString (fst p),
        JObject
          [(lit ''questionId'', JString (questionId (snd p))),
           (lit ''score'', js_of_number (score (snd p))),
           (lit ''strengths'', js_of_strings (strengths (snd p))),
           (lit ''improvements'', js_of_strings (improvements (snd p))),
           (lit ''timestamp'', JString (iso_text (timestamp (snd p))))]]"

definition wire_session :: "InterviewSession \<Rightarrow> jsval" where
  "wire_session session =
     JObject
       [(lit ''id'', JString (id_session session)),
        (lit ''parsedJD'', js_of_ParsedJobDescription (parsedJD session)),
        (lit ''questions'', JArray (map js_of_InterviewQuestion (questions session))),
        (lit ''answers'',
           JArray (map (\<lambda>(k, a). JArray [JString k, JString a]) (answers session))),
        (lit ''feedback'', JArray (map wire_feedback (feedback session))),
        (lit ''sessionFeedback'', js_of_SessionFeedback (sessionFeedback session)),
        (lit ''currentQuestionIndex'', js_of_number (currentQuestionIndex session)),
        (lit ''isComplete'', JBool (isComplete session)),
        (lit ''createdAt'', JString (iso_text (createdAt session))),
        (lit ''completedAt'',
           (case completedAt session of None \<Rightarrow> JNull | Some c \<Rightarrow> JString (iso_text c)))]"

definition valid_dates :: "InterviewSession \<Rightarrow> bool" where
  "valid_dates session \<longleftrightarrow>
     valid_Date (createdAt session)
     \<and> (case completedAt session of None \<Rightarrow> True | Some c \<Rightarrow> valid_Date c)
     \<and> list_all (\<lambda>p. valid_Date (timestamp (snd p))) (feedback session)"

text \<open>
  Every finite number of the model is in normal form (\<open>is_number\<close>); \<open>finite_number\<close>
  says in addition that the number is neither \<open>NaN\<close> nor an infinity.
\<close>

definition is_number :: "number \<Rightarrow> bool" where
  "is_number a = (case a of Finite d \<Rightarrow> wf_decimal d | _ \<Rightarrow> True)"

definition finite_number :: "number \<Rightarrow> bool" where
  "finite_number a = (case a of Finite d \<Rightarrow> wf_decimal d | _ \<Rightarrow> False)"

definition finite_SessionFeedback :: "SessionFeedback option \<Rightarrow> bool" where
  "finite_SessionFeedback sf =
     (case sf of
        None \<Rightarrow> True
      | Some f \<Rightarrow>
          finite_number (overallScore f)
          \<and> finite_number (behavioral_score (performanceSummary f))
          \<and> finite_number (technical_score (performanceSummary f))
          \<and> finite_number (systemDesign_score (performanceSummary f)))"

text \<open>
  A session value, as far as the codec is concerned: what the types and the schemas of
  types/index.ts say of every session, and what holds of every session that
  \<open>createSession\<close> returns. The id is not the empty string (\<open>z.string().uuid()\<close>), the
  dates are valid (\<open>z.date()\<close>), the scores are finite numbers (\<open>z.number()\<close> within
  bounds), and the associations are \<open>Map\<close>s, whose keys are distinct. That the cursor is
  finite is part of the cursor invariant, not of this.
\<close>

definition Session_value :: "InterviewSession \<Rightarrow> bool" where
  "Session_value session \<longleftrightarrow>
     id_session session \<noteq> []
     \<and> valid_dates session
     \<and> distinct (map fst (answers session))
     \<and> distinct (map fst (feedback session))
     \<and> is_number (currentQuestionIndex session)
     \<and> list_all (\<lambda>p. finite_number (score (snd p))) (feedback session)
     \<and> finite_SessionFeedback (sessionFeedback session)"

definition round_trip :: "(jsstring \<Rightarrow> Date) \<Rightarrow> InterviewSession \<Rightarrow> js_error + InterviewSession option" where
  "round_trip other session =
     (case serializeSession session of
        Inl e \<Rightarrow> Inl e
      | Inr json \<Rightarrow>
          (case deserializeSession other json of
             Inl e \<Rightarrow> Inl e
           | Inr p \<Rightarrow> Inr (as_InterviewSession p)))"

definition parsed_feedback :: "jsstring \<times> AnswerFeedback \<Rightarrow> jsval \<times> ParsedFeedback" where
  "parsed_feedback p =
     (JString (fst p),
      \<lparr> p_questionId = JString (questionId (snd p)),
        p_score = js_of_number (score (snd p)),
        p_strengths = js_of_strings (strengths (snd p)),
        p_improvements = js_of_strings (improvements (snd p)),
        p_timestamp = timestamp (snd p) \<rparr>)"

section \<open>The persistence store (lib/storage.ts)\<close>

text \<open>
  The browser as the store sees it: whether there is a \<open>window\<close>, the content of
  \<open>localStorage\<close>, and which writes the storage refuses (\<open>setItem\<close> then throws
  \<open>QuotaExceededError\<close>). What is logged to the console is left out.
\<close>

record Browser =
  window_defined :: bool
  localStorage :: "jsstring \<Rightarrow> jsstring option"
  quota_exceeded :: "jsstring \<Rightarrow> jsstring \<Rightarrow> bool"

definition SESSION_HISTORY :: jsstring where
  "SESSION_HISTORY = lit ''mockmatch:session-history''"

definition getSessionHistory :: "Browser \<Rightarrow> jsval" where
  "getSessionHistory env =
     (if \<not> window_defined env then JArray []
      else
        (case localStorage env SESSION_HISTORY of
           None \<Rightarrow> JArray []
         | Some historyJson \<Rightarrow>
             if historyJson = [] then JArray []
             else (case JSON_parse historyJson of Inl e \<Rightarrow> JArray [] | Inr v \<Rightarrow> v)))"

definition historyEntry :: "InterviewSession \<Rightarrow> js_error + jsval" where
  "historyEntry session =
     (case toISOString (createdAt session) of
        Inl e \<Rightarrow> Inl e
      | Inr created \<Rightarrow>
          (case (case completedAt session of
                   None \<Rightarrow> Inr JNull
                 | Some c \<Rightarrow>
                     (case toISOString c of Inl e \<Rightarrow> Inl e | Inr t \<Rightarrow> Inr (JString t))) of
             Inl e \<Rightarrow> Inl e
           | Inr completed \<Rightarrow>
               Inr (JObject
                 [(lit ''id'', JString (id_session session)),
                  (lit ''roleType'', js_of_RoleType (roleType (parsedJD session))),
                  (lit ''experienceLevel'',
                     js_of_ExperienceLevel (experienceLevel (parsedJD session))),
                  (lit ''createdAt'', JString created),
                  (lit ''completedAt'', completed),
                  (lit ''overallScore'',
                     (case sessionFeedback session of
                        None \<Rightarrow> JNull
                      | Some f \<Rightarrow> js_of_number (overallScore f)))])))"

text \<open>\<open>history.findIndex((entry) => entry.id === session.id)\<close>\<close>

fun findIndex_id :: "jsstring \<Rightarrow> jsval list \<Rightarrow> js_error + int" where
  "findIndex_id sid [] = Inr (- 1)"
| "findIndex_id sid (entry # rest) =
     (case get_prop entry (lit ''id'') of
        Inl e \<Rightarrow> Inl e
      | Inr i \<Rightarrow>
          if i = JString sid then Inr 0
          else
            (case findIndex_id sid rest of
               Inl e \<Rightarrow> Inl e
             | Inr k \<Rightarrow> if k < 0 then Inr (- 1) else Inr (k + 1)))"

definition setItem :: "Browser \<Rightarrow> jsstring \<Rightarrow> jsstring \<Rightarrow> js_error + Browser" where
  "setItem env key text =
     (if quota_exceeded env key text then Inl (Error (lit ''QuotaExceededError''))
      else Inr (env\<lparr>localStorage := (localStorage env)(key \<mapsto> text)\<rparr>))"

text \<open>
  Everything thrown inside the \<open>try\<close> block is caught and logged: the storage is left
  as it was.
\<close>

definition saveSessionToHistory :: "Browser \<Rightarrow> InterviewSession \<Rightarrow> Browser" where
  "saveSessionToHistory env session =
     (if \<not> window_defined env then env
      else
        (case getSessionHistory env of
           JArray history \<Rightarrow>
             (case findIndex_id (id_session session) history of
                Inl e \<Rightarrow> env
              | Inr existingIndex \<Rightarrow>
                  (case historyEntry session of
                     Inl e \<Rightarrow> env
                   | Inr entry \<Rightarrow>
                       let history' =
                             (if existingIndex \<ge> 0 then history[nat existingIndex := entry]
                              else history @ [entry])
                       in (case JSON_stringify (JArray history') of
                             None \<Rightarrow> env
                           | Some text \<Rightarrow>
                               (case setItem env SESSION_HISTORY text of
                                  Inl e \<Rightarrow> env
                                | Inr env' \<Rightarrow> env'))))
         | _ \<Rightarrow> env))"

fun save_all :: "Browser \<Rightarrow> InterviewSession list \<Rightarrow> Browser" where
  "save_all env [] = env"
| "save_all env (s # ss) = save_all (saveSessionToHistory env s) ss"

definition entries_with_id :: "jsstring \<Rightarrow> jsval \<Rightarrow> nat" where
  "entries_with_id sid history =
     (case history of
        JArray es \<Rightarrow> length (filter (\<lambda>e. field e (lit ''id'') = JString sid) es)
      | _ \<Rightarrow> 0)"

text \<open>
  The summary record that \<open>saveSessionToHistory\<close> builds, as JSON text carries it, and
  the upsert of the specification: the first entry with the id is replaced where it
  stands, and the record is appended when no entry has the id.
\<close>

definition history_record :: "InterviewSession \<Rightarrow> jsval" where
  "history_record session =
     JObject
       [(lit ''id'', JString (id_session session)),
        (lit ''roleType'', js_of_RoleType (roleType (parsedJD session))),
        (lit ''experienceLevel'', js_of_ExperienceLevel (experienceLevel (parsedJD session))),
        (lit ''createdAt'', JString (iso_text (createdAt session))),
        (lit ''completedAt'',
           (case completedAt session of None \<Rightarrow> JNull | Some c \<Rightarrow> JString (iso_text c))),
        (lit ''overallScore'',
           (case sessionFeedback session of
              None \<Rightarrow> JNull
            | Some f \<Rightarrow> js_of_number (overallScore f)))]"

fun upsert :: "jsstring \<Rightarrow> jsval \<Rightarrow> jsval list \<Rightarrow> jsval list" where
  "upsert sid entry [] = [entry]"
| "upsert sid entry (e # es) =
     (if field e (lit ''id'') = JString sid then entry # es else e # upsert sid entry es)"

text \<open>
  When the write goes through: there is a window, the stored history is read as a list
  (unset and unreadable are read as the empty list), no entry before the first one with
  the id is \<open>null\<close> (reading its id would throw), both dates of the session are valid
  (\<open>toISOString\<close> would throw), and the storage accepts the new text.
\<close>

definition history_list :: "Browser \<Rightarrow> jsval list" where
  "history_list env = (case getSessionHistory env of JArray h \<Rightarrow> h | _ \<Rightarrow> [])"

definition entries_readable :: "jsstring \<Rightarrow> jsval list \<Rightarrow> bool" where
  "entries_readable sid h =
     list_all (\<lambda>e. \<not> nullish e) (takeWhile (\<lambda>e. field e (lit ''id'') \<noteq> JString sid) h)"

definition write_succeeds :: "Browser \<Rightarrow> InterviewSession \<Rightarrow> bool" where
  "write_succeeds env session \<longleftrightarrow>
     window_defined env
     \<and> isArray (getSessionHistory env)
     \<and> entries_readable (id_session session) (history_list env)
     \<and> createdAt session \<noteq> Invalid_Date
     \<and> completedAt session \<noteq> Some Invalid_Date
     \<and> \<not> quota_exceeded env SESSION_HISTORY
           (json_text (JArray (upsert (id_session session) (history_record session)
                                 (history_list env))))"

section \<open>Invariants and sample data\<close>

text \<open>The invariants of the data model.\<close>

definition cursor_in_range :: "InterviewSession \<Rightarrow> bool" where
  "cursor_in_range s \<longleftrightarrow>
     number_ge (currentQuestionIndex s) (num 0)
     \<and> number_less (currentQuestionIndex s) (num (int (length (questions s))))"


definition answer_keys_valid :: "InterviewSession \<Rightarrow> bool" where
  "answer_keys_valid s \<longleftrightarrow> set (Map_keys (answers s)) \<subseteq> question_ids s"

definition feedback_keys_valid :: "InterviewSession \<Rightarrow> bool" where
  "feedback_keys_valid s \<longleftrightarrow> set (Map_keys (feedback s)) \<subseteq> question_ids s"

definition Date_le :: "Date \<Rightarrow> Date \<Rightarrow> bool" where
  "Date_le a b = (case (a, b) of (Date_ms x, Date_ms y) \<Rightarrow> x \<le> y | _ \<Rightarrow> False)"

definition completion_consistent :: "InterviewSession \<Rightarrow> bool" where
  "completion_consistent s \<longleftrightarrow>
     (case completedAt s of
        None \<Rightarrow> \<not> isComplete s
      | Some c \<Rightarrow> isComplete s \<and> Date_le (createdAt s) c)"

text \<open>The sample data of the unit tests (tests/unit/lib/session-manager.test.ts).\<close>

definition mockParsedJD :: ParsedJobDescription where
  "mockParsedJD =
     \<lparr> roleType = software,
       skills = [lit ''JavaScript'', lit ''React'', lit ''Node.js''],
       experienceLevel = mid,
       technologies = [lit ''TypeScript'', lit ''Next.js''],
       responsibilities = [lit ''Build web applications'', lit ''Write tests''],
       rawDescription =
         lit ''A software engineer position requiring JavaScript and React experience.'' \<rparr>"

definition mockQuestions :: "InterviewQuestion list" where
  "mockQuestions =
     [ \<lparr> id_question = lit ''550e8400-e29b-41d4-a716-446655440001'',
         type_question = technical,
         question = lit ''Explain closures in JavaScript'',
         difficulty = mid,
         relatedSkills = [lit ''JavaScript''] \<rparr>,
       \<lparr> id_question = lit ''550e8400-e29b-41d4-a716-446655440002'',
         type_question = behavioral,
         question = lit ''Describe a challenging project'',
         difficulty = mid,
         relatedSkills = [lit ''React''] \<rparr>,
       \<lparr> id_question = lit ''550e8400-e29b-41d4-a716-446655440003'',
         type_question = system_design,
         question = lit ''Design a URL shortener'',
         difficulty = mid,
         relatedSkills = [lit ''Node.js''] \<rparr> ]"

definition mockSession :: InterviewSession where
  "mockSession =
     createSession (lit ''550e8400-e29b-41d4-a716-446655440000'') 1768467600000
       mockParsedJD mockQuestions"

definition mockFeedback :: "jsstring \<Rightarrow> AnswerFeedback" where
  "mockFeedback qid =
     \<lparr> questionId = qid,
       score = num 8,
       strengths = [lit ''Good explanation'', lit ''Clear examples''],
       improvements = [lit ''Could add more detail'', lit ''Mention use cases''],
       timestamp = Date_ms 1768471200000 \<rparr>"

text \<open>Five questions, as the schema asks of a session, and a session created from them.\<close>

definition mockQuestions5 :: "InterviewQuestion list" where
  "mockQuestions5 =
     mockQuestions @
     [ \<lparr> id_question = lit ''550e8400-e29b-41d4-a716-446655440004'',
         type_question = technical,
         question = lit ''Explain the event loop'',
         difficulty = mid,
         relatedSkills = [lit ''Node.js''] \<rparr>,
       \<lparr> id_question = lit ''550e8400-e29b-41d4-a716-446655440005'',
         type_question = behavioral,
         question = lit ''Describe a disagreement'',
         difficulty = mid,
         relatedSkills = [] \<rparr> ]"

definition mockSession5 :: InterviewSession where
  "mockSession5 =
     createSession (lit ''550e8400-e29b-41d4-a716-446655440000'') 1768467600000
       mockParsedJD mockQuestions5"

text \<open>The session of the codec's unit tests (tests/unit/lib/storage.test.ts).\<close>

definition storageMockSession :: InterviewSession where
  "storageMockSession =
     \<lparr> id_session = lit ''550e8400-e29b-41d4-a716-446655440000'',
       parsedJD =
         \<lparr> roleType = software,
           skills = [lit ''JavaScript'', lit ''React''],
           experienceLevel = mid,
           technologies = [lit ''TypeScript'', lit ''Next.js''],
           responsibilities = [lit ''Build web apps''],
           rawDescription = lit ''A software engineer position requiring JavaScript experience.'' \<rparr>,
       questions =
         [ \<lparr> id_question = lit ''550e8400-e29b-41d4-a716-446655440001'',
             type_question = technical,
             question = lit ''Explain closures'',
             difficulty = mid,
             relatedSkills = [lit ''JavaScript''] \<rparr>,
           \<lparr> id_question = lit ''550e8400-e29b-41d4-a716-446655440002'',
             type_question = behavioral,
             question = lit ''Describe a project'',
             difficulty = mid,
             relatedSkills = [lit ''React''] \<rparr> ],
       answers =
         [(lit ''550e8400-e29b-41d4-a716-446655440001'', lit ''Closures are functions...''),
          (lit ''550e8400-e29b-41d4-a716-446655440002'', lit ''I worked on a project...'')],
       feedback =
         [(lit ''550e8400-e29b-41d4-a716-446655440001'',
           \<lparr> questionId = lit ''550e8400-e29b-41d4-a716-446655440001'',
             score = num 8,
             strengths = [lit ''Good explanation'', lit ''Clear examples''],
             improvements = [lit ''Add more detail'', lit ''Mention use cases''],
             timestamp = Date_ms 1768471200000 \<rparr>)],
       sessionFeedback =
         Some \<lparr> overallScore = Finite (Decimal 75 (- 1)),
                performanceSummary =
                  \<lparr> behavioral_score = num 8, technical_score = num 7,
                    systemDesign_score = Finite (Decimal 75 (- 1)) \<rparr>,
                strongestAreas = [lit ''Communication''],
                improvementAreas = [lit ''System design''],
                recommendations = [lit ''Practice more''] \<rparr>,
       currentQuestionIndex = num 1,
       isComplete = False,
       createdAt = Date_ms 1768467600000,
       completedAt = None \<rparr>"

text \<open>
  A browser with nothing stored, whose storage accepts every write, and one whose storage
  is full: it refuses every write.
\<close>

definition fullBrowser :: Browser where
  "fullBrowser =
     \<lparr> window_defined = True, localStorage = (\<lambda>key. None),
       quota_exceeded = (\<lambda>key text. True) \<rparr>"

definition emptyBrowser :: Browser where
  "emptyBrowser =
     \<lparr> window_defined = True, localStorage = (\<lambda>key. None),
       quota_exceeded = (\<lambda>key text. False) \<rparr>"

text \<open>
  A wire text that is well-formed and complete, with a cursor beyond its (empty) question
  sequence and with answer and feedback keys that no question carries; the data it parses
  to, what \<open>deserializeSession\<close> returns for it, and that read at the declared types.
\<close>

definition unvalidated_text :: jsstring where
  "unvalidated_text = lit ''{\"id\":\"x\",\"parsedJD\":{\"roleType\":\"devops\",\"skills\":[],\"experienceLevel\":\"mid\",\"technologies\":[],\"responsibilities\":[],\"rawDescription\":\"\"},\"questions\":[],\"answers\":[[\"z\",\"a\"]],\"feedback\":[[\"y\",{\"questionId\":\"y\",\"score\":8,\"strengths\":[],\"improvements\":[],\"timestamp\":\"2026-01-15T10:00:00.000Z\"}]],\"sessionFeedback\":null,\"currentQuestionIndex\":5,\"createdAt\":\"2026-01-15T09:00:00.000Z\"}''"

definition unvalidated_data :: jsval where
  "unvalidated_data =
     JObject
       [(lit ''id'', JString (lit ''x'')),
        (lit ''parsedJD'',
           JObject [(lit ''roleType'', JString (lit ''devops'')), (lit ''skills'', JArray []),
                    (lit ''experienceLevel'', JString (lit ''mid'')),
                    (lit ''technologies'', JArray []), (lit ''responsibilities'', JArray []),
                    (lit ''rawDescription'', JString [])]),
        (lit ''questions'', JArray []),
        (lit ''answers'', JArray [JArray [JString (lit ''z''), JString (lit ''a'')]]),
        (lit ''feedback'',
           JArray [JArray [JString (lit ''y''),
                           JObject [(lit ''questionId'', JString (lit ''y'')),
                                    (lit ''score'', JNumber (Decimal 8 0)),
                                    (lit ''strengths'', JArray []),
                                    (lit ''improvements'', JArray []),
                                    (lit ''timestamp'', JString (lit ''2026-01-15T10:00:00.000Z''))]]]),
        (lit ''sessionFeedback'', JNull),
        (lit ''currentQuestionIndex'', JNumber (Decimal 5 0)),
        (lit ''createdAt'', JString (lit ''2026-01-15T09:00:00.000Z''))]"

definition unvalidated_session :: InterviewSession where
  "unvalidated_session =
     \<lparr> id_session = lit ''x'',
       parsedJD = \<lparr> roleType = devops, skills = [], experienceLevel = mid, technologies = [],
                    responsibilities = [], rawDescription = [] \<rparr>,
       questions = [],
       answers = [(lit ''z'', lit ''a'')],
       feedback = [(lit ''y'', \<lparr> questionId = lit ''y'', score = num 8, strengths = [],
                                improvements = [], timestamp = Date_ms 1768471200000 \<rparr>)],
       sessionFeedback = None,
       currentQuestionIndex = num 5,
       isComplete = False,
       createdAt = Date_ms 1768467600000,
       completedAt = None \<rparr>"

definition unvalidated_parsed :: ParsedSession where
  "unvalidated_parsed =
     \<lparr> p_id = JString (lit ''x''),
       p_parsedJD =
          JObject [(lit ''roleType'', JString (lit ''devops'')), (lit ''skills'', JArray []),
                   (lit ''experienceLevel'', JString (lit ''mid'')),
                   (lit ''technologies'', JArray []), (lit ''responsibilities'', JArray []),
                   (lit ''rawDescription'', JString [])],
       p_questions = [],
       p_answers = [(JString (lit ''z''), JString (lit ''a''))],
       p_feedback =
          [(JString (lit ''y''),
            \<lparr> p_questionId = JString (lit ''y''), p_score = JNumber (Decimal 8 0),
              p_strengths = JArray [], p_improvements = JArray [],
              p_timestamp = Date_ms 1768471200000 \<rparr>)],
       p_sessionFeedback = JNull,
       p_currentQuestionIndex = JNumber (Decimal 5 0),
       p_isComplete = JBool False,
       p_createdAt = Date_ms 1768467600000,
       p_completedAt = None \<rparr>"

text \<open>
  What a run keeps true of completion, for a session created at the clock value \<open>t0\<close>.
\<close>

definition completion_inv :: "int \<Rightarrow> InterviewSession \<Rightarrow> bool" where
  "completion_inv t0 s \<longleftrightarrow>
     createdAt s = Date_ms t0
     \<and> (case completedAt s of None \<Rightarrow> \<not> isComplete s
         | Some c \<Rightarrow> isComplete s \<and> (\<exists>tc. c = Date_ms tc \<and> t0 \<le> tc))"

section \<open>Facts about strings\<close>

lemma lit_eq_iff [simp]: "lit a = lit b \<longleftrightarrow> a = b"
  by (simp add: lit_def inj_map_eq_map [OF inj_of_char])

lemma lit_Nil_iff [simp]: "lit s = [] \<longleftrightarrow> s = []" "[] = lit s \<longleftrightarrow> s = []"
  by (auto simp: lit_def)

lemma sublist_lit_append: "sublist x (a @ x)" "sublist x (a @ x @ b)"
  using sublist_appendI [of x a "[]"] sublist_appendI [of x a b] by simp_all

section \<open>Numbers are read back\<close>

lemma is_digit_digits_of_nat: "list_all is_digit (digits_of_nat n)"
proof (induction n rule: digits_of_nat.induct)
  case (1 n)
  show ?case
  proof (cases "n < 10")
    case True
    then show ?thesis by (simp add: digits_of_nat.simps [of n] is_digit_def)
  next
    case False
    with 1 show ?thesis
      by (simp add: digits_of_nat.simps [of n] is_digit_def) 
  qed
qed

lemma digits_of_nat_not_Nil [simp]: "digits_of_nat n \<noteq> []"
  by (subst digits_of_nat.simps) simp

lemma nat_of_digits_append:
  "nat_of_digits (a @ b) = nat_of_digits a * 10 ^ length b + nat_of_digits b"
proof (induction b rule: rev_induct)
  case Nil
  then show ?case by (simp add: nat_of_digits_def)
next
  case (snoc x xs)
  have "nat_of_digits ((a @ xs) @ [x]) = 10 * nat_of_digits (a @ xs) + (x - 48)"
    by (simp add: nat_of_digits_def)
  moreover have "nat_of_digits (xs @ [x]) = 10 * nat_of_digits xs + (x - 48)"
    by (simp add: nat_of_digits_def)
  ultimately show ?case using snoc by (simp add: algebra_simps)
qed

lemma nat_of_digits_single [simp]: "nat_of_digits [c] = c - 48"
  by (simp add: nat_of_digits_def)

lemma nat_of_digits_Nil [simp]: "nat_of_digits [] = 0"
  by (simp add: nat_of_digits_def)

lemma nat_of_digits_digits_of_nat [simp]: "nat_of_digits (digits_of_nat n) = n"
proof (induction n rule: digits_of_nat.induct)
  case (1 n)
  show ?case
  proof (cases "n < 10")
    case True
    then show ?thesis by (simp add: digits_of_nat.simps [of n])
  next
    case False
    with 1 show ?thesis
      by (simp add: digits_of_nat.simps [of n] nat_of_digits_append)
  qed
qed

lemma hd_digits_of_nat: "0 < n \<Longrightarrow> hd (digits_of_nat n) \<noteq> 48"
proof (induction n rule: digits_of_nat.induct)
  case (1 n)
  show ?case
  proof (cases "n < 10")
    case True
    with 1(2) show ?thesis by (simp add: digits_of_nat.simps [of n])
  next
    case False
    then have "0 < n div 10" by simp
    with 1(1) False have "hd (digits_of_nat (n div 10)) \<noteq> 48" by simp
    with False show ?thesis
      by (simp add: digits_of_nat.simps [of n])
  qed
qed

lemma nat_of_digits_Cons:
  "nat_of_digits (c # cs) = (c - 48) * 10 ^ length cs + nat_of_digits cs"
  using nat_of_digits_append [of "[c]" cs] by simp

lemma nat_of_digits_replicate_zero [simp]: "nat_of_digits (replicate k 48) = 0"
  by (induction k) (simp_all add: nat_of_digits_Cons)

lemma is_digit_replicate_zero [simp]: "list_all is_digit (replicate k 48)"
  by (simp add: list_all_iff is_digit_def)

lemma takeWhile_digits:
  "list_all is_digit ds \<Longrightarrow> (case rest of [] \<Rightarrow> True | c # r \<Rightarrow> \<not> is_digit c) \<Longrightarrow>
     takeWhile is_digit (ds @ rest) = ds \<and> dropWhile is_digit (ds @ rest) = rest"
  by (induction ds) (auto split: list.splits)

lemma number_follow_Cons [simp]:
  "number_follow (c # r) \<longleftrightarrow> \<not> is_digit c \<and> c \<noteq> 46 \<and> c \<noteq> 101 \<and> c \<noteq> 69"
  by (simp add: number_follow_def)

lemma takeWhile_digits_follow:
  assumes "list_all is_digit ds"
    and "rest = [] \<or> \<not> is_digit (hd rest)"
  shows "takeWhile is_digit (ds @ rest) = ds" "dropWhile is_digit (ds @ rest) = rest"
  using takeWhile_digits [OF assms(1), of rest] assms(2)
  by (cases rest; simp)+

lemma lex_int_digits:
  assumes "list_all is_digit ip" "ip \<noteq> []" "hd ip = 48 \<longrightarrow> ip = [48]"
    and "tail = [] \<or> \<not> is_digit (hd tail)"
  shows "lex_int (ip @ tail) = Some (ip, tail)"
proof -
  obtain c r where ipc: "ip = c # r" using assms(2) by (cases ip) auto
  show ?thesis
  proof (cases "c = 48")
    case True
    with assms(3) ipc show ?thesis by (simp add: lex_int_def)
  next
    case False
    from assms(1) ipc have "is_digit c" by simp
    with False takeWhile_digits_follow [OF assms(1) assms(4)] ipc show ?thesis
      by (simp add: lex_int_def)
  qed
qed

lemma lex_frac_none:
  "tail = [] \<or> hd tail \<noteq> 46 \<Longrightarrow> lex_frac tail = Some ([], tail)"
  by (cases tail) (auto simp: lex_frac_def)

lemma lex_frac_digits:
  assumes "list_all is_digit fp" "fp \<noteq> []" "tail = [] \<or> \<not> is_digit (hd tail)"
  shows "lex_frac (46 # fp @ tail) = Some (fp, tail)"
  using takeWhile_digits_follow [OF assms(1) assms(3)] assms(2)
  by (simp add: lex_frac_def)

lemma lex_exp_none:
  "tail = [] \<or> (hd tail \<noteq> 101 \<and> hd tail \<noteq> 69) \<Longrightarrow> lex_exp tail = Some (0, tail)"
  by (cases tail) (auto simp: lex_exp_def)

lemma lex_exp_digits:
  assumes "list_all is_digit xs" "xs \<noteq> []" "tail = [] \<or> \<not> is_digit (hd tail)"
  shows "lex_exp (101 # (if en then 45 else 43) # xs @ tail)
           = Some ((if en then - 1 else 1) * int (nat_of_digits xs), tail)"
  using takeWhile_digits_follow [OF assms(1) assms(3)] assms(2)
  by (simp add: lex_exp_def)

lemma number_follow_cases:
  assumes "number_follow rest"
  shows "rest = [] \<or> \<not> is_digit (hd rest)" "rest = [] \<or> hd rest \<noteq> 46"
    "rest = [] \<or> (hd rest \<noteq> 101 \<and> hd rest \<noteq> 69)"
  using assms by (cases rest; simp)+

lemma lex_sign_digit: "is_digit c \<Longrightarrow> lex_sign (c # r) = (False, c # r)"
  by (auto simp: lex_sign_def is_digit_def)

lemma lex_sign_minus: "lex_sign (45 # r) = (True, r)"
  by (simp add: lex_sign_def)

lemma parse_number_stages:
  "lex_sign cs = (neg, cs1) \<Longrightarrow> lex_int cs1 = Some (ip, cs2) \<Longrightarrow>
   lex_frac cs2 = Some (fp, cs3) \<Longrightarrow> lex_exp cs3 = Some (ex, cs4) \<Longrightarrow>
   parse_number cs
     = Some (normalize (if neg then - int (nat_of_digits (ip @ fp))
                        else int (nat_of_digits (ip @ fp))) (ex - int (length fp)), cs4)"
  by (simp add: parse_number_def)

lemma lex_sign_form:
  "ip \<noteq> [] \<Longrightarrow> list_all is_digit ip \<Longrightarrow>
     lex_sign ((if neg then [45] else []) @ ip @ tail) = (neg, ip @ tail)"
  by (cases ip) (auto simp: lex_sign_def is_digit_def)

text \<open>The shapes of a printed number.\<close>

lemma parse_number_integer:
  assumes "list_all is_digit ip" "ip \<noteq> []" "hd ip = 48 \<longrightarrow> ip = [48]" "number_follow rest"
  shows "parse_number ((if neg then [45] else []) @ ip @ rest)
           = Some (normalize (if neg then - int (nat_of_digits ip) else int (nat_of_digits ip)) 0, rest)"
proof -
  note nf = number_follow_cases [OF assms(4)]
  have "parse_number ((if neg then [45] else []) @ ip @ rest)
     = Some (normalize (if neg then - int (nat_of_digits (ip @ []))
                        else int (nat_of_digits (ip @ []))) (0 - int (length ([]::jsstring))), rest)"
    by (rule parse_number_stages [OF lex_sign_form [OF assms(2,1)]
          lex_int_digits [OF assms(1,2,3) nf(1)] lex_frac_none [OF nf(2)] lex_exp_none [OF nf(3)]])
  then show ?thesis by simp
qed

lemma parse_number_fraction:
  assumes "list_all is_digit ip" "ip \<noteq> []" "hd ip = 48 \<longrightarrow> ip = [48]"
    and "list_all is_digit fp" "fp \<noteq> []" "number_follow rest"
  shows "parse_number ((if neg then [45] else []) @ ip @ 46 # fp @ rest)
           = Some (normalize (if neg then - int (nat_of_digits (ip @ fp))
                              else int (nat_of_digits (ip @ fp))) (- int (length fp)), rest)"
proof -
  note nf = number_follow_cases [OF assms(6)]
  have t: "46 # fp @ rest = [] \<or> \<not> is_digit (hd (46 # fp @ rest))"
    by (simp add: is_digit_def)
  have "parse_number ((if neg then [45] else []) @ ip @ 46 # fp @ rest)
     = Some (normalize (if neg then - int (nat_of_digits (ip @ fp))
                        else int (nat_of_digits (ip @ fp))) (0 - int (length fp)), rest)"
    by (rule parse_number_stages [OF lex_sign_form [OF assms(2,1)]
          lex_int_digits [OF assms(1,2,3) t] lex_frac_digits [OF assms(4,5) nf(1)]
          lex_exp_none [OF nf(3)]])
  then show ?thesis by simp
qed

lemma parse_number_exponent:
  assumes "is_digit c" "c \<noteq> 48" "list_all is_digit fp"
    and "list_all is_digit xs" "xs \<noteq> []" "number_follow rest"
  shows "parse_number ((if neg then [45] else []) @ [c] @ (if fp = [] then [] else 46 # fp)
                       @ 101 # (if en then 45 else 43) # xs @ rest)
           = Some (normalize (if neg then - int (nat_of_digits (c # fp))
                              else int (nat_of_digits (c # fp)))
                     ((if en then - 1 else 1) * int (nat_of_digits xs) - int (length fp)), rest)"
proof -
  define ex where "ex = 101 # (if en then 45 else 43) # xs @ rest"
  define fr where "fr = (if fp = [] then [] else 46 # fp)"
  have nd: "rest = [] \<or> \<not> is_digit (hd rest)"
    by (rule number_follow_cases(1) [OF assms(6)])
  have exnd: "ex = [] \<or> \<not> is_digit (hd ex)" "ex = [] \<or> hd ex \<noteq> 46"
    by (simp_all add: ex_def is_digit_def)
  have x: "lex_exp ex = Some ((if en then - 1 else 1) * int (nat_of_digits xs), rest)"
    unfolding ex_def by (rule lex_exp_digits [OF assms(4,5) nd])
  have c: "list_all is_digit [c]" "[c] \<noteq> []" "hd [c] = 48 \<longrightarrow> [c] = [48]"
    using assms(1,2) by simp_all
  have t: "fr @ ex = [] \<or> \<not> is_digit (hd (fr @ ex))"
    using exnd(1) by (auto simp: fr_def is_digit_def)
  have f: "lex_frac (fr @ ex) = Some (fp, ex)"
  proof (cases "fp = []")
    case True
    then show ?thesis using lex_frac_none [OF exnd(2)] by (simp add: fr_def)
  next
    case False
    then show ?thesis using lex_frac_digits [OF assms(3) False exnd(1)] by (simp add: fr_def)
  qed
  have "parse_number ((if neg then [45] else []) @ [c] @ fr @ ex)
     = Some (normalize (if neg then - int (nat_of_digits ([c] @ fp))
                        else int (nat_of_digits ([c] @ fp)))
               ((if en then - 1 else 1) * int (nat_of_digits xs) - int (length fp)), rest)"
    by (rule parse_number_stages [OF lex_sign_form [OF c(2,1)] lex_int_digits [OF c t] f x])
  then show ?thesis by (simp add: fr_def ex_def)
qed

lemma normalize_zero [simp]: "normalize 0 e = Decimal 0 0"
  by (simp add: normalize.simps)

lemma normalize_wf: "m \<noteq> 0 \<Longrightarrow> m mod 10 \<noteq> 0 \<Longrightarrow> normalize m e = Decimal m e"
  by (simp add: normalize.simps)

lemma normalize_shift: "m \<noteq> 0 \<Longrightarrow> normalize (m * 10 ^ j) e = normalize m (e + int j)"
proof (induction j arbitrary: e)
  case 0
  then show ?case by simp
next
  case (Suc j)
  have "normalize (m * 10 ^ Suc j) e = normalize (m * 10 ^ Suc j div 10) (e + 1)"
    using Suc.prems by (subst normalize.simps) simp
  also have "m * 10 ^ Suc j div 10 = m * 10 ^ j" by simp
  also have "normalize (m * 10 ^ j) (e + 1) = normalize m (e + 1 + int j)"
    by (rule Suc.IH [OF Suc.prems])
  finally show ?case by (simp add: add.commute add.left_commute)
qed

lemma wf_decimal_normalize: "wf_decimal (normalize m e)"
proof (induction m e rule: normalize.induct)
  case (1 m e)
  then show ?case
    by (subst normalize.simps) (auto simp: wf_decimal_def)
qed

lemma parse_number_toString:
  assumes wf: "wf_decimal d" and rest: "number_follow rest"
  shows "parse_number (Number_toString d @ rest) = Some (d, rest)"
proof -
  obtain m e where d: "d = Decimal m e" by (cases d)
  show ?thesis
  proof (cases "m = 0")
    case True
    with wf d have e: "e = 0" by (simp add: wf_decimal_def)
    have "parse_number ((if False then [45] else []) @ [48] @ rest)
         = Some (normalize (if False then - int (nat_of_digits [48]) else int (nat_of_digits [48])) 0, rest)"
      by (rule parse_number_integer) (simp_all add: is_digit_def rest)
    with True e d show ?thesis by (simp add: Number_toString_def)
  next
    case False
    with wf d have m10: "m mod 10 \<noteq> 0" by (simp add: wf_decimal_def)
    define s where "s = digits_of_nat (nat \<bar>m\<bar>)"
    define k where "k = int (length s)"
    define n where "n = k + e"
    define neg where "neg = (m < 0)"
    have sd: "list_all is_digit s" and sne: "s \<noteq> []"
      by (simp_all add: s_def is_digit_digits_of_nat)
    have sv: "nat_of_digits s = nat \<bar>m\<bar>" by (simp add: s_def)
    have hd0: "hd s \<noteq> 48" using False by (simp add: s_def hd_digits_of_nat)
    have kpos: "0 < k" using sne by (simp add: k_def)
    have sign: "(if neg then - int (nat \<bar>m\<bar>) else int (nat \<bar>m\<bar>)) = m"
      by (simp add: neg_def)
    have norm: "normalize m e = d" using False m10 d by (simp add: normalize_wf)
    have shape: "Number_toString d =
        (if neg then [45] else []) @
        (if k \<le> n \<and> n \<le> 21 then s @ replicate (nat (n - k)) 48
         else if 0 < n \<and> n \<le> 21 then take (nat n) s @ [46] @ drop (nat n) s
         else if - 6 < n \<and> n \<le> 0 then [48, 46] @ replicate (nat (- n)) 48 @ s
         else if k = 1
              then s @ [101] @ ((if n - 1 < 0 then 45 else 43) # digits_of_nat (nat \<bar>n - 1\<bar>))
              else [hd s] @ [46] @ tl s @ [101]
                   @ ((if n - 1 < 0 then 45 else 43) # digits_of_nat (nat \<bar>n - 1\<bar>)))"
      using False by (simp add: Number_toString_def d s_def k_def n_def neg_def Let_def)
    consider (A) "k \<le> n" "n \<le> 21"
      | (B) "\<not> (k \<le> n \<and> n \<le> 21)" "0 < n" "n \<le> 21"
      | (C) "\<not> (k \<le> n \<and> n \<le> 21)" "\<not> (0 < n \<and> n \<le> 21)" "- 6 < n" "n \<le> 0"
      | (D) "\<not> (k \<le> n \<and> n \<le> 21)" "\<not> (0 < n \<and> n \<le> 21)" "\<not> (- 6 < n \<and> n \<le> 0)"
      by blast
    then show ?thesis
    proof cases
      case A
      define ip where "ip = s @ replicate (nat (n - k)) 48"
      have ip: "list_all is_digit ip" "ip \<noteq> []" "hd ip = 48 \<longrightarrow> ip = [48]"
        using sd sne hd0 by (simp_all add: ip_def)
      have v: "nat_of_digits ip = nat \<bar>m\<bar> * 10 ^ nat (n - k)"
        by (simp add: ip_def nat_of_digits_append sv)
      have e0: "int (nat (n - k)) = e" using A by (simp add: n_def)
      have val: "(if neg then - int (nat_of_digits ip) else int (nat_of_digits ip))
           = m * 10 ^ nat (n - k)"
        using sign by (simp add: v neg_def)
      have "normalize (m * 10 ^ nat (n - k)) 0 = normalize m (0 + int (nat (n - k)))"
        by (rule normalize_shift [OF False])
      then have nz: "normalize (m * 10 ^ nat (n - k)) 0 = d"
        using e0 norm by simp
      have "parse_number ((if neg then [45] else []) @ ip @ rest)
           = Some (normalize (if neg then - int (nat_of_digits ip) else int (nat_of_digits ip)) 0, rest)"
        by (rule parse_number_integer [OF ip rest])
      then have "parse_number ((if neg then [45] else []) @ ip @ rest) = Some (d, rest)"
        by (simp only: val nz)
      moreover have "Number_toString d = (if neg then [45] else []) @ ip"
        using A by (simp add: shape ip_def)
      ultimately show ?thesis by simp
    next
      case B
      then have nk: "n < k" by auto
      define ip where "ip = take (nat n) s"
      define fp where "fp = drop (nat n) s"
      have ipne: "ip \<noteq> []" using B(2) sne by (simp add: ip_def)
      have hdip: "hd ip = hd s" using B(2) sne by (cases s) (auto simp: ip_def take_Cons')
      have ip: "list_all is_digit ip" "ip \<noteq> []" "hd ip = 48 \<longrightarrow> ip = [48]"
        using sd ipne hdip hd0 by (auto simp: ip_def list_all_iff dest: in_set_takeD)
      have fp: "list_all is_digit fp" "fp \<noteq> []"
        using sd nk B(2) by (auto simp: fp_def list_all_iff k_def dest: in_set_dropD)
      have v: "ip @ fp = s" by (simp add: ip_def fp_def)
      have l: "- int (length fp) = e" using B(2) nk by (simp add: fp_def n_def k_def)
      have val: "(if neg then - int (nat_of_digits (ip @ fp)) else int (nat_of_digits (ip @ fp))) = m"
        using sign by (simp only: v sv)
      have "parse_number ((if neg then [45] else []) @ ip @ 46 # fp @ rest)
           = Some (normalize (if neg then - int (nat_of_digits (ip @ fp))
                              else int (nat_of_digits (ip @ fp))) (- int (length fp)), rest)"
        by (rule parse_number_fraction [OF ip fp rest])
      then have "parse_number ((if neg then [45] else []) @ ip @ 46 # fp @ rest) = Some (d, rest)"
        by (simp only: val l norm)
      moreover have "Number_toString d = (if neg then [45] else []) @ ip @ 46 # fp"
        using B by (simp add: shape ip_def fp_def)
      ultimately show ?thesis by simp
    next
      case C
      define fp where "fp = replicate (nat (- n)) 48 @ s"
      have fp: "list_all is_digit fp" "fp \<noteq> []" using sd sne by (simp_all add: fp_def)
      have v: "nat_of_digits ([48] @ fp) = nat \<bar>m\<bar>"
        by (simp add: fp_def nat_of_digits_Cons nat_of_digits_append sv)
      have l: "- int (length fp) = e" using C by (simp add: fp_def n_def k_def)
      have val: "(if neg then - int (nat_of_digits ([48] @ fp)) else int (nat_of_digits ([48] @ fp))) = m"
        using sign by (simp only: v)
      have "parse_number ((if neg then [45] else []) @ [48] @ 46 # fp @ rest)
           = Some (normalize (if neg then - int (nat_of_digits ([48] @ fp))
                              else int (nat_of_digits ([48] @ fp))) (- int (length fp)), rest)"
        by (rule parse_number_fraction [OF _ _ _ fp rest]) (simp_all add: is_digit_def)
      then have "parse_number ((if neg then [45] else []) @ [48] @ 46 # fp @ rest) = Some (d, rest)"
        by (simp only: val l norm)
      moreover have "Number_toString d = (if neg then [45] else []) @ [48] @ 46 # fp"
        using C by (simp add: shape fp_def)
      ultimately show ?thesis by simp
    next
      case D
      define x where "x = n - 1"
      define xs where "xs = digits_of_nat (nat \<bar>x\<bar>)"
      define fp where "fp = tl s"
      have xs: "list_all is_digit xs" "xs \<noteq> []" by (simp_all add: xs_def is_digit_digits_of_nat)
      have c: "is_digit (hd s)" using sd sne by (cases s) auto
      have fp: "list_all is_digit fp" using sd sne by (cases s) (auto simp: fp_def)
      have s: "hd s # fp = s" using sne by (simp add: fp_def)
      have k1: "k = 1 \<longleftrightarrow> fp = []" using sne by (cases s) (auto simp: fp_def k_def)
      have l: "(if x < 0 then - 1 else 1) * int (nat_of_digits xs) - int (length fp) = e"
        using sne by (cases s) (auto simp: xs_def fp_def x_def n_def k_def)
      have val: "(if neg then - int (nat_of_digits (hd s # fp)) else int (nat_of_digits (hd s # fp))) = m"
        using sign by (simp only: s sv)
      have "parse_number ((if neg then [45] else []) @ [hd s] @ (if fp = [] then [] else 46 # fp)
                       @ 101 # (if x < 0 then 45 else 43) # xs @ rest)
           = Some (normalize (if neg then - int (nat_of_digits (hd s # fp))
                              else int (nat_of_digits (hd s # fp)))
                     ((if x < 0 then - 1 else 1) * int (nat_of_digits xs) - int (length fp)), rest)"
        by (rule parse_number_exponent [OF c hd0 fp xs rest])
      then have "parse_number ((if neg then [45] else []) @ [hd s] @ (if fp = [] then [] else 46 # fp)
                       @ 101 # (if x < 0 then 45 else 43) # xs @ rest) = Some (d, rest)"
        by (simp only: val l norm)
      moreover have "Number_toString d =
          (if neg then [45] else []) @ [hd s] @ (if fp = [] then [] else 46 # fp)
                       @ 101 # (if x < 0 then 45 else 43) # xs"
        using D k1 s by (cases "fp = []") (auto simp: shape x_def xs_def fp_def [symmetric])
      ultimately show ?thesis by simp
    qed
  qed
qed

section \<open>Strings are read back\<close>

lemma hex_value_hex_digit: "d < 16 \<Longrightarrow> hex_value (hex_digit d) = Some d"
  by (auto simp: hex_value_def hex_digit_def)

lemma hex4_value:
  assumes "c < 65536"
  shows "4096 * (c div 4096 mod 16) + 256 * (c div 256 mod 16) + 16 * (c div 16 mod 16) + c mod 16
       = (c::nat)"
proof -
  have a: "c div 4096 mod 16 = c div 4096" using assms by simp
  have b: "c div 256 = 16 * (c div 4096) + c div 256 mod 16"
    using div_mult2_eq [of c 256 16] by simp
  have d: "c div 16 = 16 * (c div 256) + c div 16 mod 16"
    using div_mult2_eq [of c 16 16] by simp
  have e: "c = 16 * (c div 16) + c mod 16" by simp
  show ?thesis using a b d e by linarith
qed

lemma parse_string_raw:
  "c \<noteq> 34 \<Longrightarrow> c \<noteq> 92 \<Longrightarrow> \<not> c < 32 \<Longrightarrow>
     parse_string acc (c # tail) = parse_string (acc @ [c]) tail"
  by (simp add: parse_string.simps)

lemma parse_string_end: "parse_string acc (34 # rest) = Some (acc, rest)"
  by (simp add: parse_string.simps)

lemma parse_string_unicode_escape:
  assumes "c < 65536"
  shows "parse_string acc (unicode_escape c @ tail) = parse_string (acc @ [c]) tail"
proof -
  have h: "hex_value (hex_digit (c div 4096 mod 16)) = Some (c div 4096 mod 16)"
    "hex_value (hex_digit (c div 256 mod 16)) = Some (c div 256 mod 16)"
    "hex_value (hex_digit (c div 16 mod 16)) = Some (c div 16 mod 16)"
    "hex_value (hex_digit (c mod 16)) = Some (c mod 16)"
    by (simp_all add: hex_value_hex_digit)
  show ?thesis
    by (simp add: unicode_escape_def parse_string.simps h hex4_value [OF assms])
qed

lemma parse_string_quote_unit:
  "parse_string acc (quote_unit c @ tail) = parse_string (acc @ [c]) tail"
proof -
  consider (table) "c = 8 \<or> c = 9 \<or> c = 10 \<or> c = 12 \<or> c = 13 \<or> c = 34 \<or> c = 92"
    | (uni) "\<not> (c = 8 \<or> c = 9 \<or> c = 10 \<or> c = 12 \<or> c = 13 \<or> c = 34 \<or> c = 92)"
        "c < 32 \<or> is_lead c \<or> is_trail c"
    | (raw) "\<not> (c = 8 \<or> c = 9 \<or> c = 10 \<or> c = 12 \<or> c = 13 \<or> c = 34 \<or> c = 92)"
        "\<not> (c < 32 \<or> is_lead c \<or> is_trail c)"
    by blast
  then show ?thesis
  proof cases
    case table
    then show ?thesis by (auto simp: quote_unit_def unescape_def parse_string.simps)
  next
    case uni
    then have "c < 65536" by (auto simp: is_lead_def is_trail_def)
    from parse_string_unicode_escape [OF this] uni show ?thesis
      by (simp add: quote_unit_def del: parse_string.simps)
  next
    case raw
    then show ?thesis by (simp add: quote_unit_def parse_string.simps)
  qed
qed

lemma parse_string_quote_units:
  "parse_string acc (quote_units s @ 34 # rest) = Some (acc @ s, rest)"
proof (induction s arbitrary: acc rule: quote_units.induct)
  case 1
  show ?case by (simp only: quote_units.simps append_Nil append_Nil2 parse_string_end)
next
  case (2 c)
  have "parse_string acc (quote_unit c @ 34 # rest) = parse_string (acc @ [c]) (34 # rest)"
    by (rule parse_string_quote_unit)
  then show ?case by (simp only: quote_units.simps parse_string_end)
next
  case (3 c d cs)
  show ?case
  proof (cases "is_lead c \<and> is_trail d")
    case True
    then have c: "c \<noteq> 34" "c \<noteq> 92" "\<not> c < 32" and d: "d \<noteq> 34" "d \<noteq> 92" "\<not> d < 32"
      by (auto simp: is_lead_def is_trail_def)
    have "parse_string acc (c # d # quote_units cs @ 34 # rest)
        = parse_string ((acc @ [c]) @ [d]) (quote_units cs @ 34 # rest)"
      by (simp only: parse_string_raw [OF c] parse_string_raw [OF d])
    also have "\<dots> = Some (((acc @ [c]) @ [d]) @ cs, rest)"
      by (rule 3(1) [OF True])
    finally show ?thesis using True by (simp del: parse_string.simps)
  next
    case False
    have "parse_string acc (quote_unit c @ quote_units (d # cs) @ 34 # rest)
        = parse_string (acc @ [c]) (quote_units (d # cs) @ 34 # rest)"
      by (rule parse_string_quote_unit)
    also have "\<dots> = Some ((acc @ [c]) @ d # cs, rest)"
      by (rule 3(2) [OF False])
    finally show ?thesis using False by (auto simp del: parse_string.simps)
  qed
qed

lemma parse_string_QuoteJSONString:
  "parse_string [] (tl (QuoteJSONString s) @ rest) = Some (s, rest)"
  using parse_string_quote_units [of "[]" s rest]
  by (simp add: QuoteJSONString_def del: parse_string.simps)

lemma QuoteJSONString_Cons: "QuoteJSONString s = 34 # tl (QuoteJSONString s)"
  by (simp add: QuoteJSONString_def)

section \<open>Values are read back\<close>

lemma value_follow_number: "value_follow rest \<Longrightarrow> number_follow rest"
  by (cases rest) (auto simp: value_follow_def number_follow_def is_digit_def is_ws_def)

lemma skip_ws_start: "value_start c \<Longrightarrow> skip_ws (c # r) = c # r"
  by (auto simp: value_start_def skip_ws_def is_ws_def is_digit_def)

lemma skip_ws_text:
  "t \<noteq> [] \<Longrightarrow> value_start (hd t) \<Longrightarrow> skip_ws (t @ r) = t @ r"
  by (cases t) (simp_all add: skip_ws_start)

lemma skip_ws_punct [simp]:
  "skip_ws (44 # r) = 44 # r" "skip_ws (93 # r) = 93 # r" "skip_ws (125 # r) = 125 # r"
  "skip_ws (58 # r) = 58 # r" "skip_ws (34 # r) = 34 # r"
  by (simp_all add: skip_ws_def is_ws_def)

lemma match_literal_append [simp]: "match_literal l (l @ r) = Some r"
  by (induction l) simp_all

lemma reads_back_null: "reads_back JNull"
proof -
  have "parse_value (lit ''null'' @ rest) = Some (JNull, rest)" for rest
    using match_literal_append [of "lit ''ull''" rest]
    by (simp add: parse_value.simps lit_def skip_ws_def is_ws_def)
  then show ?thesis by (simp add: reads_back_def json_text_def) (simp add: lit_def value_start_def)
qed

lemma reads_back_bool: "reads_back (JBool b)"
proof -
  have "parse_value (lit ''true'' @ rest) = Some (JBool True, rest)" for rest
    using match_literal_append [of "lit ''rue''" rest]
    by (simp add: parse_value.simps lit_def skip_ws_def is_ws_def)
  moreover have "parse_value (lit ''false'' @ rest) = Some (JBool False, rest)" for rest
    using match_literal_append [of "lit ''alse''" rest]
    by (simp add: parse_value.simps lit_def skip_ws_def is_ws_def)
  ultimately show ?thesis
    by (cases b) (simp_all add: reads_back_def json_text_def, simp_all add: lit_def value_start_def)
qed

lemma reads_back_string: "reads_back (JString s)"
proof -
  have "parse_value (QuoteJSONString s @ rest) = Some (JString s, rest)" for rest
  proof -
    have "parse_value (34 # tl (QuoteJSONString s) @ rest) = Some (JString s, rest)"
      by (simp add: parse_value.simps parse_string_QuoteJSONString)
    then show ?thesis using QuoteJSONString_Cons [of s] by (metis append_Cons)
  qed
  then show ?thesis
    by (simp add: reads_back_def json_text_def) (simp add: QuoteJSONString_def value_start_def)
qed

lemma Number_toString_start:
  "Number_toString d \<noteq> [] \<and> (hd (Number_toString d) = 45 \<or> is_digit (hd (Number_toString d)))"
proof -
  obtain m e where d: "d = Decimal m e" by (cases d)
  show ?thesis
  proof (cases "m = 0")
    case True
    then show ?thesis by (simp add: d Number_toString_def is_digit_def)
  next
    case False
    define s where "s = digits_of_nat (nat \<bar>m\<bar>)"
    have s: "s \<noteq> []" "is_digit (hd s)"
      using is_digit_digits_of_nat [of "nat \<bar>m\<bar>"] digits_of_nat_not_Nil [of "nat \<bar>m\<bar>"]
      by (cases "digits_of_nat (nat \<bar>m\<bar>)"; simp add: s_def)+
    have t: "0 < n \<Longrightarrow> take (nat n) s \<noteq> [] \<and> hd (take (nat n) s) = hd s" for n :: int
      using s(1) by (cases s) (auto simp: take_Cons')
    show ?thesis
      using False s t
      by (auto simp: d Number_toString_def Let_def s_def [symmetric] is_digit_def)
  qed
qed

lemma reads_back_number: "wf_decimal d \<Longrightarrow> reads_back (JNumber d)"
proof -
  assume wf: "wf_decimal d"
  obtain c r where cr: "Number_toString d = c # r" and c: "c = 45 \<or> is_digit c"
    using Number_toString_start [of d] by (cases "Number_toString d") auto
  have "parse_value (Number_toString d @ rest) = Some (JNumber d, rest)" if "value_follow rest" for rest
  proof -
    have sk: "skip_ws (c # r @ rest) = c # r @ rest"
      using c by (auto simp: skip_ws_def is_ws_def is_digit_def)
    have ne: "c \<noteq> 123" "c \<noteq> 91" "c \<noteq> 34" "c \<noteq> 116" "c \<noteq> 102" "c \<noteq> 110"
      using c by (auto simp: is_digit_def)
    have "parse_number (c # r @ rest) = Some (d, rest)"
      using parse_number_toString [OF wf value_follow_number [OF that]] by (simp add: cr)
    then show ?thesis
      using c ne by (simp add: cr parse_value.simps sk)
  qed
  then show ?thesis
    using c by (simp add: reads_back_def json_text_def) (auto simp: cr value_start_def)
qed

lemma reads_back_parse:
  "reads_back v \<Longrightarrow> value_follow rest \<Longrightarrow> parse_value (json_text v @ rest) = Some (v, rest)"
  by (simp add: reads_back_def)

lemma value_follow_punct [simp]:
  "value_follow (44 # r)" "value_follow (93 # r)" "value_follow (125 # r)" "value_follow []"
  by (simp_all add: value_follow_def)

lemma parse_elements_step:
  assumes "reads_back v" "d = 44 \<or> d = 93"
  shows "parse_elements acc (json_text v @ d # r)
     = (if d = 44 then parse_elements (acc @ [v]) r else Some (JArray (acc @ [v]), r))"
proof -
  have ne: "json_text v \<noteq> []" using assms(1) by (simp add: reads_back_def)
  define R where "R = d # r"
  have p: "parse_value (json_text v @ R) = Some (v, R)"
    unfolding R_def using assms(2) by (intro reads_back_parse [OF assms(1)]) auto
  have sk: "skip_ws R = R" using assms(2) by (auto simp: R_def)
  have l: "length R < length (json_text v @ R)" using ne by simp
  have "parse_elements acc (json_text v @ R)
     = (case skip_ws R of [] \<Rightarrow> None
        | d # r' \<Rightarrow> if d = 44 then parse_elements (acc @ [v]) r'
                    else if d = 93 then Some (JArray (acc @ [v]), r') else None)"
    by (subst parse_elements.simps) (simp only: p l option.case prod.case if_True)
  then show ?thesis using assms(2) by (auto simp: sk R_def)
qed

lemma parse_elements_join:
  assumes "\<forall>v \<in> set vs. reads_back v" "vs \<noteq> []"
  shows "parse_elements acc (join [44] (map json_text vs) @ 93 # rest) = Some (JArray (acc @ vs), rest)"
  using assms
proof (induction vs arbitrary: acc)
  case Nil
  then show ?case by simp
next
  case (Cons v vs)
  from Cons.prems have rb: "reads_back v" by simp
  show ?case
  proof (cases vs)
    case Nil
    then show ?thesis using parse_elements_step [OF rb, of 93 acc rest] by simp
  next
    case (Cons w ws)
    have ih: "parse_elements (acc @ [v]) (join [44] (map json_text vs) @ 93 # rest)
        = Some (JArray ((acc @ [v]) @ vs), rest)"
      using Cons.IH [of "acc @ [v]"] Cons.prems Cons by simp
    have "join [44] (map json_text (v # vs)) @ 93 # rest
        = json_text v @ 44 # (join [44] (map json_text vs) @ 93 # rest)"
      by (simp add: Cons)
    then show ?thesis
      using parse_elements_step [OF rb, of 44 acc "join [44] (map json_text vs) @ 93 # rest"] ih
      by simp
  qed
qed

lemma parse_members_step:
  assumes "reads_back v" "d = 44 \<or> d = 125"
  shows "parse_members acc (member_text (k, v) @ d # r)
     = (if d = 44 then parse_members (Map_set k v acc) r
        else Some (JObject (Map_set k v acc), r))"
proof -
  have ne: "json_text v \<noteq> []" using assms(1) by (simp add: reads_back_def)
  define R where "R = d # r"
  define Q where "Q = tl (QuoteJSONString k) @ 58 # json_text v @ R"
  have q: "member_text (k, v) @ R = 34 # Q"
    using QuoteJSONString_Cons [of k] by (simp add: member_text_def Q_def)
  have s: "parse_string [] Q = Some (k, 58 # json_text v @ R)"
    unfolding Q_def by (rule parse_string_QuoteJSONString)
  have p: "parse_value (json_text v @ R) = Some (v, R)"
    unfolding R_def using assms(2) by (intro reads_back_parse [OF assms(1)]) auto
  have sk: "skip_ws R = R" using assms(2) by (auto simp: R_def)
  have l1: "length (json_text v @ R) < length (34 # Q)" by (simp add: Q_def)
  have l2: "length R < length (json_text v @ R)" using ne by simp
  have "parse_members acc (34 # Q)
     = (case skip_ws R of [] \<Rightarrow> None
        | d # r4 \<Rightarrow> if d = 44 then parse_members (Map_set k v acc) r4
                    else if d = 125 then Some (JObject (Map_set k v acc), r4) else None)"
    by (subst parse_members.simps)
       (simp only: skip_ws_punct s p l1 l2 list.case option.case prod.case if_True simp_thms)
  then show ?thesis using assms(2) by (auto simp: sk q [unfolded R_def] R_def)
qed

lemma parse_members_join:
  assumes "\<forall>p \<in> set ps. reads_back (snd p)" "ps \<noteq> []"
  shows "parse_members acc (join [44] (map member_text ps) @ 125 # rest)
     = Some (JObject (foldl (\<lambda>m p. Map_set (fst p) (snd p) m) acc ps), rest)"
  using assms
proof (induction ps arbitrary: acc)
  case Nil
  then show ?case by simp
next
  case (Cons p ps)
  obtain k v where p: "p = (k, v)" by (cases p)
  from Cons.prems p have rb: "reads_back v" by simp
  show ?case
  proof (cases ps)
    case Nil
    then show ?thesis using parse_members_step [OF rb, of 125 acc k rest] by (simp add: p)
  next
    case (Cons q qs)
    have ih: "parse_members (Map_set k v acc) (join [44] (map member_text ps) @ 125 # rest)
        = Some (JObject (foldl (\<lambda>m p. Map_set (fst p) (snd p) m) (Map_set k v acc) ps), rest)"
      using Cons.IH [of "Map_set k v acc"] Cons.prems Cons by simp
    have "join [44] (map member_text (p # ps)) @ 125 # rest
        = member_text (k, v) @ 44 # (join [44] (map member_text ps) @ 125 # rest)"
      by (simp add: Cons p)
    then show ?thesis
      using parse_members_step [OF rb, of 44 acc k "join [44] (map member_text ps) @ 125 # rest"] ih
      by (simp add: p)
  qed
qed

lemma Map_set_append:
  "k \<notin> fst ` set m \<Longrightarrow> Map_set k v m = m @ [(k, v)]"
  by (induction m) auto

lemma foldl_Map_set_distinct:
  "distinct (map fst (acc @ ps)) \<Longrightarrow>
     foldl (\<lambda>m p. Map_set (fst p) (snd p) m) acc ps = acc @ ps"
proof (induction ps arbitrary: acc)
  case Nil
  then show ?case by simp
next
  case (Cons p ps)
  from Cons.prems have "fst p \<notin> fst ` set acc" by auto
  then have "Map_set (fst p) (snd p) acc = acc @ [p]" by (simp add: Map_set_append)
  moreover from Cons.prems have "distinct (map fst ((acc @ [p]) @ ps))" by simp
  ultimately show ?case using Cons.IH [of "acc @ [p]"] by simp
qed

lemma json_text_array: "json_text (JArray vs) = 91 # join [44] (map json_text vs) @ [93]"
proof -
  have "(\<lambda>v. case SerializeJSONProperty v of None \<Rightarrow> lit ''null'' | Some t \<Rightarrow> t) = json_text"
    by (simp add: fun_eq_iff json_text_def)
  then show ?thesis by (simp add: json_text_def)
qed

lemma json_text_object:
  assumes "\<forall>p \<in> set ps. SerializeJSONProperty (snd p) = Some (json_text (snd p))"
  shows "json_text (JObject ps) = 123 # join [44] (map member_text ps) @ [125]"
proof -
  have "concat (map (\<lambda>(k, v). case SerializeJSONProperty v of None \<Rightarrow> []
                        | Some t \<Rightarrow> [QuoteJSONString k @ [58] @ t]) ps) = map member_text ps"
    using assms by (induction ps) (auto simp: member_text_def)
  then show ?thesis by (simp add: json_text_def)
qed

lemma join_start:
  "xs \<noteq> [] \<Longrightarrow> hd xs \<noteq> [] \<Longrightarrow> join sep xs \<noteq> [] \<and> hd (join sep xs) = hd (hd xs)"
  by (cases xs; cases "tl xs") auto

lemma parse_value_array:
  "parse_value (91 # B)
     = (case skip_ws B of [] \<Rightarrow> None
        | d # r' \<Rightarrow> if d = 93 then Some (JArray [], r') else parse_elements [] B)"
  by (subst parse_value.simps) (simp add: skip_ws_def is_ws_def)

lemma parse_value_object:
  "parse_value (123 # B)
     = (case skip_ws B of [] \<Rightarrow> None
        | d # r' \<Rightarrow> if d = 125 then Some (JObject [], r') else parse_members [] B)"
  by (subst parse_value.simps) (simp add: skip_ws_def is_ws_def)

lemma reads_back_array:
  assumes "\<forall>v \<in> set vs. reads_back v"
  shows "reads_back (JArray vs)"
proof -
  have "parse_value (json_text (JArray vs) @ rest) = Some (JArray vs, rest)" for rest
  proof (cases vs)
    case Nil
    then show ?thesis
      by (simp add: json_text_array parse_value_array)
  next
    case (Cons v ws)
    define B where "B = join [44] (map json_text vs) @ 93 # rest"
    from assms Cons have "reads_back v" by simp
    then have v: "json_text v \<noteq> []" "value_start (hd (json_text v))"
      by (simp_all add: reads_back_def)
    with Cons have j: "join [44] (map json_text vs) \<noteq> []"
      "hd (join [44] (map json_text vs)) = hd (json_text v)"
      using join_start [where xs = "map json_text vs" and sep = "[44]"] by simp_all
    then obtain c r where cr: "B = c # r" and c: "value_start c"
      using v(2) by (cases "join [44] (map json_text vs)") (auto simp: B_def)
    have sk: "skip_ws B = B" using c by (simp add: cr skip_ws_start)
    have c93: "c \<noteq> 93" using c by (auto simp: value_start_def is_digit_def)
    have e: "parse_elements [] B = Some (JArray ([] @ vs), rest)"
      unfolding B_def using assms Cons by (intro parse_elements_join) auto
    have "parse_value (91 # B) = Some (JArray vs, rest)"
      using c93 e sk by (simp add: parse_value_array cr)
    then show ?thesis by (simp add: json_text_array B_def)
  qed
  moreover have "SerializeJSONProperty (JArray vs) = Some (json_text (JArray vs))"
    by (simp add: json_text_def)
  ultimately show ?thesis
    by (simp add: reads_back_def) (simp add: json_text_array value_start_def)
qed

lemma reads_back_object:
  assumes "\<forall>p \<in> set ps. reads_back (snd p)" "distinct (map fst ps)"
  shows "reads_back (JObject ps)"
proof -
  have ser: "\<forall>p \<in> set ps. SerializeJSONProperty (snd p) = Some (json_text (snd p))"
    using assms(1) by (simp add: reads_back_def)
  note jt = json_text_object [OF ser]
  have "parse_value (json_text (JObject ps) @ rest) = Some (JObject ps, rest)" for rest
  proof (cases ps)
    case Nil
    with jt show ?thesis
      by (simp add: parse_value_object)
  next
    case (Cons p qs)
    define B where "B = join [44] (map member_text ps) @ 125 # rest"
    have m: "member_text p \<noteq> []" "hd (member_text p) = 34"
      by (simp_all add: member_text_def QuoteJSONString_def)
    with Cons have j: "join [44] (map member_text ps) \<noteq> []"
      "hd (join [44] (map member_text ps)) = 34"
      using join_start [where xs = "map member_text ps" and sep = "[44]"] by simp_all
    then obtain r where cr: "B = 34 # r"
      by (cases "join [44] (map member_text ps)") (auto simp: B_def)
    have e: "parse_members [] B
        = Some (JObject (foldl (\<lambda>m p. Map_set (fst p) (snd p) m) [] ps), rest)"
      unfolding B_def using assms Cons by (intro parse_members_join) auto
    have f: "foldl (\<lambda>m p. Map_set (fst p) (snd p) m) [] ps = [] @ ps"
      by (rule foldl_Map_set_distinct) (simp add: assms(2))
    have "parse_value (123 # B) = Some (JObject ps, rest)"
      using e f by (simp add: parse_value_object cr)
    then show ?thesis by (simp add: jt B_def)
  qed
  moreover have "SerializeJSONProperty (JObject ps) = Some (json_text (JObject ps))"
    by (simp add: json_text_def)
  ultimately show ?thesis
    by (simp add: reads_back_def) (simp add: jt value_start_def)
qed

lemma wf_json_reads_back: "wf_json v \<Longrightarrow> reads_back v"
proof (induction v)
  case JUndefined
  then show ?case by simp
next
  case JNull
  show ?case by (rule reads_back_null)
next
  case (JBool b)
  show ?case by (rule reads_back_bool)
next
  case (JNumber d)
  then show ?case by (simp add: reads_back_number)
next
  case (JString s)
  show ?case by (rule reads_back_string)
next
  case (JArray vs)
  then show ?case by (intro reads_back_array) (auto simp: list_all_iff)
next
  case (JObject ps)
  have "\<forall>p \<in> set ps. reads_back (snd p)"
  proof
    fix p assume p: "p \<in> set ps"
    obtain k v where kv: "p = (k, v)" by (cases p)
    from JObject.prems p kv have "wf_json v" by (auto simp: list_all_iff)
    with JObject.IH [of p v] p kv show "reads_back (snd p)" by simp
  qed
  with JObject.prems show ?case by (intro reads_back_object) auto
qed

lemma JSON_parse_stringify:
  "wf_json v \<Longrightarrow> JSON_stringify v = Some (json_text v) \<and> JSON_parse (json_text v) = Inr v"
  using wf_json_reads_back [of v]
  by (auto simp: reads_back_def JSON_stringify_def JSON_parse_def parse_value.simps parse_elements.simps parse_members.simps
      parse_string.simps skip_ws_def
      dest: spec [of _ "[]"])

section \<open>Dates are read back\<close>

text \<open>
  The text that \<open>toISOString\<close> prints for a valid time value is read back by
  \<open>Date.parse\<close> as the same time value, over the whole range of time values.
\<close>

lemma div_bounds:
  fixes x c :: int
  assumes "0 < c"
  shows "c * (x div c) \<le> x" "x < c * (x div c) + c"
  using mult_div_mod_eq [of c x] pos_mod_bound [OF assms, of x] pos_mod_sign [OF assms, of x]
  by linarith+

lemma div4: "4 * ((x::int) div 4) \<le> x \<and> x < 4 * (x div 4) + 4"
  using div_bounds [of 4 x] by simp

lemma div100: "100 * ((x::int) div 100) \<le> x \<and> x < 100 * (x div 100) + 100"
  using div_bounds [of 100 x] by simp

lemma div400: "400 * ((x::int) div 400) \<le> x \<and> x < 400 * (x div 400) + 400"
  using div_bounds [of 400 x] by simp

lemma DayFromYear_lower:
  assumes "146097 * a \<le> 400 * d"
  shows "DayFromYear (1970 + a - 1) \<le> d"
proof -
  define q4 where "q4 = (1970 + a - 1 - 1969) div 4"
  define q100 where "q100 = (1970 + a - 1 - 1901) div 100"
  define q400 where "q400 = (1970 + a - 1 - 1601) div 400"
  have "400 * q4 \<le> 100 * a" using div4 [of "1970 + a - 1 - 1969"] by (simp add: q4_def)
  moreover have "4 * a < 400 * q100 + 128"
    using div100 [of "1970 + a - 1 - 1901"] by (simp add: q100_def)
  moreover have "400 * q400 \<le> a + 368"
    using div400 [of "1970 + a - 1 - 1601"] by (simp add: q400_def)
  ultimately have "365 * a - 365 + q4 - q100 + q400 \<le> d"
    using assms by linarith
  then show ?thesis by (simp add: DayFromYear_def q4_def q100_def q400_def)
qed

lemma DayFromYear_upper:
  assumes "400 * d < 146097 * a + 146097"
  shows "d < DayFromYear (1970 + a + 2)"
proof -
  define q4 where "q4 = (1970 + a + 2 - 1969) div 4"
  define q100 where "q100 = (1970 + a + 2 - 1901) div 100"
  define q400 where "q400 = (1970 + a + 2 - 1601) div 400"
  have "100 * a < 400 * q4 + 100" using div4 [of "1970 + a + 2 - 1969"] by (simp add: q4_def)
  moreover have "400 * q100 \<le> 4 * a + 284"
    using div100 [of "1970 + a + 2 - 1901"] by (simp add: q100_def)
  moreover have "a + 371 < 400 * q400 + 400"
    using div400 [of "1970 + a + 2 - 1601"] by (simp add: q400_def)
  ultimately have "d < 365 * a + 730 + q4 - q100 + q400"
    using assms by linarith
  then show ?thesis by (simp add: DayFromYear_def q4_def q100_def q400_def)
qed

lemma YearFromDay_bounds:
  "DayFromYear (YearFromDay d) \<le> d \<and> d < DayFromYear (YearFromDay d + 1)"
proof -
  define a where "a = (400 * d) div 146097"
  have a: "146097 * a \<le> 400 * d" "400 * d < 146097 * a + 146097"
    using div_bounds [of 146097 "400 * d"] by (simp_all add: a_def)
  have lo: "DayFromYear (1970 + a - 1) \<le> d" using a(1) by (rule DayFromYear_lower)
  have hi: "d < DayFromYear (1970 + a + 2)" using a(2) by (rule DayFromYear_upper)
  have e: "1970 + a + 1 + 1 = 1970 + a + 2" by simp
  show ?thesis
    using lo hi by (auto simp: YearFromDay_def Let_def a_def [symmetric] e)
qed

lemma div_succ:
  fixes x c :: int
  assumes "0 < c"
  shows "(x + 1) div c = x div c + (if (x + 1) mod c = 0 then 1 else 0)"
proof -
  define q where "q = x div c"
  define r where "r = x mod c"
  have x: "x = c * q + r" and r: "0 \<le> r" "r < c"
    using assms by (simp_all add: q_def r_def)
  show ?thesis
  proof (cases "r + 1 < c")
    case True
    have e: "x + 1 = c * q + (r + 1)" using x by simp
    have "(x + 1) div c = q" by (rule int_div_pos_eq [OF e]) (use r True in auto)
    moreover have "(x + 1) mod c = r + 1" by (rule int_mod_pos_eq [OF e]) (use r True in auto)
    ultimately show ?thesis using r by (simp add: q_def)
  next
    case False
    with r have rc: "r + 1 = c" by simp
    have e: "x + 1 = c * (q + 1) + 0" using x rc by (simp add: algebra_simps)
    have "(x + 1) div c = q + 1" by (rule int_div_pos_eq [OF e]) (use assms in auto)
    moreover have "(x + 1) mod c = 0" by (rule int_mod_pos_eq [OF e]) (use assms in auto)
    ultimately show ?thesis by (simp add: q_def)
  qed
qed

lemma mod4_shift: "((y::int) - 1968) mod 4 = y mod 4"
  using mod_diff_eq [of y 4 1968] by simp

lemma mod100_shift: "((y::int) - 1900) mod 100 = y mod 100"
  using mod_diff_eq [of y 100 1900] by simp

lemma mod400_shift: "((y::int) - 1600) mod 400 = y mod 400"
  using mod_diff_eq [of y 400 1600] by simp

lemma mod100_mod4: "(y::int) mod 100 = 0 \<Longrightarrow> y mod 4 = 0"
  using mod_mod_cancel [of 4 100 y] by simp

lemma mod400_mod100: "(y::int) mod 400 = 0 \<Longrightarrow> y mod 100 = 0"
  using mod_mod_cancel [of 100 400 y] by simp

lemma DaysInYear:
  "DayFromYear (y + 1) = DayFromYear y + (if InLeapYear y then 366 else 365)"
proof -
  have a: "(y + 1 - 1969) div 4 = (y - 1969) div 4 + (if y mod 4 = 0 then 1 else 0)"
    using div_succ [of 4 "y - 1969"] mod4_shift [of y] by (simp add: algebra_simps)
  have b: "(y + 1 - 1901) div 100 = (y - 1901) div 100 + (if y mod 100 = 0 then 1 else 0)"
    using div_succ [of 100 "y - 1901"] mod100_shift [of y] by (simp add: algebra_simps)
  have c: "(y + 1 - 1601) div 400 = (y - 1601) div 400 + (if y mod 400 = 0 then 1 else 0)"
    using div_succ [of 400 "y - 1601"] mod400_shift [of y] by (simp add: algebra_simps)
  have e: "DayFromYear (y + 1) = DayFromYear y + 365 + (if y mod 4 = 0 then 1 else 0)
     - (if y mod 100 = 0 then 1 else 0) + (if y mod 400 = 0 then 1 else 0)"
    unfolding DayFromYear_def a b c by (simp only: algebra_simps)
  show ?thesis
    unfolding e InLeapYear_def
    using mod100_mod4 [of y] mod400_mod100 [of y]
    by (cases "y mod 4 = 0"; cases "y mod 100 = 0"; cases "y mod 400 = 0") simp_all
qed

lemma month_start_leap:
  "month_start True 0 = 0" "month_start True 1 = 31" "month_start True 2 = 60"
  "month_start True 3 = 91" "month_start True 4 = 121" "month_start True 5 = 152"
  "month_start True 6 = 182" "month_start True 7 = 213" "month_start True 8 = 244"
  "month_start True 9 = 274" "month_start True 10 = 305" "month_start True 11 = 335"
  "month_start True 12 = 366"
  by (simp_all add: month_start_def)

lemma month_start_common:
  "month_start False 0 = 0" "month_start False 1 = 31" "month_start False 2 = 59"
  "month_start False 3 = 90" "month_start False 4 = 120" "month_start False 5 = 151"
  "month_start False 6 = 181" "month_start False 7 = 212" "month_start False 8 = 243"
  "month_start False 9 = 273" "month_start False 10 = 304" "month_start False 11 = 334"
  "month_start False 12 = 365"
  by (simp_all add: month_start_def)

lemma MonthFromDay_leap:
  assumes "0 \<le> dy" "dy < 366"
  shows "0 \<le> MonthFromDay True dy \<and> MonthFromDay True dy \<le> 11
    \<and> month_start True (MonthFromDay True dy) \<le> dy
    \<and> dy < month_start True (MonthFromDay True dy + 1)"
  using assms by (simp add: MonthFromDay_def month_start_leap)

lemma MonthFromDay_common:
  assumes "0 \<le> dy" "dy < 365"
  shows "0 \<le> MonthFromDay False dy \<and> MonthFromDay False dy \<le> 11
    \<and> month_start False (MonthFromDay False dy) \<le> dy
    \<and> dy < month_start False (MonthFromDay False dy + 1)"
  using assms by (simp add: MonthFromDay_def month_start_common)

lemma MonthFromDay_bounds:
  assumes "0 \<le> dy" "dy < (if leap then 366 else 365)"
  shows "0 \<le> MonthFromDay leap dy \<and> MonthFromDay leap dy \<le> 11
    \<and> month_start leap (MonthFromDay leap dy) \<le> dy
    \<and> dy < month_start leap (MonthFromDay leap dy + 1)"
  using assms MonthFromDay_leap [of dy] MonthFromDay_common [of dy] by (cases leap) simp_all

lemma month_length:
  assumes "0 \<le> m" "m \<le> 11"
  shows "month_start leap (m + 1) - month_start leap m \<le> 31"
proof -
  from assms have "m = 0 \<or> m = 1 \<or> m = 2 \<or> m = 3 \<or> m = 4 \<or> m = 5 \<or> m = 6 \<or> m = 7
     \<or> m = 8 \<or> m = 9 \<or> m = 10 \<or> m = 11" by presburger
  then show ?thesis
    by (cases leap) (auto simp: month_start_leap month_start_common)
qed

lemma length_pad_digits [simp]: "length (pad_digits n x) = n"
  by (induction n arbitrary: x) simp_all

lemma is_digit_pad_digits: "list_all is_digit (pad_digits n x)"
  by (induction n arbitrary: x) (simp_all add: is_digit_def)

lemma nat_of_digits_pad_digits: "nat_of_digits (pad_digits n x) = x mod 10 ^ n"
proof (induction n arbitrary: x)
  case 0
  show ?case by (simp add: nat_of_digits_def)
next
  case (Suc n)
  have "nat_of_digits (pad_digits (Suc n) x) = (x div 10 mod 10 ^ n) * 10 + x mod 10"
    using Suc [of "x div 10"] by (simp add: nat_of_digits_append nat_of_digits_def)
  also have "\<dots> = x mod 10 ^ Suc n"
    by (simp add: mod_mult2_eq)
  finally show ?case .
qed

lemma digits_field_pad_digits: "x < 10 ^ n \<Longrightarrow> digits_field (pad_digits n x) = Some x"
  by (simp add: digits_field_def is_digit_pad_digits nat_of_digits_pad_digits)

lemma hd_pad_digits: "0 < n \<Longrightarrow> is_digit (hd (pad_digits n x))"
  using is_digit_pad_digits [of n x] length_pad_digits [of n x]
  by (cases "pad_digits n x") auto

lemma time_of_day:
  fixes tod :: int
  shows "tod div 3600000 * 3600000 + tod div 60000 mod 60 * 60000
     + tod div 1000 mod 60 * 1000 + tod mod 1000 = tod"
proof -
  have a: "tod div 60000 = tod div 1000 div 60" by (simp add: div_mult2_eq)
  have b: "tod div 3600000 = tod div 1000 div 60 div 60" by (simp add: div_mult2_eq)
  define s where "s = tod div 1000"
  define m where "m = s div 60"
  have "tod = 1000 * s + tod mod 1000" by (simp add: s_def)
  moreover have "s = 60 * m + s mod 60" by (simp add: m_def)
  moreover have "m = 60 * (m div 60) + m mod 60" by simp
  ultimately show ?thesis
    unfolding a b s_def [symmetric] m_def [symmetric] by linarith
qed

lemma rest_shape:
  assumes "length A = 2" "length B = 2" "length C = 2" "length D = 2" "length E = 2"
    "length F = 3"
  defines "R \<equiv> [45] @ A @ [45] @ B @ [84] @ C @ [58] @ D @ [58] @ E @ [46] @ F @ [90::nat]"
  shows "length R = 20" "R ! 0 = 45" "R ! 3 = 45" "R ! 6 = 84" "R ! 9 = 58" "R ! 12 = 58"
    "R ! 15 = 46" "R ! 19 = 90"
    "take 2 (drop 1 R) = A" "take 2 (drop 4 R) = B" "take 2 (drop 7 R) = C"
    "take 2 (drop 10 R) = D" "take 2 (drop 13 R) = E" "take 3 (drop 16 R) = F"
proof -
  obtain a1 a2 where A: "A = [a1, a2]"
    using assms(1) by (auto simp: numeral_2_eq_2 length_Suc_conv)
  obtain b1 b2 where B: "B = [b1, b2]"
    using assms(2) by (auto simp: numeral_2_eq_2 length_Suc_conv)
  obtain c1 c2 where C: "C = [c1, c2]"
    using assms(3) by (auto simp: numeral_2_eq_2 length_Suc_conv)
  obtain d1 d2 where D: "D = [d1, d2]"
    using assms(4) by (auto simp: numeral_2_eq_2 length_Suc_conv)
  obtain e1 e2 where E: "E = [e1, e2]"
    using assms(5) by (auto simp: numeral_2_eq_2 length_Suc_conv)
  obtain f1 f2 f3 where F: "F = [f1, f2, f3]"
    using assms(6) by (auto simp: numeral_3_eq_3 length_Suc_conv)
  show "length R = 20" "R ! 0 = 45" "R ! 3 = 45" "R ! 6 = 84" "R ! 9 = 58" "R ! 12 = 58"
    "R ! 15 = 46" "R ! 19 = 90"
    "take 2 (drop 1 R) = A" "take 2 (drop 4 R) = B" "take 2 (drop 7 R) = C"
    "take 2 (drop 10 R) = D" "take 2 (drop 13 R) = E" "take 3 (drop 16 R) = F"
    by (simp_all add: R_def A B C D E F)
qed

lemma parse_iso_plain:
  assumes "length A = 2" "length B = 2" "length C = 2" "length D = 2" "length E = 2"
    "length F = 3" "length Y = 4" "is_digit (hd Y)"
    and "digits_field Y = Some yn" "digits_field A = Some mo" "digits_field B = Some date"
    "digits_field C = Some h" "digits_field D = Some mi" "digits_field E = Some sec"
    "digits_field F = Some ms"
  shows "parse_iso (Y @ [45] @ A @ [45] @ B @ [84] @ C @ [58] @ D @ [58] @ E @ [46] @ F @ [90])
    = iso_time False yn mo date h mi sec ms"
proof -
  define R where "R = [45] @ A @ [45] @ B @ [84] @ C @ [58] @ D @ [58] @ E @ [46] @ F @ [90::nat]"
  note sh0 = rest_shape [OF assms(1-6), folded R_def]
  note sh = sh0 sh0(9) [unfolded One_nat_def]
  obtain y1 Y' where Y: "Y = y1 # Y'" using assms(7) by (cases Y) auto
  have y1: "y1 \<noteq> 43" "y1 \<noteq> 45" using assms(8) by (auto simp: Y is_digit_def)
  have "parse_iso (Y @ R) = iso_time False yn mo date h mi sec ms"
    using y1 assms(7) by (simp add: parse_iso_def Y sh assms(9-15) [unfolded Y])
  then show ?thesis by (simp add: R_def)
qed

lemma parse_iso_signed:
  assumes "length A = 2" "length B = 2" "length C = 2" "length D = 2" "length E = 2"
    "length F = 3" "length Y = 6" "sg = 43 \<or> sg = 45"
    and "digits_field Y = Some yn" "digits_field A = Some mo" "digits_field B = Some date"
    "digits_field C = Some h" "digits_field D = Some mi" "digits_field E = Some sec"
    "digits_field F = Some ms"
  shows "parse_iso (sg # Y @ [45] @ A @ [45] @ B @ [84] @ C @ [58] @ D @ [58] @ E @ [46] @ F @ [90])
    = iso_time (sg = 45) yn mo date h mi sec ms"
proof -
  define R where "R = [45] @ A @ [45] @ B @ [84] @ C @ [58] @ D @ [58] @ E @ [46] @ F @ [90::nat]"
  note sh0 = rest_shape [OF assms(1-6), folded R_def]
  note sh = sh0 sh0(9) [unfolded One_nat_def]
  have "parse_iso (sg # Y @ R) = iso_time (sg = 45) yn mo date h mi sec ms"
    using assms(7,8) by (auto simp: parse_iso_def sh assms(9-15))
  then show ?thesis by (simp add: R_def)
qed

lemma YearFromDay_near:
  "1970 + (400 * d) div 146097 - 1 \<le> YearFromDay d
   \<and> YearFromDay d \<le> 1970 + (400 * d) div 146097 + 1"
  by (simp add: YearFromDay_def Let_def)

lemma YearFromDay_range:
  assumes "- 100000000 \<le> d" "d \<le> 100000000"
  shows "- 999999 \<le> YearFromDay d \<and> YearFromDay d \<le> 999999"
proof -
  define a where "a = (400 * d) div 146097"
  have "146097 * a \<le> 400 * d" "400 * d < 146097 * a + 146097"
    using div_bounds [of 146097 "400 * d"] by (simp_all add: a_def)
  with assms have "- 300000 \<le> a" "a \<le> 300000" by linarith+
  with YearFromDay_near [of d] show ?thesis by (simp add: a_def [symmetric])
qed

lemma day_range:
  fixes t :: int
  assumes "\<bar>t\<bar> \<le> 8640000000000000"
  shows "- 100000000 \<le> t div 86400000 \<and> t div 86400000 \<le> 100000000"
  using assms div_bounds [of 86400000 t] by linarith

lemma iso_time_Some:
  assumes "yn = 0 \<longrightarrow> \<not> negative" "1 \<le> mo" "mo \<le> 12" "1 \<le> date"
    and "int date \<le> month_start leap (int mo) - month_start leap (int mo - 1)"
    and "h \<le> 23" "mi \<le> 59" "sec \<le> 59"
    and "(if negative then - int yn else int yn) = y" "InLeapYear y = leap"
    and "(DayFromYear y + month_start leap (int mo - 1) + int date - 1) * 86400000
          + int h * 3600000 + int mi * 60000 + int sec * 1000 + int ms = t"
    and "\<bar>t\<bar> \<le> max_time"
  shows "iso_time negative yn mo date h mi sec ms = Some t"
  unfolding iso_time_def Let_def assms(9) assms(10) assms(11)
  using assms(1-8,12) by (simp only: if_True simp_thms) simp

lemma iso_time_fields:
  assumes "\<bar>t\<bar> \<le> max_time"
  defines "d \<equiv> t div 86400000"
    and "tod \<equiv> t mod 86400000"
  defines "y \<equiv> YearFromDay d"
  defines "dy \<equiv> d - DayFromYear y"
  defines "mo \<equiv> MonthFromDay (InLeapYear y) dy"
  defines "date \<equiv> dy - month_start (InLeapYear y) mo + 1"
  shows "iso_time (y < 0) (nat \<bar>y\<bar>) (nat (mo + 1)) (nat date) (nat (tod div 3600000))
      (nat (tod div 60000 mod 60)) (nat (tod div 1000 mod 60)) (nat (tod mod 1000)) = Some t"
    and "\<bar>y\<bar> < 1000000" and "0 \<le> mo" and "mo \<le> 11" and "1 \<le> date" and "date \<le> 31"
    and "0 \<le> tod" and "tod < 86400000"
proof -
  show tod: "0 \<le> tod" "tod < 86400000" by (simp_all add: tod_def)
  have t: "d * 86400000 + tod = t" by (simp add: d_def tod_def)
  have "- 100000000 \<le> d \<and> d \<le> 100000000"
    unfolding d_def using assms(1) unfolding max_time_def by (rule day_range)
  then show y: "\<bar>y\<bar> < 1000000" using YearFromDay_range [of d] unfolding y_def by linarith
  have "DayFromYear y \<le> d" "d < DayFromYear y + (if InLeapYear y then 366 else 365)"
    using YearFromDay_bounds [of d] by (simp_all add: y_def [symmetric] DaysInYear)
  then have dy: "0 \<le> dy" "dy < (if InLeapYear y then 366 else 365)"
    by (simp_all add: dy_def)
  note mb = MonthFromDay_bounds [OF dy, folded mo_def]
  show mo: "0 \<le> mo" "mo \<le> 11" using mb by simp_all
  show date: "1 \<le> date" using mb by (simp add: date_def)
  have len: "date \<le> month_start (InLeapYear y) (mo + 1) - month_start (InLeapYear y) mo"
    using mb by (simp add: date_def)
  with month_length [OF mo, of "InLeapYear y"] show date31: "date \<le> 31" by simp
  have h: "0 \<le> tod div 3600000" "tod div 3600000 \<le> 23"
    using tod div_bounds [of 3600000 tod] by simp_all
  have day: "DayFromYear y + month_start (InLeapYear y) mo + date - 1 = d"
    by (simp add: date_def dy_def)
  show "iso_time (y < 0) (nat \<bar>y\<bar>) (nat (mo + 1)) (nat date) (nat (tod div 3600000))
      (nat (tod div 60000 mod 60)) (nat (tod div 1000 mod 60)) (nat (tod mod 1000)) = Some t"
  proof (rule iso_time_Some [where y = y and leap = "InLeapYear y"])
    show "nat \<bar>y\<bar> = 0 \<longrightarrow> \<not> y < 0" by simp
    show "1 \<le> nat (mo + 1)" "nat (mo + 1) \<le> 12" using mo by simp_all
    show "1 \<le> nat date" using date by simp
    have m1: "int (nat (mo + 1)) = mo + 1" "mo + 1 - 1 = mo" using mo by simp_all
    have d1: "int (nat date) = date" using date by simp
    show "int (nat date) \<le> month_start (InLeapYear y) (int (nat (mo + 1)))
        - month_start (InLeapYear y) (int (nat (mo + 1)) - 1)"
      unfolding m1 d1 by (rule len)
    show "nat (tod div 3600000) \<le> 23" using h by simp
    show "nat (tod div 60000 mod 60) \<le> 59" by (simp add: nat_le_iff)
    show "nat (tod div 1000 mod 60) \<le> 59" by (simp add: nat_le_iff)
    show "(if y < 0 then - int (nat \<bar>y\<bar>) else int (nat \<bar>y\<bar>)) = y" by simp
    show "InLeapYear y = InLeapYear y" by (rule refl)
    show "\<bar>t\<bar> \<le> max_time" by (rule assms(1))
    have f: "int (nat (tod div 3600000)) = tod div 3600000"
      "int (nat (tod div 60000 mod 60)) = tod div 60000 mod 60"
      "int (nat (tod div 1000 mod 60)) = tod div 1000 mod 60"
      "int (nat (tod mod 1000)) = tod mod 1000"
      using h by simp_all
    show "(DayFromYear y + month_start (InLeapYear y) (int (nat (mo + 1)) - 1)
            + int (nat date) - 1) * 86400000
          + int (nat (tod div 3600000)) * 3600000 + int (nat (tod div 60000 mod 60)) * 60000
          + int (nat (tod div 1000 mod 60)) * 1000 + int (nat (tod mod 1000)) = t"
      unfolding m1 d1 f day using time_of_day [of tod] t by linarith
  qed
qed

lemma parse_iso_format_iso:
  assumes "\<bar>t\<bar> \<le> max_time"
  shows "parse_iso (format_iso t) = Some t"
proof -
  define d where "d = t div 86400000"
  define tod where "tod = t mod 86400000"
  define y where "y = YearFromDay d"
  define dy where "dy = d - DayFromYear y"
  define mo where "mo = MonthFromDay (InLeapYear y) dy"
  define date where "date = dy - month_start (InLeapYear y) mo + 1"
  define A where "A = pad_digits 2 (nat (mo + 1))"
  define B where "B = pad_digits 2 (nat date)"
  define C where "C = pad_digits 2 (nat (tod div 3600000))"
  define D where "D = pad_digits 2 (nat (tod div 60000 mod 60))"
  define E where "E = pad_digits 2 (nat (tod div 1000 mod 60))"
  define F where "F = pad_digits 3 (nat (tod mod 1000))"
  note f = iso_time_fields [OF assms, folded d_def tod_def, folded y_def, folded dy_def,
      folded mo_def, folded date_def]
  have fmt: "format_iso t =
      (if 0 \<le> y \<and> y \<le> 9999 then pad_digits 4 (nat y)
       else (if y < 0 then 45 else 43) # pad_digits 6 (nat \<bar>y\<bar>))
      @ [45] @ A @ [45] @ B @ [84] @ C @ [58] @ D @ [58] @ E @ [46] @ F @ [90]"
    by (simp add: format_iso_def Let_def A_def B_def C_def D_def E_def F_def
        date_def mo_def dy_def y_def d_def tod_def)
  have len: "length A = 2" "length B = 2" "length C = 2" "length D = 2" "length E = 2"
    "length F = 3"
    by (simp_all add: A_def B_def C_def D_def E_def F_def)
  have h: "tod div 3600000 \<le> 23" using f(7,8) div_bounds [of 3600000 tod] by simp
  have A: "digits_field A = Some (nat (mo + 1))"
    unfolding A_def using f(3,4) by (intro digits_field_pad_digits) simp
  have B: "digits_field B = Some (nat date)"
    unfolding B_def using f(5,6) by (intro digits_field_pad_digits) simp
  have C: "digits_field C = Some (nat (tod div 3600000))"
    unfolding C_def using h by (intro digits_field_pad_digits) simp
  have D: "digits_field D = Some (nat (tod div 60000 mod 60))"
    unfolding D_def by (intro digits_field_pad_digits) (simp add: nat_less_iff)
  have E: "digits_field E = Some (nat (tod div 1000 mod 60))"
    unfolding E_def by (intro digits_field_pad_digits) (simp add: nat_less_iff)
  have F: "digits_field F = Some (nat (tod mod 1000))"
    unfolding F_def by (intro digits_field_pad_digits) (simp add: nat_less_iff)
  show ?thesis
  proof (cases "0 \<le> y \<and> y \<le> 9999")
    case True
    then have "nat y < 10 ^ 4" "nat \<bar>y\<bar> = nat y" by (simp_all add: nat_less_iff)
    then have Y: "digits_field (pad_digits 4 (nat y)) = Some (nat \<bar>y\<bar>)"
      using digits_field_pad_digits [of "nat y" 4] by (simp only:)
    have "parse_iso (pad_digits 4 (nat y) @ [45] @ A @ [45] @ B @ [84] @ C @ [58] @ D
        @ [58] @ E @ [46] @ F @ [90])
      = iso_time False (nat \<bar>y\<bar>) (nat (mo + 1)) (nat date) (nat (tod div 3600000))
          (nat (tod div 60000 mod 60)) (nat (tod div 1000 mod 60)) (nat (tod mod 1000))"
      by (rule parse_iso_plain [OF len _ _ Y A B C D E F]) (simp_all add: hd_pad_digits)
    with True f(1) show ?thesis by (simp add: fmt)
  next
    case False
    have Y: "digits_field (pad_digits 6 (nat \<bar>y\<bar>)) = Some (nat \<bar>y\<bar>)"
      using f(2) by (intro digits_field_pad_digits) simp
    define sg :: nat where "sg = (if y < 0 then 45 else 43)"
    have sg: "sg = 43 \<or> sg = 45" "(sg = 45) = (y < 0)" by (simp_all add: sg_def)
    have "parse_iso (sg # pad_digits 6 (nat \<bar>y\<bar>) @ [45] @ A @ [45] @ B @ [84] @ C @ [58] @ D
        @ [58] @ E @ [46] @ F @ [90])
      = iso_time (sg = 45) (nat \<bar>y\<bar>) (nat (mo + 1)) (nat date) (nat (tod div 3600000))
          (nat (tod div 60000 mod 60)) (nat (tod div 1000 mod 60)) (nat (tod mod 1000))"
      by (rule parse_iso_signed [OF len _ sg(1) Y A B C D E F]) simp
    also have "\<dots> = Some t" unfolding sg(2) by (rule f(1))
    finally have p: "parse_iso (sg # pad_digits 6 (nat \<bar>y\<bar>) @ [45] @ A @ [45] @ B @ [84] @ C
        @ [58] @ D @ [58] @ E @ [46] @ F @ [90]) = Some t" .
    have "format_iso t = sg # pad_digits 6 (nat \<bar>y\<bar>) @ [45] @ A @ [45] @ B @ [84] @ C
        @ [58] @ D @ [58] @ E @ [46] @ F @ [90]"
      unfolding fmt sg_def using False by (simp only: if_False append_Cons)
    with p show ?thesis by (simp only:)
  qed
qed

section \<open>Facts about numbers\<close>

lemma normalize_value:
  "0 \<le> e \<Longrightarrow> \<exists>m' e'. normalize m e = Decimal m' e' \<and> 0 \<le> e' \<and> m' * 10 ^ nat e' = m * 10 ^ nat e"
proof (induction m e rule: normalize.induct)
  case (1 m e)
  show ?case
  proof (cases "m \<noteq> 0 \<and> m mod 10 = 0")
    case True
    then have n: "normalize m e = normalize (m div 10) (e + 1)"
      by (subst normalize.simps) simp
    from 1 True obtain m' e' where r: "normalize (m div 10) (e + 1) = Decimal m' e'" "0 \<le> e'"
      "m' * 10 ^ nat e' = (m div 10) * 10 ^ nat (e + 1)"
      by auto
    have "nat (e + 1) = Suc (nat e)" using 1(2) by simp
    moreover have "m div 10 * 10 = m" using True by auto
    ultimately have "(m div 10) * 10 ^ nat (e + 1) = m * 10 ^ nat e"
      by (simp add: mult.assoc [symmetric])
    with r n show ?thesis by simp
  next
    case False
    then show ?thesis using 1(2) by (subst normalize.simps) auto
  qed
qed

lemma number_of_int_value:
  "\<exists>m e. number_of_int i = Decimal m e \<and> 0 \<le> e \<and> m * 10 ^ nat e = i"
  using normalize_value [of 0 i] by (simp add: number_of_int_def)

lemma pow_split:
  fixes e1 e :: int
  assumes "0 \<le> e" "e \<le> e1"
  shows "(10::int) ^ nat (e1 - e) * 10 ^ nat e = 10 ^ nat e1"
proof -
  have "nat (e1 - e) + nat e = nat e1" using assms by simp
  then show ?thesis by (simp add: power_add [symmetric])
qed

lemma decimal_less_int:
  assumes "0 \<le> e1" "0 \<le> e2"
  shows "decimal_less (Decimal m1 e1) (Decimal m2 e2) \<longleftrightarrow> m1 * 10 ^ nat e1 < m2 * 10 ^ nat e2"
proof -
  define e where "e = min e1 e2"
  have e: "0 \<le> e" "e \<le> e1" "e \<le> e2" using assms by (simp_all add: e_def)
  have p: "(0::int) < 10 ^ nat e" by simp
  have "m1 * 10 ^ nat (e1 - e) < m2 * 10 ^ nat (e2 - e)
      \<longleftrightarrow> m1 * 10 ^ nat (e1 - e) * 10 ^ nat e < m2 * 10 ^ nat (e2 - e) * 10 ^ nat e"
    using p by simp
  also have "m1 * 10 ^ nat (e1 - e) * 10 ^ nat e = m1 * 10 ^ nat e1"
    using pow_split [OF e(1,2)] by (simp add: mult.assoc)
  also have "m2 * 10 ^ nat (e2 - e) * 10 ^ nat e = m2 * 10 ^ nat e2"
    using pow_split [OF e(1,3)] by (simp add: mult.assoc)
  finally show ?thesis by (simp add: decimal_less_def e_def)
qed

lemma decimal_add_int:
  assumes "0 \<le> e1" "0 \<le> e2"
  shows "decimal_add (Decimal m1 e1) (Decimal m2 e2)
    = normalize (m1 * 10 ^ nat e1 + m2 * 10 ^ nat e2) 0"
proof -
  define e where "e = min e1 e2"
  define M where "M = m1 * 10 ^ nat (e1 - e) + m2 * 10 ^ nat (e2 - e)"
  have e: "0 \<le> e" "e \<le> e1" "e \<le> e2" using assms by (simp_all add: e_def)
  have "M * 10 ^ nat e = m1 * (10 ^ nat (e1 - e) * 10 ^ nat e) + m2 * (10 ^ nat (e2 - e) * 10 ^ nat e)"
    by (simp add: M_def algebra_simps)
  then have v: "M * 10 ^ nat e = m1 * 10 ^ nat e1 + m2 * 10 ^ nat e2"
    by (simp only: pow_split [OF e(1,2)] pow_split [OF e(1,3)])
  have "normalize M e = normalize (M * 10 ^ nat e) 0"
  proof (cases "M = 0")
    case True
    then show ?thesis by simp
  next
    case False
    from normalize_shift [OF False, of "nat e" 0] e(1) show ?thesis by simp
  qed
  then show ?thesis by (simp add: decimal_add_def e_def [symmetric] M_def [symmetric] v)
qed

lemma number_less_num [simp]: "number_less (num i) (num j) \<longleftrightarrow> i < j"
proof -
  obtain m1 e1 where a: "number_of_int i = Decimal m1 e1" "0 \<le> e1" "m1 * 10 ^ nat e1 = i"
    using number_of_int_value [of i] by blast
  obtain m2 e2 where b: "number_of_int j = Decimal m2 e2" "0 \<le> e2" "m2 * 10 ^ nat e2 = j"
    using number_of_int_value [of j] by blast
  show ?thesis
    by (simp add: num_def number_less_def a(1) b(1) decimal_less_int [OF a(2) b(2)] a(3) b(3))
qed

lemma number_ge_num [simp]: "number_ge (num i) (num j) \<longleftrightarrow> j \<le> i"
  by (auto simp: number_ge_def) (simp_all add: num_def)

lemma number_add_num [simp]: "number_add (num i) (num j) = num (i + j)"
proof -
  obtain m1 e1 where a: "number_of_int i = Decimal m1 e1" "0 \<le> e1" "m1 * 10 ^ nat e1 = i"
    using number_of_int_value [of i] by blast
  obtain m2 e2 where b: "number_of_int j = Decimal m2 e2" "0 \<le> e2" "m2 * 10 ^ nat e2 = j"
    using number_of_int_value [of j] by blast
  have "number_add (num i) (num j) = Finite (normalize (i + j) 0)"
    by (simp add: num_def number_add_def a(1) b(1) decimal_add_int [OF a(2) b(2)] a(3) b(3))
  then show ?thesis by (simp add: num_def number_of_int_def)
qed

lemma number_sub_num [simp]: "number_sub (num i) (num j) = num (i - j)"
proof -
  obtain m1 e1 where a: "number_of_int i = Decimal m1 e1" "0 \<le> e1" "m1 * 10 ^ nat e1 = i"
    using number_of_int_value [of i] by blast
  obtain m2 e2 where b: "number_of_int j = Decimal m2 e2" "0 \<le> e2" "m2 * 10 ^ nat e2 = j"
    using number_of_int_value [of j] by blast
  have "m1 * 10 ^ nat e1 + - m2 * 10 ^ nat e2 = i - j" using a(3) b(3) by simp
  then have "number_sub (num i) (num j) = Finite (normalize (i - j) 0)"
    by (simp add: num_def number_sub_def number_neg_def number_add_def a(1) b(1)
        decimal_add_int [OF a(2) b(2)])
  then show ?thesis by (simp add: num_def number_of_int_def)
qed

lemma num_eq_iff [simp]: "num i = num j \<longleftrightarrow> i = j"
proof
  assume "num i = num j"
  then have "number_less (num i) (num j) = number_less (num j) (num j)"
    "number_less (num j) (num i) = number_less (num j) (num j)" by simp_all
  then show "i = j" by simp
qed simp

lemma num_not_special [simp]: "num i \<noteq> NaN" "num i \<noteq> PosInfinity" "num i \<noteq> NegInfinity"
  "NaN \<noteq> num i"
  by (simp_all add: num_def)

lemma array_index_num: "array_index (num i) = (if 0 \<le> i then Some (nat i) else None)"
proof -
  obtain m e where a: "number_of_int i = Decimal m e" "0 \<le> e" "m * 10 ^ nat e = i"
    using number_of_int_value [of i] by blast
  have "m < 0 \<longleftrightarrow> i < 0"
    using a(3) by (metis mult_less_0_iff not_less zero_less_numeral zero_less_power mult_nonneg_nonneg less_imp_le)
  then show ?thesis
    using a by (auto simp: array_index_def num_def)
qed

lemma number_toString_examples:
  "number_toString (num (- 1)) = lit ''-1''" "number_toString (num 10) = lit ''10''"
  "number_toString (num 2) = lit ''2''" "number_toString NaN = lit ''NaN''"
  "number_toString (Finite (Decimal 5 (- 1))) = lit ''0.5''"
  by (simp_all add: number_toString_def num_def number_of_int_def normalize.simps
      Number_toString_def digits_of_nat.simps lit_def)

lemma number_add_NaN [simp]: "number_add a (num i) = NaN \<longleftrightarrow> a = NaN"
  by (cases a) (simp_all add: number_add_def num_def)

lemma number_sub_NaN [simp]: "number_sub a (num i) = NaN \<longleftrightarrow> a = NaN"
  by (cases a) (simp_all add: number_sub_def number_add_def number_neg_def num_def
      split: decimal.splits)

lemma number_less_NaN [simp]: "\<not> number_less NaN a" "\<not> number_less a NaN"
  by (cases a; simp add: number_less_def)+

lemma number_ge_NaN [simp]: "\<not> number_ge NaN a" "\<not> number_ge a NaN"
  by (simp_all add: number_ge_def)


lemma cursor_in_range_finite:
  "cursor_in_range s \<Longrightarrow> is_number (currentQuestionIndex s) \<Longrightarrow>
     finite_number (currentQuestionIndex s)"
  by (cases "currentQuestionIndex s")
    (auto simp: cursor_in_range_def is_number_def finite_number_def number_ge_def
      number_less_def)

lemma wf_number_of_int [simp]: "wf_decimal (number_of_int i)"
  by (simp add: number_of_int_def wf_decimal_normalize)

lemma finite_number_num [simp]: "finite_number (num i)" "is_number (num i)"
  by (simp_all add: finite_number_def is_number_def num_def)

lemma normalize_wf_decimal: "wf_decimal (Decimal m e) \<Longrightarrow> normalize m e = Decimal m e"
  by (cases "m = 0") (simp_all add: wf_decimal_def normalize_wf)

lemma wf_js_of_number [simp]: "wf_json (js_of_number a)"
  by (cases a) (auto simp: js_of_number_def wf_decimal_normalize split: decimal.splits)

lemma as_number_js_of_number [simp]:
  "finite_number a \<Longrightarrow> as_number (js_of_number a) = Some a"
  by (cases a)
    (auto simp: finite_number_def js_of_number_def as_number_def normalize_wf_decimal
      split: decimal.splits)

lemma js_of_number_not_nullish [simp]:
  "finite_number a \<Longrightarrow> js_of_number a \<noteq> JNull \<and> js_of_number a \<noteq> JUndefined"
  by (cases a) (auto simp: finite_number_def js_of_number_def split: decimal.splits)

lemma js_of_number_num: "js_of_number (num i) = JNumber (number_of_int i)"
  using normalize_wf_decimal [of _ _] wf_number_of_int [of i]
  by (cases "number_of_int i") (simp add: js_of_number_def num_def normalize_wf_decimal)

section \<open>Sessions are read back\<close>

lemma toISOString_valid: "valid_Date d \<Longrightarrow> toISOString d = Inr (iso_text d)"
  by (cases d) (simp_all add: valid_Date_def toISOString_def iso_text_def)

lemma serialize_feedback_valid:
  "list_all (\<lambda>p. valid_Date (timestamp (snd p))) m \<Longrightarrow>
     serialize_feedback m = Inr (map wire_feedback m)"
  by (induction m) (auto simp: toISOString_valid wire_feedback_def)

lemma serializable_valid:
  assumes "valid_dates s"
  shows "serializable s = Inr (wire_session s)"
  using assms
  by (auto simp: valid_dates_def serializable_def wire_session_def serialize_feedback_valid
      toISOString_valid split: option.splits)

lemma wf_js_of_strings [simp]: "wf_json (js_of_strings ss)"
  by (simp add: js_of_strings_def list_all_iff)

lemma wf_js_of_RoleType [simp]: "wf_json (js_of_RoleType r)"
  by (simp add: js_of_RoleType_def)

lemma wf_js_of_QuestionType [simp]: "wf_json (js_of_QuestionType r)"
  by (simp add: js_of_QuestionType_def)

lemma wf_js_of_ExperienceLevel [simp]: "wf_json (js_of_ExperienceLevel r)"
  by (simp add: js_of_ExperienceLevel_def)

lemma wf_js_of_ParsedJobDescription [simp]: "wf_json (js_of_ParsedJobDescription jd)"
  by (simp add: js_of_ParsedJobDescription_def)

lemma wf_js_of_InterviewQuestion [simp]: "wf_json (js_of_InterviewQuestion q)"
  by (simp add: js_of_InterviewQuestion_def)

lemma wf_js_of_SessionFeedback [simp]: "wf_json (js_of_SessionFeedback sf)"
  by (cases sf) (simp_all add: js_of_SessionFeedback_def)

lemma wf_wire_feedback [simp]: "wf_json (wire_feedback p)"
  by (simp add: wire_feedback_def)

lemma wf_wire_session: "wf_json (wire_session s)"
  by (cases "completedAt s") (simp_all add: wire_session_def list_all_iff split_beta)

lemma all_some_map_Some: "(\<And>x. x \<in> set xs \<Longrightarrow> f (g x) = Some x) \<Longrightarrow> all_some (map (\<lambda>x. f (g x)) xs) = Some xs"
  by (induction xs) simp_all

lemma as_strings_js_of_strings [simp]: "as_strings (js_of_strings ss) = Some ss"
  using all_some_map_Some [of ss as_string JString]
  by (simp add: as_strings_def js_of_strings_def as_string_def comp_def)

lemma as_RoleType_js_of [simp]: "as_RoleType (js_of_RoleType r) = Some r"
  by (cases r) (simp_all add: as_RoleType_def js_of_RoleType_def)

lemma as_QuestionType_js_of [simp]: "as_QuestionType (js_of_QuestionType r) = Some r"
  by (cases r) (simp_all add: as_QuestionType_def js_of_QuestionType_def)

lemma as_ExperienceLevel_js_of [simp]: "as_ExperienceLevel (js_of_ExperienceLevel r) = Some r"
  by (cases r) (simp_all add: as_ExperienceLevel_def js_of_ExperienceLevel_def)

lemma as_string_JString [simp]: "as_string (JString s) = Some s"
  by (simp add: as_string_def)

lemma as_bool_JBool [simp]: "as_bool (JBool b) = Some b"
  by (simp add: as_bool_def)

lemma as_ParsedJobDescription_js_of [simp]:
  "as_ParsedJobDescription (js_of_ParsedJobDescription jd) = Some jd"
  by (simp add: as_ParsedJobDescription_def js_of_ParsedJobDescription_def field_def)

lemma as_InterviewQuestion_js_of [simp]:
  "as_InterviewQuestion (js_of_InterviewQuestion q) = Some q"
  by (simp add: as_InterviewQuestion_def js_of_InterviewQuestion_def field_def)

lemma as_SessionFeedback_js_of [simp]:
  "finite_SessionFeedback sf \<Longrightarrow> as_SessionFeedback (js_of_SessionFeedback sf) = Some sf"
  by (cases sf)
    (simp_all add: as_SessionFeedback_def js_of_SessionFeedback_def field_def
      as_PerformanceSummary_def finite_SessionFeedback_def)

lemma all_some_questions [simp]:
  "all_some (map (as_InterviewQuestion \<circ> js_of_InterviewQuestion) qs) = Some qs"
  by (induction qs) simp_all

lemma Map_set_value_append:
  "JString k \<notin> fst ` set m \<Longrightarrow> Map_set_value (JString k) v m = m @ [(JString k, v)]"
  by (induction m) (auto simp: same_key_def split: jsval.splits)

lemma Map_of_entries_answers:
  "distinct (map fst ps) \<Longrightarrow> JString ` fst ` set ps \<inter> fst ` set acc = {} \<Longrightarrow>
     Map_of_entries acc (map (\<lambda>(k, a). JArray [JString k, JString a]) ps)
       = Inr (acc @ map (\<lambda>(k, a). (JString k, JString a)) ps)"
proof (induction ps arbitrary: acc)
  case Nil
  show ?case by simp
next
  case (Cons p ps)
  obtain k a where p: "p = (k, a)" by (cases p)
  have k: "JString k \<notin> fst ` set acc" using Cons.prems(2) by (auto simp: p)
  have d: "distinct (map fst ps)" using Cons.prems(1) by simp
  have "JString ` fst ` set ps \<inter> fst ` set (acc @ [(JString k, JString a)]) = {}"
    using Cons.prems by (auto simp: p)
  from Cons.IH [OF d this] k show ?case
    by (simp add: p entry_of_def element_at_def Map_set_value_append)
qed

lemma new_Map_answers:
  "distinct (map fst ps) \<Longrightarrow>
     new_Map (JArray (map (\<lambda>(k, a). JArray [JString k, JString a]) ps))
       = Inr (map (\<lambda>(k, a). (JString k, JString a)) ps)"
  using Map_of_entries_answers [of ps "[]"] by (simp add: new_Map_def)

lemma all_some_answers [simp]:
  "all_some (map (as_answer \<circ> (\<lambda>(k, a). (JString k, JString a))) ps) = Some ps"
  by (induction ps) (auto simp: as_answer_def)

lemma new_Date_iso_text:
  "valid_Date d \<Longrightarrow> new_Date other (JString (iso_text d)) = d"
  by (cases d)
    (simp_all add: valid_Date_def iso_text_def new_Date_def Date_parse_def parse_iso_format_iso)

lemma iso_text_not_Nil: "valid_Date d \<Longrightarrow> iso_text d \<noteq> []"
  by (cases d) (simp_all add: valid_Date_def iso_text_def format_iso_def Let_def)

lemma feedback_entry_wire:
  "valid_Date (timestamp (snd p)) \<Longrightarrow>
     feedback_entry other (wire_feedback p) = Inr (parsed_feedback p)"
  by (simp add: feedback_entry_def wire_feedback_def destructure_pair_def element_at_def
      nullish_def field_def parsed_feedback_def new_Date_iso_text)

lemma feedback_entries_wire:
  "list_all (\<lambda>p. valid_Date (timestamp (snd p))) m \<Longrightarrow>
     feedback_entries other (map wire_feedback m) = Inr (map parsed_feedback m)"
  by (induction m) (simp_all add: feedback_entry_wire)

lemma foldl_Map_set_value_feedback:
  "distinct (map fst ps) \<Longrightarrow> JString ` fst ` set ps \<inter> fst ` set acc = {} \<Longrightarrow>
     foldl (\<lambda>m (k, fb). Map_set_value k fb m) acc (map parsed_feedback ps)
       = acc @ map parsed_feedback ps"
proof (induction ps arbitrary: acc)
  case Nil
  show ?case by simp
next
  case (Cons p ps)
  have k: "JString (fst p) \<notin> fst ` set acc" using Cons.prems(2) by auto
  have d: "distinct (map fst ps)" using Cons.prems(1) by simp
  have "JString ` fst ` set ps \<inter> fst ` set (acc @ [parsed_feedback p]) = {}"
    using Cons.prems by (auto simp: parsed_feedback_def)
  from Cons.IH [OF d this] k show ?case
    by (simp add: parsed_feedback_def Map_set_value_append)
qed

lemma feedback_Map_wire:
  assumes "list_all (\<lambda>p. valid_Date (timestamp (snd p))) m" "distinct (map fst m)"
  shows "feedback_Map other (JArray (map wire_feedback m)) = Inr (map parsed_feedback m)"
  using foldl_Map_set_value_feedback [of m "[]"] assms
  by (simp add: feedback_Map_def truthy_def feedback_entries_wire)

lemma all_some_feedback [simp]:
  "list_all (\<lambda>p. finite_number (score (snd p))) ps \<Longrightarrow>
     all_some (map (as_AnswerFeedback \<circ> parsed_feedback) ps) = Some ps"
  by (induction ps) (auto simp: as_AnswerFeedback_def parsed_feedback_def)

lemma valid_Date_getTime: "valid_Date d \<Longrightarrow> getTime d \<noteq> None \<and> d \<noteq> Invalid_Date"
  by (cases d) (simp_all add: valid_Date_def getTime_def)

lemma truthy_simps:
  "truthy (JString x) \<longleftrightarrow> x \<noteq> []" "truthy (JArray vs)" "truthy (JObject ps)" "\<not> truthy JNull"
  "truthy (js_of_ParsedJobDescription jd)"
  by (simp_all add: truthy_def js_of_ParsedJobDescription_def)

lemma deserialize_body_wire:
  assumes "id_session s \<noteq> []" "valid_dates s" "distinct (map fst (answers s))"
    "distinct (map fst (feedback s))" "finite_number (currentQuestionIndex s)"
  shows "deserialize_body other (json_text (wire_session s)) =
    Inr \<lparr> p_id = JString (id_session s),
          p_parsedJD = js_of_ParsedJobDescription (parsedJD s),
          p_questions = map js_of_InterviewQuestion (questions s),
          p_answers = map (\<lambda>(k, a). (JString k, JString a)) (answers s),
          p_feedback = map parsed_feedback (feedback s),
          p_sessionFeedback = js_of_SessionFeedback (sessionFeedback s),
          p_currentQuestionIndex = js_of_number (currentQuestionIndex s),
          p_isComplete = JBool (isComplete s),
          p_createdAt = createdAt s,
          p_completedAt = completedAt s \<rparr>"
proof -
  have parse: "JSON_parse (json_text (wire_session s)) = Inr (wire_session s)"
    using JSON_parse_stringify [OF wf_wire_session] by simp
  have v: "valid_Date (createdAt s)"
    "list_all (\<lambda>p. valid_Date (timestamp (snd p))) (feedback s)"
    using assms(2) by (simp_all add: valid_dates_def)
  show ?thesis
  proof (cases "completedAt s")
    case None
    show ?thesis
      unfolding deserialize_body_def parse
      using assms(1) valid_Date_getTime [OF v(1)] js_of_number_not_nullish [OF assms(5)]
      by (simp add: Let_def get_prop_def nullish_def wire_session_def
          field_def truthy_simps isArray_def new_Map_answers [OF assms(3)]
          feedback_Map_wire [OF v(2) assms(4)] new_Date_iso_text [OF v(1)] None)
  next
    case (Some c)
    then have c: "valid_Date c" using assms(2) by (simp add: valid_dates_def)
    show ?thesis
      unfolding deserialize_body_def parse
      using assms(1) valid_Date_getTime [OF v(1)] valid_Date_getTime [OF c]
        iso_text_not_Nil [OF c] js_of_number_not_nullish [OF assms(5)]
      by (simp add: Let_def get_prop_def nullish_def wire_session_def
          field_def truthy_simps isArray_def new_Map_answers [OF assms(3)]
          feedback_Map_wire [OF v(2) assms(4)] new_Date_iso_text [OF v(1)]
          new_Date_iso_text [OF c] Some)
  qed
qed

lemma serializeSession_valid:
  "valid_dates s \<Longrightarrow> serializeSession s = Inr (json_text (wire_session s))"
  using JSON_parse_stringify [OF wf_wire_session, of s]
  by (simp add: serializeSession_def serializable_valid)

lemma round_trip_Session_value:
  assumes "Session_value s" "finite_number (currentQuestionIndex s)"
  shows "round_trip other s = Inr (Some s)"
proof -
  from assms(1) have v: "id_session s \<noteq> []" "valid_dates s" "distinct (map fst (answers s))"
    "distinct (map fst (feedback s))"
    "list_all (\<lambda>p. finite_number (score (snd p))) (feedback s)"
    "finite_SessionFeedback (sessionFeedback s)"
    by (simp_all add: Session_value_def)
  show ?thesis
    using v(5,6) assms(2)
    by (simp add: round_trip_def serializeSession_valid [OF v(2)] deserializeSession_def
        deserialize_body_wire [OF v(1-4) assms(2)] as_InterviewSession_def)
qed

section \<open>Parsed values are well-formed\<close>

lemma parse_number_wf: "parse_number cs = Some (d, r) \<Longrightarrow> wf_decimal d"
  by (auto simp: parse_number_def Let_def wf_decimal_normalize split: prod.splits option.splits)

lemma keys_Map_set: "fst ` set (Map_set k v m) = insert k (fst ` set m)"
  by (induction m) force+

lemma distinct_Map_set: "distinct (map fst m) \<Longrightarrow> distinct (map fst (Map_set k v m))"
  by (induction m) (auto simp: keys_Map_set)

lemma list_all_Map_set:
  "list_all (\<lambda>p. P (snd p)) m \<Longrightarrow> P v \<Longrightarrow> list_all (\<lambda>p. P (snd p)) (Map_set k v m)"
  by (induction m) auto

lemma wf_json_Map_set:
  assumes "wf_json (JObject m)" "wf_json v"
  shows "wf_json (JObject (Map_set k v m))"
  using assms by (simp add: distinct_Map_set list_all_Map_set)

lemma parse_wf:
  "parse_value cs = Some (v, r) \<Longrightarrow> wf_json v"
  "list_all wf_json acc \<Longrightarrow> parse_elements acc cs1 = Some (v1, r1) \<Longrightarrow> wf_json v1"
  "wf_json (JObject acc') \<Longrightarrow> parse_members acc' cs2 = Some (v2, r2) \<Longrightarrow> wf_json v2"
proof (induction cs and acc cs1 and acc' cs2 arbitrary: v r and v1 r1 and v2 r2
    rule: parse_value_parse_elements_parse_members.induct)
  case (1 cs)
  from 1(3) show ?case
    apply (subst (asm) parse_value.simps)
    apply (auto split: list.splits if_splits option.splits dest: parse_number_wf 1(1) 1(2))
    done
next
  case (2 acc cs)
  from 2(4) obtain a b where pv: "parse_value cs = Some (a, b)" and len: "length b < length cs"
    and rest: "(\<exists>x. skip_ws b = 44 # x \<and> parse_elements (acc @ [a]) x = Some (v1, r1))
       \<or> (skip_ws b = 93 # r1 \<and> v1 = JArray (acc @ [a]))"
    by (subst (asm) parse_elements.simps) (auto split: list.splits if_splits option.splits)
  have wa: "wf_json a" using 2(1) [OF pv] .
  with 2(3) have acc: "list_all wf_json (acc @ [a])" by simp
  from rest show ?case
  proof
    assume "\<exists>x. skip_ws b = 44 # x \<and> parse_elements (acc @ [a]) x = Some (v1, r1)"
    then obtain x where x: "skip_ws b = 44 # x" "parse_elements (acc @ [a]) x = Some (v1, r1)"
      by blast
    show ?thesis
      using 2(2) pv len x acc by fastforce
  next
    assume "skip_ws b = 93 # r1 \<and> v1 = JArray (acc @ [a])"
    with acc show ?thesis by simp
  qed
next
  case (3 acc cs)
  from 3(4) obtain r k ra rb a b where sk: "skip_ws cs = 34 # r"
    and ps: "parse_string [] r = Some (k, ra)"
    and sk2: "skip_ws ra = 58 # rb" and len: "length rb < length cs"
    and pv: "parse_value rb = Some (a, b)" and len2: "length b < length rb"
    and rest: "(\<exists>x. skip_ws b = 44 # x \<and> parse_members (Map_set k a acc) x = Some (v2, r2))
       \<or> (skip_ws b = 125 # r2 \<and> v2 = JObject (Map_set k a acc))"
    by (subst (asm) parse_members.simps) (auto split: list.splits if_splits option.splits)
  have wa: "wf_json a" using 3(1) sk ps sk2 len pv by fastforce
  with 3(3) have acc: "wf_json (JObject (Map_set k a acc))" by (rule wf_json_Map_set)
  from rest show ?case
  proof
    assume "\<exists>x. skip_ws b = 44 # x \<and> parse_members (Map_set k a acc) x = Some (v2, r2)"
    then obtain x where x: "skip_ws b = 44 # x" "parse_members (Map_set k a acc) x = Some (v2, r2)"
      by blast
    show ?thesis
      using 3(2) sk ps sk2 len pv len2 x acc by fastforce
  next
    assume "skip_ws b = 125 # r2 \<and> v2 = JObject (Map_set k a acc)"
    with acc show ?thesis by simp
  qed
qed

lemma JSON_parse_wf: "JSON_parse text = Inr v \<Longrightarrow> wf_json v"
  by (auto simp: JSON_parse_def split: option.splits if_splits dest: parse_wf(1))

section \<open>The stored history\<close>

lemma historyEntry_eq:
  "historyEntry s =
     (if createdAt s \<noteq> Invalid_Date \<and> completedAt s \<noteq> Some Invalid_Date
      then Inr (history_record s) else Inl (RangeError (lit ''Invalid time value'')))"
  by (auto simp: historyEntry_def history_record_def toISOString_def iso_text_def
      split: option.splits Date.splits)

lemma historyEntry_id:
  "historyEntry s = Inr entry \<Longrightarrow> field entry (lit ''id'') = JString (id_session s) \<and> wf_json entry"
  by (auto simp: historyEntry_def field_def split: sum.splits option.splits)

lemma findIndex_upsert:
  "list_all (\<lambda>e. \<not> nullish e) h \<Longrightarrow>
     \<exists>k. findIndex_id sid h = Inr k
       \<and> (if k \<ge> 0 then h[nat k := entry] else h @ [entry]) = upsert sid entry h"
proof (induction h)
  case Nil
  show ?case by simp
next
  case (Cons e h)
  then obtain k where k: "findIndex_id sid h = Inr k"
    "(if k \<ge> 0 then h[nat k := entry] else h @ [entry]) = upsert sid entry h"
    by auto
  have g: "get_prop e (lit ''id'') = Inr (field e (lit ''id''))"
    using Cons.prems by (simp add: get_prop_def)
  show ?case
  proof (cases "field e (lit ''id'') = JString sid")
    case True
    then show ?thesis by (simp add: g)
  next
    case False
    show ?thesis
    proof (cases "k < 0")
      case True
      with k False show ?thesis by (simp add: g)
    next
      case False
      then have "nat (k + 1) = Suc (nat k)" by simp
      with k False \<open>field e (lit ''id'') \<noteq> JString sid\<close> show ?thesis by (simp add: g)
    qed
  qed
qed

lemma findIndex_readable:
  "entries_readable sid h \<Longrightarrow>
     \<exists>k. findIndex_id sid h = Inr k
       \<and> (if k \<ge> 0 then h[nat k := entry] else h @ [entry]) = upsert sid entry h"
proof (induction h)
  case Nil
  show ?case by simp
next
  case (Cons e h)
  show ?case
  proof (cases "field e (lit ''id'') = JString sid")
    case True
    then have "\<not> nullish e" by (auto simp: nullish_def field_def)
    with True show ?thesis by (simp add: get_prop_def)
  next
    case False
    with Cons.prems have ne: "\<not> nullish e" and r: "entries_readable sid h"
      by (simp_all add: entries_readable_def)
    from Cons.IH [OF r] obtain k where k: "findIndex_id sid h = Inr k"
      "(if k \<ge> 0 then h[nat k := entry] else h @ [entry]) = upsert sid entry h"
      by blast
    have g: "get_prop e (lit ''id'') = Inr (field e (lit ''id''))"
      using ne by (simp add: get_prop_def)
    show ?thesis
    proof (cases "k < 0")
      case True
      with k False show ?thesis by (simp add: g)
    next
      case nonneg: False
      then have "nat (k + 1) = Suc (nat k)" by simp
      with k False nonneg show ?thesis by (simp add: g)
    qed
  qed
qed

lemma findIndex_unreadable:
  "\<not> entries_readable sid h \<Longrightarrow> \<exists>e. findIndex_id sid h = Inl e"
proof (induction h)
  case Nil
  then show ?case by (simp add: entries_readable_def)
next
  case (Cons e h)
  show ?case
  proof (cases "nullish e")
    case True
    then show ?thesis by (simp add: get_prop_def)
  next
    case False
    then have g: "get_prop e (lit ''id'') = Inr (field e (lit ''id''))"
      by (simp add: get_prop_def)
    from Cons.prems False have ne: "field e (lit ''id'') \<noteq> JString sid"
      and r: "\<not> entries_readable sid h"
      by (auto simp: entries_readable_def split: if_splits)
    from Cons.IH [OF r] ne show ?thesis by (auto simp: g)
  qed
qed

lemma findIndex_found:
  "findIndex_id sid h = Inr k \<Longrightarrow>
     (k < 0 \<longrightarrow> filter (\<lambda>e. field e (lit ''id'') = JString sid) h = [])
     \<and> (k \<ge> 0 \<longrightarrow> nat k < length h \<and> field (h ! nat k) (lit ''id'') = JString sid)"
proof (induction h arbitrary: k)
  case Nil
  then show ?case by simp
next
  case (Cons e h)
  show ?case
  proof (cases "nullish e")
    case True
    with Cons.prems show ?thesis by (simp add: get_prop_def)
  next
    case False
    then have g: "get_prop e (lit ''id'') = Inr (field e (lit ''id''))"
      by (simp add: get_prop_def)
    show ?thesis
    proof (cases "field e (lit ''id'') = JString sid")
      case True
      with Cons.prems show ?thesis by (simp add: g)
    next
      case ne: False
      with Cons.prems obtain k' where k': "findIndex_id sid h = Inr k'"
        "k = (if k' < 0 then - 1 else k' + 1)"
        by (auto simp: g split: sum.splits if_splits)
      note ih = Cons.IH [OF k'(1)]
      show ?thesis
      proof (cases "k' < 0")
        case True
        with ih k'(2) ne show ?thesis by simp
      next
        case False
        then have "nat k = Suc (nat k')" using k'(2) by simp
        with ih k'(2) False show ?thesis by simp
      qed
    qed
  qed
qed

lemma filter_list_update_same:
  "i < length xs \<Longrightarrow> P (xs ! i) \<Longrightarrow> P y \<Longrightarrow>
     length (filter P (xs[i := y])) = length (filter P xs)"
proof (induction xs arbitrary: i)
  case Nil
  then show ?case by simp
next
  case (Cons x xs)
  then show ?case by (cases i) auto
qed

lemma entries_after_update:
  assumes "findIndex_id sid h = Inr k" "field entry (lit ''id'') = JString sid"
    "entries_with_id sid (JArray h) \<le> 1"
  shows "entries_with_id sid (JArray (if k \<ge> 0 then h[nat k := entry] else h @ [entry])) \<le> 1"
proof (cases "k < 0")
  case True
  with findIndex_found [OF assms(1)] assms(2) show ?thesis
    by (simp add: entries_with_id_def)
next
  case False
  with findIndex_found [OF assms(1)]
  have "nat k < length h" "field (h ! nat k) (lit ''id'') = JString sid" by simp_all
  from filter_list_update_same [of "nat k" h "\<lambda>e. field e (lit ''id'') = JString sid" entry,
      OF this assms(2)] assms(3) False
  show ?thesis by (simp add: entries_with_id_def)
qed

lemma wf_getSessionHistory: "wf_json (getSessionHistory env)"
  by (auto simp: getSessionHistory_def split: option.splits sum.splits dest: JSON_parse_wf)

lemma wf_list_update:
  "wf_json (JArray h) \<Longrightarrow> wf_json entry \<Longrightarrow>
     wf_json (JArray (if (k::int) \<ge> 0 then h[nat k := entry] else h @ [entry]))"
  by (auto simp: list_all_iff dest: subsetD [OF set_update_subset_insert])

lemma stored_history_read:
  assumes "window_defined env" "wf_json (JArray h)"
  shows "getSessionHistory
      (env\<lparr>localStorage := (localStorage env)(SESSION_HISTORY \<mapsto> json_text (JArray h))\<rparr>)
    = JArray h"
  using assms JSON_parse_stringify [OF assms(2)]
  by (simp add: getSessionHistory_def) (simp add: json_text_array)

lemma saveSessionToHistory_cases:
  "saveSessionToHistory env s = env
   \<or> (\<exists>h k entry. window_defined env \<and> getSessionHistory env = JArray h
        \<and> findIndex_id (id_session s) h = Inr k \<and> historyEntry s = Inr entry
        \<and> saveSessionToHistory env s =
            env\<lparr>localStorage := (localStorage env)(SESSION_HISTORY \<mapsto>
              json_text (JArray (if k \<ge> 0 then h[nat k := entry] else h @ [entry])))\<rparr>)"
proof (cases "window_defined env")
  case False
  then show ?thesis by (simp add: saveSessionToHistory_def)
next
  case True
  show ?thesis
  proof (cases "getSessionHistory env")
    case (JArray h)
    then have wh: "wf_json (JArray h)" using wf_getSessionHistory [of env] by simp
    show ?thesis
    proof (cases "findIndex_id (id_session s) h")
      case (Inl e)
      with True JArray show ?thesis by (simp add: saveSessionToHistory_def)
    next
      case (Inr k)
      show ?thesis
      proof (cases "historyEntry s")
        case (Inl e)
        with True JArray Inr show ?thesis by (simp add: saveSessionToHistory_def)
      next
        case entry: (Inr entry)
        define h' where "h' = (if k \<ge> 0 then h[nat k := entry] else h @ [entry])"
        have "wf_json (JArray h')"
          unfolding h'_def using wh historyEntry_id [OF entry] by (intro wf_list_update) simp_all
        then have st: "JSON_stringify (JArray h') = Some (json_text (JArray h'))"
          using JSON_parse_stringify by blast
        have "saveSessionToHistory env s = env
          \<or> saveSessionToHistory env s =
            env\<lparr>localStorage := (localStorage env)(SESSION_HISTORY \<mapsto> json_text (JArray h'))\<rparr>"
          using True JArray Inr entry st
          by (simp add: saveSessionToHistory_def Let_def h'_def [symmetric] setItem_def)
        with True JArray Inr entry show ?thesis unfolding h'_def by blast
      qed
    qed
  qed (simp_all add: saveSessionToHistory_def True)
qed

lemma save_step_count:
  assumes "entries_with_id (id_session s) (getSessionHistory env) \<le> 1"
  shows "entries_with_id (id_session s) (getSessionHistory (saveSessionToHistory env s)) \<le> 1"
proof -
  from saveSessionToHistory_cases [of env s] show ?thesis
  proof
    assume "saveSessionToHistory env s = env"
    with assms show ?thesis by simp
  next
    assume "\<exists>h k entry. window_defined env \<and> getSessionHistory env = JArray h
        \<and> findIndex_id (id_session s) h = Inr k \<and> historyEntry s = Inr entry
        \<and> saveSessionToHistory env s =
            env\<lparr>localStorage := (localStorage env)(SESSION_HISTORY \<mapsto>
              json_text (JArray (if k \<ge> 0 then h[nat k := entry] else h @ [entry])))\<rparr>"
    then obtain h k entry where w: "window_defined env" and g: "getSessionHistory env = JArray h"
      and f: "findIndex_id (id_session s) h = Inr k" and e: "historyEntry s = Inr entry"
      and r: "saveSessionToHistory env s =
            env\<lparr>localStorage := (localStorage env)(SESSION_HISTORY \<mapsto>
              json_text (JArray (if k \<ge> 0 then h[nat k := entry] else h @ [entry])))\<rparr>"
      by blast
    have wh: "wf_json (JArray h)" using wf_getSessionHistory [of env] g by simp
    have wf: "wf_json (JArray (if k \<ge> 0 then h[nat k := entry] else h @ [entry]))"
      using wh historyEntry_id [OF e] by (intro wf_list_update) simp_all
    have "getSessionHistory (saveSessionToHistory env s)
        = JArray (if k \<ge> 0 then h[nat k := entry] else h @ [entry])"
      unfolding r by (rule stored_history_read [OF w wf])
    moreover have "entries_with_id (id_session s)
        (JArray (if k \<ge> 0 then h[nat k := entry] else h @ [entry])) \<le> 1"
      using f historyEntry_id [OF e] assms by (intro entries_after_update) (simp_all add: g)
    ultimately show ?thesis by simp
  qed
qed

lemma save_all_count:
  "\<forall>x \<in> set ss. id_session x = sid \<Longrightarrow> entries_with_id sid (getSessionHistory env) \<le> 1 \<Longrightarrow>
     entries_with_id sid (getSessionHistory (save_all env ss)) \<le> 1"
proof (induction ss arbitrary: env)
  case Nil
  then show ?case by simp
next
  case (Cons s ss)
  from Cons.prems have "id_session s = sid" by simp
  with Cons.prems(2) save_step_count [of s env]
  have "entries_with_id sid (getSessionHistory (saveSessionToHistory env s)) \<le> 1" by simp
  with Cons show ?case by simp
qed

lemma saveSessionToHistory_eq:
  "saveSessionToHistory env s =
     (if write_succeeds env s
      then env\<lparr>localStorage := (localStorage env)(SESSION_HISTORY \<mapsto>
             json_text (JArray (upsert (id_session s) (history_record s) (history_list env))))\<rparr>
      else env)"
proof (cases "window_defined env \<and> isArray (getSessionHistory env)")
  case False
  then show ?thesis
    by (cases "getSessionHistory env")
      (auto simp: saveSessionToHistory_def write_succeeds_def isArray_def)
next
  case True
  then obtain h where h: "getSessionHistory env = JArray h"
    by (cases "getSessionHistory env") (auto simp: isArray_def)
  have hl: "history_list env = h" by (simp add: history_list_def h)
  have wh: "wf_json (JArray h)" using wf_getSessionHistory [of env] h by simp
  show ?thesis
  proof (cases "entries_readable (id_session s) h")
    case False
    from findIndex_unreadable [OF False] obtain e where "findIndex_id (id_session s) h = Inl e"
      by blast
    with True h False show ?thesis
      by (simp add: saveSessionToHistory_def write_succeeds_def hl)
  next
    case readable: True
    from findIndex_readable [OF readable, of "history_record s"]
    obtain k where k: "findIndex_id (id_session s) h = Inr k"
      "(if k \<ge> 0 then h[nat k := history_record s] else h @ [history_record s])
         = upsert (id_session s) (history_record s) h"
      by blast
    show ?thesis
    proof (cases "createdAt s \<noteq> Invalid_Date \<and> completedAt s \<noteq> Some Invalid_Date")
      case False
      with True h k(1) show ?thesis
        by (auto simp: saveSessionToHistory_def write_succeeds_def historyEntry_eq)
    next
      case dates: True
      then have e: "historyEntry s = Inr (history_record s)" by (simp add: historyEntry_eq)
      have wf: "wf_json (JArray (upsert (id_session s) (history_record s) h))"
        using wf_list_update [OF wh, of "history_record s" k] historyEntry_id [OF e]
        by (simp only: k(2))
      then have st: "JSON_stringify (JArray (upsert (id_session s) (history_record s) h))
          = Some (json_text (JArray (upsert (id_session s) (history_record s) h)))"
        using JSON_parse_stringify by blast
      show ?thesis
        using True h k(1) e st dates readable
        by (simp add: saveSessionToHistory_def Let_def k(2) setItem_def write_succeeds_def hl)
    qed
  qed
qed

lemma write_succeeds_read:
  assumes "write_succeeds env s"
  shows "getSessionHistory (saveSessionToHistory env s)
    = JArray (upsert (id_session s) (history_record s) (history_list env))"
proof -
  from assms have w: "window_defined env" and a: "isArray (getSessionHistory env)"
    and r: "entries_readable (id_session s) (history_list env)"
    and d: "createdAt s \<noteq> Invalid_Date \<and> completedAt s \<noteq> Some Invalid_Date"
    by (simp_all add: write_succeeds_def)
  from a obtain h where h: "getSessionHistory env = JArray h"
    by (cases "getSessionHistory env") (auto simp: isArray_def)
  have hl: "history_list env = h" by (simp add: history_list_def h)
  have wh: "wf_json (JArray h)" using wf_getSessionHistory [of env] h by simp
  from findIndex_readable [OF r [unfolded hl], of "history_record s"]
  obtain k where k: "(if k \<ge> 0 then h[nat k := history_record s] else h @ [history_record s])
         = upsert (id_session s) (history_record s) h"
    by blast
  from d have e: "historyEntry s = Inr (history_record s)" by (simp add: historyEntry_eq)
  have wf: "wf_json (JArray (upsert (id_session s) (history_record s) h))"
    using wf_list_update [OF wh, of "history_record s" k] historyEntry_id [OF e]
    by (simp only: k)
  show ?thesis
    unfolding saveSessionToHistory_eq using assms
    by (simp add: hl stored_history_read [OF w wf])
qed

section \<open>Facts about maps\<close>

lemma Map_get_Map_set: "Map_get (Map_set k v m) = (Map_get m)(k \<mapsto> v)"
  by (induction m) (auto simp: Map_get_def fun_eq_iff)

lemma Map_keys_Map_set_list:
  "Map_keys (Map_set k v m) = (if k \<in> set (Map_keys m) then Map_keys m else Map_keys m @ [k])"
  by (induction m) (force simp: Map_keys_def)+

lemma Map_keys_Map_set: "set (Map_keys (Map_set k v m)) = insert k (set (Map_keys m))"
  by (auto simp: Map_keys_Map_set_list)

lemma Map_size_keys: "Map_size m = length (Map_keys m)"
  by (simp add: Map_size_def Map_keys_def)

lemma Map_size_Map_set_present:
  "k \<in> set (Map_keys m) \<Longrightarrow> Map_size (Map_set k v m) = Map_size m"
  by (simp add: Map_size_keys Map_keys_Map_set_list)

lemma Map_size_Map_set_absent:
  "k \<notin> set (Map_keys m) \<Longrightarrow> Map_size (Map_set k v m) = Suc (Map_size m)"
  by (simp add: Map_size_keys Map_keys_Map_set_list)

section \<open>Runs of manager operations\<close>

lemma list_ex_question_ids:
  "list_ex (\<lambda>q. id_question q = qid) (questions s) \<longleftrightarrow> qid \<in> question_ids s"
  by (auto simp: list_ex_iff question_ids_def)

lemma apply_op_questions: "apply_op op s = Inr s' \<Longrightarrow> questions s' = questions s"
  by (cases op)
     (auto simp: storeAnswer_def storeFeedback_def setCurrentQuestionIndex_def
        completeSession_def storeSessionFeedback_def nextQuestion_def previousQuestion_def
        Let_def split: if_splits)






lemma run_ops_questions: "run_ops ops s = Inr s' \<Longrightarrow> questions s' = questions s"
  by (induction ops arbitrary: s) (auto split: sum.splits dest: apply_op_questions)

section \<open>Storing an answer (claim C2)\<close>

text \<open>
  Claim C2. \<open>storeAnswer\<close> on a question id that no question of the session carries
  throws the not-found error; on the id of a question it returns a session that differs
  from the input in the answer association only, which then maps the id to the text and
  every other key as before. The function is a pure value transform: the input session is
  a value and stays what it was, and there is no effect besides the result.
\<close>

theorem storeAnswer_spec:
  "(qid \<notin> question_ids s \<longrightarrow>
      storeAnswer s qid text
        = Inl (Error (lit ''Question with ID '' @ qid @ lit '' not found in session'')))
   \<and> (qid \<in> question_ids s \<longrightarrow>
      (\<exists>s'. storeAnswer s qid text = Inr s'
         \<and> s' = s\<lparr>answers := answers s'\<rparr>
         \<and> Map_get (answers s') = (Map_get (answers s))(qid \<mapsto> text)))"
  by (simp add: storeAnswer_def list_ex_question_ids Map_get_Map_set)

theorem storeAnswer_spec_witness:
  "lit ''nope'' \<notin> question_ids mockSession
   \<and> storeAnswer mockSession (lit ''nope'') (lit ''Some answer'')
       = Inl (Error (lit ''Question with ID nope not found in session''))
   \<and> lit ''550e8400-e29b-41d4-a716-446655440001'' \<in> question_ids mockSession
   \<and> (\<exists>s'. storeAnswer mockSession (lit ''550e8400-e29b-41d4-a716-446655440001'') (lit ''Closures'')
               = Inr s'
          \<and> getAnswer s' (lit ''550e8400-e29b-41d4-a716-446655440001'') = Some (lit ''Closures''))"
  using storeAnswer_spec [of "lit ''nope''" mockSession "lit ''Some answer''"]
    storeAnswer_spec [of "lit ''550e8400-e29b-41d4-a716-446655440001''" mockSession "lit ''Closures''"]
  by (auto simp: mockSession_def mockQuestions_def createSession_def question_ids_def lit_def getAnswer_def)

section \<open>The cursor (claim C3)\<close>




section \<open>Navigation (claim C7)\<close>

text \<open>
  Claim C7, as stated, fails for \<open>previousQuestion\<close>: the guard is \<open>cursor - 1 < 0\<close>
  on a number. \<open>setCurrentQuestionIndex\<close> accepts the index 0.5, which is within the
  question sequence; on that session \<open>previousQuestion\<close> throws the first-question error
  although the cursor is not 0.
\<close>

theorem previousQuestion_counterexample:
  "setCurrentQuestionIndex mockSession5 (Finite (Decimal 5 (- 1)))
     = Inr (mockSession5\<lparr>currentQuestionIndex := Finite (Decimal 5 (- 1))\<rparr>)
   \<and> cursor_in_range (mockSession5\<lparr>currentQuestionIndex := Finite (Decimal 5 (- 1))\<rparr>)
   \<and> previousQuestion (mockSession5\<lparr>currentQuestionIndex := Finite (Decimal 5 (- 1))\<rparr>)
       = Inl (Error (lit ''Already at the first question''))
   \<and> currentQuestionIndex (mockSession5\<lparr>currentQuestionIndex := Finite (Decimal 5 (- 1))\<rparr>)
       \<noteq> num 0"
  by (simp add: mockSession5_def mockQuestions5_def mockQuestions_def createSession_def
      setCurrentQuestionIndex_def previousQuestion_def cursor_in_range_def
      number_less_def number_ge_def decimal_less_def number_sub_def number_add_def
      number_neg_def decimal_add_def num_def number_of_int_def normalize.simps)

lemma setCurrentQuestionIndex_message:
  "setCurrentQuestionIndex s i \<noteq> Inl (Error (lit ''Already at the last question''))"
  "setCurrentQuestionIndex s i \<noteq> Inl (Error (lit ''Already at the first question''))"
  by (simp_all add: setCurrentQuestionIndex_def lit_def)

text \<open>
  Claim C7, amended. \<open>nextQuestion\<close> throws the last-question error exactly when
  \<open>cursor + 1 >= len(questions)\<close>, and \<open>previousQuestion\<close> throws the first-question
  error exactly when \<open>cursor - 1 < 0\<close>; otherwise each is \<open>setCurrentQuestionIndex\<close> at
  \<open>cursor + 1\<close> or \<open>cursor - 1\<close>. A throw returns no session: the input is unchanged. For
  a cursor that is an integer \<open>i\<close> the two conditions are \<open>i + 1 \<ge> len\<close> and \<open>i \<le> 0\<close>,
  so for an integer cursor that is not negative \<open>previousQuestion\<close> throws exactly when
  the cursor is 0.
\<close>

theorem navigation_spec:
  "(nextQuestion s = Inl (Error (lit ''Already at the last question''))
      \<longleftrightarrow> number_ge (number_add (currentQuestionIndex s) (num 1))
            (num (int (length (questions s)))))
   \<and> (previousQuestion s = Inl (Error (lit ''Already at the first question''))
      \<longleftrightarrow> number_less (number_sub (currentQuestionIndex s) (num 1)) (num 0))
   \<and> (\<not> number_ge (number_add (currentQuestionIndex s) (num 1))
            (num (int (length (questions s)))) \<longrightarrow>
        nextQuestion s = setCurrentQuestionIndex s (number_add (currentQuestionIndex s) (num 1)))
   \<and> (\<not> number_less (number_sub (currentQuestionIndex s) (num 1)) (num 0) \<longrightarrow>
        previousQuestion s
          = setCurrentQuestionIndex s (number_sub (currentQuestionIndex s) (num 1)))
   \<and> (currentQuestionIndex s = num i \<longrightarrow>
        (nextQuestion s = Inl (Error (lit ''Already at the last question''))
           \<longleftrightarrow> int (length (questions s)) \<le> i + 1)
        \<and> (previousQuestion s = Inl (Error (lit ''Already at the first question''))
           \<longleftrightarrow> i \<le> 0)
        \<and> (0 \<le> i \<longrightarrow>
             (previousQuestion s = Inl (Error (lit ''Already at the first question''))
                \<longleftrightarrow> currentQuestionIndex s = num 0)))"
  by (auto simp: nextQuestion_def previousQuestion_def Let_def setCurrentQuestionIndex_message)

theorem navigation_spec_witness:
  "nextQuestion (mockSession5\<lparr>currentQuestionIndex := num 4\<rparr>)
     = Inl (Error (lit ''Already at the last question''))
   \<and> currentQuestionIndex (mockSession5\<lparr>currentQuestionIndex := num 4\<rparr>) = num 4
   \<and> previousQuestion mockSession5 = Inl (Error (lit ''Already at the first question''))
   \<and> nextQuestion mockSession5 = Inr (mockSession5\<lparr>currentQuestionIndex := num 1\<rparr>)
   \<and> previousQuestion (mockSession5\<lparr>currentQuestionIndex := num 1\<rparr>) = Inr mockSession5"
proof -
  have len: "int (length (questions mockSession5)) = 5" "currentQuestionIndex mockSession5 = num 0"
    by (simp_all add: mockSession5_def mockQuestions5_def mockQuestions_def createSession_def)
  have eq: "mockSession5\<lparr>currentQuestionIndex := num 0\<rparr> = mockSession5"
    by (simp add: mockSession5_def createSession_def)
  show ?thesis
    using navigation_spec [of "mockSession5\<lparr>currentQuestionIndex := num 4\<rparr>" 4]
      navigation_spec [of mockSession5 0]
      navigation_spec [of "mockSession5\<lparr>currentQuestionIndex := num 1\<rparr>" 1]
    by (simp add: len eq setCurrentQuestionIndex_def)
qed

section \<open>Answering twice (claim C8)\<close>

text \<open>
  Claim C8. Answering the same question of the session twice succeeds both times, the
  second text is the one stored, and the answer association is as large after the second
  call as after the first.
\<close>

theorem storeAnswer_overwrite:
  "qid \<in> question_ids s \<Longrightarrow>
     \<exists>s1 s2. storeAnswer s qid t1 = Inr s1 \<and> storeAnswer s1 qid t2 = Inr s2
       \<and> Map_get (answers s2) qid = Some t2
       \<and> Map_size (answers s2) = Map_size (answers s1)"
  by (simp add: storeAnswer_def list_ex_question_ids question_ids_def Map_get_Map_set
      Map_size_Map_set_present Map_keys_Map_set)

theorem storeAnswer_overwrite_witness:
  "lit ''550e8400-e29b-41d4-a716-446655440002'' \<in> question_ids mockSession
   \<and> (\<exists>s1 s2. storeAnswer mockSession (lit ''550e8400-e29b-41d4-a716-446655440002'') (lit ''first'') = Inr s1
        \<and> storeAnswer s1 (lit ''550e8400-e29b-41d4-a716-446655440002'') (lit ''second'') = Inr s2
        \<and> Map_get (answers s2) (lit ''550e8400-e29b-41d4-a716-446655440002'') = Some (lit ''second'')
        \<and> Map_size (answers s2) = Map_size (answers s1))"
proof -
  have m: "lit ''550e8400-e29b-41d4-a716-446655440002'' \<in> question_ids mockSession"
    by (simp add: mockSession_def mockQuestions_def createSession_def question_ids_def)
  from storeAnswer_overwrite [OF m, of "lit ''first''" "lit ''second''"] m
  show ?thesis by blast
qed

section \<open>Keys of the associations (claim C4)\<close>

lemma apply_op_answer_keys:
  "apply_op op s = Inr s' \<Longrightarrow> answer_keys_valid s \<Longrightarrow> answer_keys_valid s'"
  by (cases op)
     (auto simp: storeAnswer_def storeFeedback_def setCurrentQuestionIndex_def
        completeSession_def storeSessionFeedback_def nextQuestion_def previousQuestion_def
        answer_keys_valid_def question_ids_def list_ex_iff Map_keys_Map_set Let_def
        split: if_splits)

lemma run_ops_answer_keys:
  "run_ops ops s = Inr s' \<Longrightarrow> answer_keys_valid s \<Longrightarrow> answer_keys_valid s'"
  by (induction ops arbitrary: s) (auto split: sum.splits dest: apply_op_answer_keys)

lemma apply_op_feedback_keys:
  "apply_op op s = Inr s' \<Longrightarrow>
     set (Map_keys (feedback s')) = set (Map_keys (feedback s)) \<union> set (stored_feedback_ids [op])"
  by (cases op)
     (auto simp: storeAnswer_def storeFeedback_def setCurrentQuestionIndex_def
        completeSession_def storeSessionFeedback_def nextQuestion_def previousQuestion_def
        Map_keys_Map_set Let_def split: if_splits)

lemma stored_feedback_ids_Cons:
  "set (stored_feedback_ids (op # ops)) = set (stored_feedback_ids [op]) \<union> set (stored_feedback_ids ops)"
  by (cases op) auto

lemma run_ops_feedback_keys:
  "run_ops ops s = Inr s' \<Longrightarrow>
     set (Map_keys (feedback s')) = set (Map_keys (feedback s)) \<union> set (stored_feedback_ids ops)"
proof (induction ops arbitrary: s)
  case Nil
  then show ?case by simp
next
  case (Cons op ops)
  from Cons.prems obtain s1 where s1: "apply_op op s = Inr s1" "run_ops ops s1 = Inr s'"
    by (auto split: sum.splits)
  from Cons.IH [OF s1(2)] apply_op_feedback_keys [OF s1(1)]
  show ?case
    by (simp only: stored_feedback_ids_Cons [of op ops]) blast
qed

text \<open>
  Claim C4, as stated, fails: \<open>storeFeedback\<close> stores under whatever question id the
  feedback carries.
\<close>

theorem key_validity_counterexample:
  "run_ops [StoreFeedback (mockFeedback (lit ''not-a-question''))] mockSession
     = Inr (storeFeedback mockSession (mockFeedback (lit ''not-a-question'')))
   \<and> lit ''not-a-question''
       \<in> set (Map_keys (feedback (storeFeedback mockSession (mockFeedback (lit ''not-a-question'')))))
   \<and> lit ''not-a-question''
       \<notin> question_ids (storeFeedback mockSession (mockFeedback (lit ''not-a-question'')))"
  by (simp add: storeFeedback_def mockSession_def createSession_def mockFeedback_def
      Map_keys_def question_ids_def mockQuestions_def lit_def)

text \<open>
  Claim C4, amended. In every session reached from \<open>createSession\<close> by manager
  operations, every key of the answer association is the id of a question of the session,
  and the keys of the feedback association are exactly the question ids of the feedback
  values passed to \<open>storeFeedback\<close>; so they are ids of questions of the session when
  each of those was.
\<close>

theorem key_validity_invariant:
  "run_ops ops (createSession uuid now jd qs) = Inr s \<Longrightarrow>
     set (Map_keys (answers s)) \<subseteq> question_ids s
     \<and> set (Map_keys (feedback s)) = set (stored_feedback_ids ops)
     \<and> (set (stored_feedback_ids ops) \<subseteq> id_question ` set qs
          \<longrightarrow> set (Map_keys (feedback s)) \<subseteq> question_ids s)"
proof -
  assume run: "run_ops ops (createSession uuid now jd qs) = Inr s"
  have "answer_keys_valid (createSession uuid now jd qs)"
    by (simp add: answer_keys_valid_def createSession_def Map_keys_def)
  with run have a: "answer_keys_valid s" by (rule run_ops_answer_keys)
  from run_ops_feedback_keys [OF run]
  have f: "set (Map_keys (feedback s)) = set (stored_feedback_ids ops)"
    by (simp add: createSession_def Map_keys_def)
  from run_ops_questions [OF run] have q: "question_ids s = id_question ` set qs"
    by (simp add: question_ids_def createSession_def)
  from a f q show ?thesis by (simp add: answer_keys_valid_def)
qed

theorem key_validity_invariant_witness:
  "run_ops [StoreAnswer (lit ''550e8400-e29b-41d4-a716-446655440001'') (lit ''Closures''),
            StoreFeedback (mockFeedback (lit ''550e8400-e29b-41d4-a716-446655440001''))]
     mockSession
     = Inr (mockSession
         \<lparr> answers := [(lit ''550e8400-e29b-41d4-a716-446655440001'', lit ''Closures'')],
           feedback := [(lit ''550e8400-e29b-41d4-a716-446655440001'',
                         mockFeedback (lit ''550e8400-e29b-41d4-a716-446655440001''))] \<rparr>)
   \<and> set (stored_feedback_ids
        [StoreAnswer (lit ''550e8400-e29b-41d4-a716-446655440001'') (lit ''Closures''),
         StoreFeedback (mockFeedback (lit ''550e8400-e29b-41d4-a716-446655440001''))])
       \<subseteq> id_question ` set mockQuestions
   \<and> set (Map_keys [(lit ''550e8400-e29b-41d4-a716-446655440001'',
                       mockFeedback (lit ''550e8400-e29b-41d4-a716-446655440001''))])
       \<subseteq> question_ids mockSession"
  using key_validity_invariant [of
      "[StoreAnswer (lit ''550e8400-e29b-41d4-a716-446655440001'') (lit ''Closures''),
        StoreFeedback (mockFeedback (lit ''550e8400-e29b-41d4-a716-446655440001''))]"
      "lit ''550e8400-e29b-41d4-a716-446655440000''" 1768467600000 mockParsedJD mockQuestions
      "mockSession
         \<lparr> answers := [(lit ''550e8400-e29b-41d4-a716-446655440001'', lit ''Closures'')],
           feedback := [(lit ''550e8400-e29b-41d4-a716-446655440001'',
                         mockFeedback (lit ''550e8400-e29b-41d4-a716-446655440001''))] \<rparr>"]
  by (simp add: mockSession_def createSession_def mockQuestions_def storeAnswer_def
      storeFeedback_def mockFeedback_def Map_keys_def question_ids_def)

section \<open>Completion (claim C5)\<close>

lemma apply_op_completion:
  "apply_op op s = Inr s' \<Longrightarrow> \<forall>now \<in> set (completion_times [op]). t0 \<le> now \<Longrightarrow>
     completion_inv t0 s \<Longrightarrow> completion_inv t0 s'"
  by (cases op)
     (auto simp: storeAnswer_def storeFeedback_def setCurrentQuestionIndex_def
        completeSession_def storeSessionFeedback_def nextQuestion_def previousQuestion_def
        completion_inv_def Let_def split: if_splits option.splits)

lemma apply_op_completed_iff:
  "apply_op op s = Inr s' \<Longrightarrow> (completedAt s \<noteq> None \<longleftrightarrow> isComplete s) \<Longrightarrow>
     (completedAt s' \<noteq> None \<longleftrightarrow> isComplete s')"
  by (cases op)
     (auto simp: storeAnswer_def storeFeedback_def setCurrentQuestionIndex_def
        completeSession_def storeSessionFeedback_def nextQuestion_def previousQuestion_def
        Let_def split: if_splits)

lemma run_ops_completed_iff:
  "run_ops ops s = Inr s' \<Longrightarrow> (completedAt s \<noteq> None \<longleftrightarrow> isComplete s) \<Longrightarrow>
     (completedAt s' \<noteq> None \<longleftrightarrow> isComplete s')"
proof (induction ops arbitrary: s)
  case Nil
  then show ?case by simp
next
  case (Cons op ops)
  from Cons.prems(1) obtain s1 where s1: "apply_op op s = Inr s1" "run_ops ops s1 = Inr s'"
    by (auto split: sum.splits)
  from apply_op_completed_iff [OF s1(1) Cons.prems(2)]
  have "completedAt s1 \<noteq> None \<longleftrightarrow> isComplete s1" .
  from Cons.IH [OF s1(2) this] show ?case .
qed

lemma completion_times_Cons:
  "set (completion_times (op # ops)) = set (completion_times [op]) \<union> set (completion_times ops)"
  by (cases op) auto

lemma run_ops_completion:
  "run_ops ops s = Inr s' \<Longrightarrow> \<forall>now \<in> set (completion_times ops). t0 \<le> now \<Longrightarrow>
     completion_inv t0 s \<Longrightarrow> completion_inv t0 s'"
proof (induction ops arbitrary: s)
  case Nil
  then show ?case by simp
next
  case (Cons op ops)
  from Cons.prems(1) obtain s1 where s1: "apply_op op s = Inr s1" "run_ops ops s1 = Inr s'"
    by (auto split: sum.splits)
  from Cons.prems(2) have t: "\<forall>now \<in> set (completion_times [op]). t0 \<le> now"
    "\<forall>now \<in> set (completion_times ops). t0 \<le> now"
    by (simp_all add: completion_times_Cons [of op ops])
  from apply_op_completion [OF s1(1) t(1) Cons.prems(3)] have "completion_inv t0 s1" .
  from Cons.IH [OF s1(2) t(2) this] show ?case .
qed

text \<open>
  Claim C5. In every session reached from \<open>createSession\<close> by manager operations,
  \<open>completedAt\<close> is set exactly when \<open>isComplete\<close> is true; when every clock value
  \<open>completeSession\<close> read is no earlier than the one \<open>createSession\<close> read,
  \<open>completedAt\<close>, when set, is no earlier than \<open>createdAt\<close>. \<open>completeSession\<close> sets
  \<open>isComplete\<close> and \<open>completedAt\<close> and nothing else.
\<close>

theorem completion_consistency:
  "run_ops ops (createSession uuid t0 jd qs) = Inr s \<Longrightarrow>
     (completedAt s \<noteq> None \<longleftrightarrow> isComplete s)
     \<and> ((\<forall>now \<in> set (completion_times ops). t0 \<le> now) \<longrightarrow>
          (\<forall>c. completedAt s = Some c \<longrightarrow> Date_le (createdAt s) c))
     \<and> completeSession now t = t\<lparr>isComplete := True, completedAt := Some (Date_ms now)\<rparr>"
proof -
  assume run: "run_ops ops (createSession uuid t0 jd qs) = Inr s"
  have a: "completedAt s \<noteq> None \<longleftrightarrow> isComplete s"
    by (rule run_ops_completed_iff [OF run]) (simp add: createSession_def)
  have b: "Date_le (createdAt s) c"
    if "\<forall>now \<in> set (completion_times ops). t0 \<le> now" and "completedAt s = Some c" for c
  proof -
    have "completion_inv t0 (createSession uuid t0 jd qs)"
      by (simp add: completion_inv_def createSession_def)
    from run_ops_completion [OF run that(1) this] that(2) show ?thesis
      by (auto simp: completion_inv_def Date_le_def)
  qed
  from a b show ?thesis by (simp add: completeSession_def)
qed

theorem completion_consistency_witness:
  "run_ops [StoreAnswer (lit ''550e8400-e29b-41d4-a716-446655440001'') (lit ''Closures''),
            CompleteSession 1768474800000] mockSession
     = Inr (mockSession
         \<lparr> answers := [(lit ''550e8400-e29b-41d4-a716-446655440001'', lit ''Closures'')],
           isComplete := True, completedAt := Some (Date_ms 1768474800000) \<rparr>)
   \<and> completion_times
          [StoreAnswer (lit ''550e8400-e29b-41d4-a716-446655440001'') (lit ''Closures''),
           CompleteSession 1768474800000] = [1768474800000]
   \<and> (1768467600000 :: int) \<le> 1768474800000
   \<and> Date_le (createdAt mockSession) (Date_ms 1768474800000)"
  using completion_consistency [of
      "[StoreAnswer (lit ''550e8400-e29b-41d4-a716-446655440001'') (lit ''Closures''),
        CompleteSession 1768474800000]"
      "lit ''550e8400-e29b-41d4-a716-446655440000''" 1768467600000 mockParsedJD mockQuestions
      "mockSession
         \<lparr> answers := [(lit ''550e8400-e29b-41d4-a716-446655440001'', lit ''Closures'')],
           isComplete := True, completedAt := Some (Date_ms 1768474800000) \<rparr>"
      0 mockSession]
  by (simp add: mockSession_def createSession_def mockQuestions_def storeAnswer_def
      completeSession_def Date_le_def)

section \<open>Failures of deserializeSession (claim C6)\<close>

lemma parse_iso_examples:
  "parse_iso (lit ''2026-01-15T09:00:00.000Z'') = Some 1768467600000"
  "parse_iso (lit ''2026-01-15T10:00:00.000Z'') = Some 1768471200000"
  by (simp_all add: parse_iso_def iso_time_def lit_def digits_field_def is_digit_def nat_of_digits_def
      InLeapYear_def month_start_def DayFromYear_def max_time_def)

lemma JSON_parse_error:
  "JSON_parse json = Inl e \<Longrightarrow> e = SyntaxError (lit ''Unexpected token in JSON'')"
  by (auto simp: JSON_parse_def split: option.splits if_splits)

lemma msg_JSON: "sublist (lit ''Invalid JSON format'')
        (lit ''Failed to deserialize session: Invalid JSON format - '' @ m)"
proof -
  have "lit ''Failed to deserialize session: Invalid JSON format - '' @ m
      = lit ''Failed to deserialize session: '' @ lit ''Invalid JSON format'' @ (lit '' - '' @ m)"
    by (simp add: lit_def)
  then show ?thesis by (simp only: sublist_lit_append)
qed

lemma msg_missing: "sublist (lit ''missing required fields'')
        (lit ''Failed to deserialize session: '' @ lit ''Invalid session data: missing required fields'')"
proof -
  have "lit ''Failed to deserialize session: '' @ lit ''Invalid session data: missing required fields''
      = lit ''Failed to deserialize session: Invalid session data: '' @ lit ''missing required fields''"
    by (simp add: lit_def)
  then show ?thesis by (simp only: sublist_lit_append)
qed

lemma msg_createdAt: "sublist (lit ''createdAt'')
        (lit ''Failed to deserialize session: '' @ lit ''Invalid session data: createdAt is not a valid date'')"
proof -
  have "lit ''Failed to deserialize session: '' @ lit ''Invalid session data: createdAt is not a valid date''
      = lit ''Failed to deserialize session: Invalid session data: '' @ lit ''createdAt'' @ lit '' is not a valid date''"
    by (simp add: lit_def)
  then show ?thesis by (simp only: sublist_lit_append)
qed

lemma msg_completedAt: "sublist (lit ''completedAt'')
        (lit ''Failed to deserialize session: '' @ lit ''Invalid session data: completedAt is not a valid date'')"
proof -
  have "lit ''Failed to deserialize session: '' @ lit ''Invalid session data: completedAt is not a valid date''
      = lit ''Failed to deserialize session: Invalid session data: '' @ lit ''completedAt'' @ lit '' is not a valid date''"
    by (simp add: lit_def)
  then show ?thesis by (simp only: sublist_lit_append)
qed

text \<open>
  Claim C6, amended. \<open>deserializeSession\<close> throws an error whose message contains
  \<^item> ``Invalid JSON format'' when the text is not well-formed JSON;
  \<^item> ``missing required fields'' when the text parses to a value other than null in
    which \<open>id\<close> or \<open>parsedJD\<close> is absent (or falsy) or \<open>questions\<close> is not an array;
  \<^item> ``createdAt'' when the required fields are there, \<open>answers\<close> and \<open>feedback\<close>
    are absent or lists of pairs, and \<open>createdAt\<close> does not give a valid date;
  \<^item> ``completedAt'' when moreover \<open>createdAt\<close> gives a valid date and \<open>completedAt\<close>
    is truthy (not null, not the empty string) and does not give a valid date.
  This holds whatever the engine makes of date strings outside the ISO format.
\<close>

theorem deserializeSession_errors:
  "(JSON_parse json = Inl e \<longrightarrow>
      (\<exists>msg. deserializeSession other json = Inl (Error msg)
         \<and> sublist (lit ''Invalid JSON format'') msg))
   \<and> (JSON_parse json = Inr data \<and> \<not> nullish data
        \<and> (\<not> truthy (field data (lit ''id'')) \<or> \<not> truthy (field data (lit ''parsedJD''))
            \<or> \<not> isArray (field data (lit ''questions''))) \<longrightarrow>
      (\<exists>msg. deserializeSession other json = Inl (Error msg)
         \<and> sublist (lit ''missing required fields'') msg))
   \<and> (JSON_parse json = Inr data
        \<and> truthy (field data (lit ''id'')) \<and> truthy (field data (lit ''parsedJD''))
        \<and> isArray (field data (lit ''questions''))
        \<and> new_Map (if truthy (field data (lit ''answers''))
                    then field data (lit ''answers'') else JArray []) = Inr am
        \<and> feedback_Map other (field data (lit ''feedback'')) = Inr fm
        \<and> new_Date other (field data (lit ''createdAt'')) = Invalid_Date \<longrightarrow>
      (\<exists>msg. deserializeSession other json = Inl (Error msg)
         \<and> sublist (lit ''createdAt'') msg))
   \<and> (JSON_parse json = Inr data
        \<and> truthy (field data (lit ''id'')) \<and> truthy (field data (lit ''parsedJD''))
        \<and> isArray (field data (lit ''questions''))
        \<and> new_Map (if truthy (field data (lit ''answers''))
                    then field data (lit ''answers'') else JArray []) = Inr am
        \<and> feedback_Map other (field data (lit ''feedback'')) = Inr fm
        \<and> new_Date other (field data (lit ''createdAt'')) = Date_ms t
        \<and> truthy (field data (lit ''completedAt''))
        \<and> new_Date other (field data (lit ''completedAt'')) = Invalid_Date \<longrightarrow>
      (\<exists>msg. deserializeSession other json = Inl (Error msg)
         \<and> sublist (lit ''completedAt'') msg))"
proof (intro conjI impI)
  assume "JSON_parse json = Inl e"
  then have "JSON_parse json = Inl (SyntaxError (lit ''Unexpected token in JSON''))"
    using JSON_parse_error by blast
  then show "\<exists>msg. deserializeSession other json = Inl (Error msg)
         \<and> sublist (lit ''Invalid JSON format'') msg"
    by (simp add: deserializeSession_def deserialize_body_def msg_JSON)
next
  assume "JSON_parse json = Inr data \<and> \<not> nullish data
        \<and> (\<not> truthy (field data (lit ''id'')) \<or> \<not> truthy (field data (lit ''parsedJD''))
            \<or> \<not> isArray (field data (lit ''questions'')))"
  then have "deserialize_body other json
       = Inl (Error (lit ''Invalid session data: missing required fields''))"
    by (auto simp: deserialize_body_def get_prop_def)
  then show "\<exists>msg. deserializeSession other json = Inl (Error msg)
         \<and> sublist (lit ''missing required fields'') msg"
    by (simp add: deserializeSession_def msg_missing)
next
  assume a: "JSON_parse json = Inr data
        \<and> truthy (field data (lit ''id'')) \<and> truthy (field data (lit ''parsedJD''))
        \<and> isArray (field data (lit ''questions''))
        \<and> new_Map (if truthy (field data (lit ''answers''))
                    then field data (lit ''answers'') else JArray []) = Inr am
        \<and> feedback_Map other (field data (lit ''feedback'')) = Inr fm
        \<and> new_Date other (field data (lit ''createdAt'')) = Invalid_Date"
  then have t: "truthy (field data (lit ''questions''))"
    by (auto simp: isArray_def truthy_def split: jsval.splits)
  from a have n: "\<not> nullish data"
    by (auto simp: nullish_def field_def truthy_def)
  from a t n have "deserialize_body other json
       = Inl (Error (lit ''Invalid session data: createdAt is not a valid date''))"
    by (simp add: deserialize_body_def get_prop_def getTime_def)
  then show "\<exists>msg. deserializeSession other json = Inl (Error msg)
         \<and> sublist (lit ''createdAt'') msg"
    by (simp add: deserializeSession_def msg_createdAt)
next
  assume a: "JSON_parse json = Inr data
        \<and> truthy (field data (lit ''id'')) \<and> truthy (field data (lit ''parsedJD''))
        \<and> isArray (field data (lit ''questions''))
        \<and> new_Map (if truthy (field data (lit ''answers''))
                    then field data (lit ''answers'') else JArray []) = Inr am
        \<and> feedback_Map other (field data (lit ''feedback'')) = Inr fm
        \<and> new_Date other (field data (lit ''createdAt'')) = Date_ms t
        \<and> truthy (field data (lit ''completedAt''))
        \<and> new_Date other (field data (lit ''completedAt'')) = Invalid_Date"
  then have t: "truthy (field data (lit ''questions''))"
    by (auto simp: isArray_def truthy_def split: jsval.splits)
  from a have n: "\<not> nullish data"
    by (auto simp: nullish_def field_def truthy_def)
  from a t n have "deserialize_body other json
       = Inl (Error (lit ''Invalid session data: completedAt is not a valid date''))"
    by (simp add: deserialize_body_def get_prop_def getTime_def)
  then show "\<exists>msg. deserializeSession other json = Inl (Error msg)
         \<and> sublist (lit ''completedAt'') msg"
    by (simp add: deserializeSession_def msg_completedAt)
qed

lemma parse_not_json: "JSON_parse (lit ''{not json'') = Inl (SyntaxError (lit ''Unexpected token in JSON''))"
  by (simp add: lit_def JSON_parse_def parse_value.simps parse_elements.simps parse_members.simps
      parse_string.simps skip_ws_def is_ws_def is_digit_def)

lemma parse_id_x: "JSON_parse (lit ''{\"id\":\"x\"}'') = Inr (JObject [(lit ''id'', JString (lit ''x''))])"
  by (simp add: lit_def JSON_parse_def parse_value.simps parse_elements.simps parse_members.simps
      parse_string.simps skip_ws_def is_ws_def is_digit_def)

lemma parse_bad_createdAt:
  "JSON_parse (lit ''{\"id\":\"x\",\"parsedJD\":{},\"questions\":[],\"createdAt\":\"invalid-date\"}'')
     = Inr (JObject [(lit ''id'', JString (lit ''x'')), (lit ''parsedJD'', JObject []),
                     (lit ''questions'', JArray []), (lit ''createdAt'', JString (lit ''invalid-date''))])"
  by (simp add: lit_def JSON_parse_def parse_value.simps parse_elements.simps parse_members.simps
      parse_string.simps skip_ws_def is_ws_def is_digit_def)

lemma parse_bad_completedAt:
  "JSON_parse (lit ''{\"id\":\"x\",\"parsedJD\":{},\"questions\":[],\"createdAt\":0,\"completedAt\":\"never\"}'')
     = Inr (JObject [(lit ''id'', JString (lit ''x'')), (lit ''parsedJD'', JObject []),
                     (lit ''questions'', JArray []), (lit ''createdAt'', JNumber (Decimal 0 0)),
                     (lit ''completedAt'', JString (lit ''never''))])"
  by (simp add: lit_def JSON_parse_def parse_value.simps parse_elements.simps parse_members.simps
      parse_string.simps skip_ws_def is_ws_def is_digit_def parse_number_def lex_sign_def lex_int_def lex_frac_def lex_exp_def
      nat_of_digits_def normalize.simps)

text \<open>
  The four cases at concrete texts; the first two are the scenario of the specification.
\<close>

theorem deserializeSession_errors_witness:
  "JSON_parse (lit ''{not json'') = Inl (SyntaxError (lit ''Unexpected token in JSON''))
   \<and> (\<exists>msg. deserializeSession no_other_formats (lit ''{not json'') = Inl (Error msg)
         \<and> sublist (lit ''Invalid JSON format'') msg)
   \<and> field (JObject [(lit ''id'', JString (lit ''x''))]) (lit ''parsedJD'') = JUndefined
   \<and> (\<exists>msg. deserializeSession no_other_formats (lit ''{\"id\":\"x\"}'') = Inl (Error msg)
         \<and> sublist (lit ''missing required fields'') msg)
   \<and> new_Date no_other_formats (JString (lit ''invalid-date'')) = Invalid_Date
   \<and> (\<exists>msg. deserializeSession no_other_formats
                (lit ''{\"id\":\"x\",\"parsedJD\":{},\"questions\":[],\"createdAt\":\"invalid-date\"}'')
              = Inl (Error msg)
         \<and> sublist (lit ''createdAt'') msg)
   \<and> new_Date no_other_formats (JString (lit ''never'')) = Invalid_Date
   \<and> (\<exists>msg. deserializeSession no_other_formats
                (lit ''{\"id\":\"x\",\"parsedJD\":{},\"questions\":[],\"createdAt\":0,\"completedAt\":\"never\"}'')
              = Inl (Error msg)
         \<and> sublist (lit ''completedAt'') msg)"
proof -
  have d: "new_Date no_other_formats (JString (lit ''invalid-date'')) = Invalid_Date"
    "new_Date no_other_formats (JString (lit ''never'')) = Invalid_Date"
    "new_Date no_other_formats (JNumber (Decimal 0 0)) = Date_ms 0"
    by (simp_all add: new_Date_def Date_parse_def parse_iso_def iso_time_def no_other_formats_def lit_def
        TimeClip_def max_time_def)
  have f: "lit ''never'' \<noteq> []"
    by (simp add: lit_def)
  show ?thesis
    using deserializeSession_errors [of "lit ''{not json''" "SyntaxError (lit ''Unexpected token in JSON'')"
        no_other_formats]
      deserializeSession_errors [of "lit ''{\"id\":\"x\"}''" _ no_other_formats
        "JObject [(lit ''id'', JString (lit ''x''))]"]
      deserializeSession_errors [of
        "lit ''{\"id\":\"x\",\"parsedJD\":{},\"questions\":[],\"createdAt\":\"invalid-date\"}''"
         _ no_other_formats
        "JObject [(lit ''id'', JString (lit ''x'')), (lit ''parsedJD'', JObject []),
                     (lit ''questions'', JArray []), (lit ''createdAt'', JString (lit ''invalid-date''))]"
        "[]" "[]"]
      deserializeSession_errors [of
        "lit ''{\"id\":\"x\",\"parsedJD\":{},\"questions\":[],\"createdAt\":0,\"completedAt\":\"never\"}''"
         _ no_other_formats
        "JObject [(lit ''id'', JString (lit ''x'')), (lit ''parsedJD'', JObject []),
                     (lit ''questions'', JArray []), (lit ''createdAt'', JNumber (Decimal 0 0)),
                     (lit ''completedAt'', JString (lit ''never''))]"
        "[]" "[]" 0]
    by (simp add: parse_not_json parse_id_x parse_bad_createdAt parse_bad_completedAt d f
        field_def nullish_def truthy_def isArray_def new_Map_def feedback_Map_def
        lit_def [of "''id''"] lit_def [of "''parsedJD''"] lit_def [of "''questions''"]
        lit_def [of "''answers''"] lit_def [of "''feedback''"] lit_def [of "''createdAt''"]
        lit_def [of "''completedAt''"] lit_def [of "''x''"])
qed

lemma parse_empty_completedAt:
  "JSON_parse (lit ''{\"id\":\"x\",\"parsedJD\":{},\"questions\":[],\"createdAt\":\"2026-01-15T09:00:00.000Z\",\"completedAt\":\"\"}'')
     = Inr (JObject [(lit ''id'', JString (lit ''x'')), (lit ''parsedJD'', JObject []),
                     (lit ''questions'', JArray []),
                     (lit ''createdAt'', JString (lit ''2026-01-15T09:00:00.000Z'')),
                     (lit ''completedAt'', JString [])])"
  by (simp add: lit_def JSON_parse_def parse_value.simps parse_elements.simps parse_members.simps
      parse_string.simps skip_ws_def is_ws_def is_digit_def parse_number_def lex_sign_def lex_int_def lex_frac_def lex_exp_def
      nat_of_digits_def normalize.simps)

lemma parse_null: "JSON_parse (lit ''null'') = Inr JNull"
  by (simp add: lit_def JSON_parse_def parse_value.simps parse_elements.simps parse_members.simps
      parse_string.simps skip_ws_def is_ws_def is_digit_def)

lemma parse_bad_answers:
  "JSON_parse (lit ''{\"id\":\"x\",\"parsedJD\":{},\"questions\":[],\"answers\":5,\"createdAt\":\"invalid-date\"}'')
     = Inr (JObject [(lit ''id'', JString (lit ''x'')), (lit ''parsedJD'', JObject []),
                     (lit ''questions'', JArray []), (lit ''answers'', JNumber (Decimal 5 0)),
                     (lit ''createdAt'', JString (lit ''invalid-date''))])"
  by (simp add: lit_def JSON_parse_def parse_value.simps parse_elements.simps parse_members.simps
      parse_string.simps skip_ws_def is_ws_def is_digit_def parse_number_def lex_sign_def lex_int_def lex_frac_def lex_exp_def
      nat_of_digits_def normalize.simps)

text \<open>
  Claim C6, as stated, fails at three texts: a \<open>completedAt\<close> that is the empty string
  is not null and is no date, and the text is accepted (with no completion time); the
  text \<open>null\<close> has no \<open>id\<close>, and the error is the engine's for reading a property of
  null; a text whose \<open>answers\<close> is a number fails when the association is built, before
  its unreadable \<open>createdAt\<close> is looked at.
\<close>

theorem deserializeSession_errors_counterexample:
  "JSON_parse (lit ''{\"id\":\"x\",\"parsedJD\":{},\"questions\":[],\"createdAt\":\"2026-01-15T09:00:00.000Z\",\"completedAt\":\"\"}'')
     = Inr (JObject [(lit ''id'', JString (lit ''x'')), (lit ''parsedJD'', JObject []),
                     (lit ''questions'', JArray []),
                     (lit ''createdAt'', JString (lit ''2026-01-15T09:00:00.000Z'')),
                     (lit ''completedAt'', JString [])])
   \<and> JString [] \<noteq> JNull
   \<and> new_Date no_other_formats (JString []) = Invalid_Date
   \<and> deserializeSession no_other_formats
        (lit ''{\"id\":\"x\",\"parsedJD\":{},\"questions\":[],\"createdAt\":\"2026-01-15T09:00:00.000Z\",\"completedAt\":\"\"}'')
       = Inr \<lparr> p_id = JString (lit ''x''), p_parsedJD = JObject [], p_questions = [],
               p_answers = [], p_feedback = [], p_sessionFeedback = JUndefined,
               p_currentQuestionIndex = JNumber (Decimal 0 0), p_isComplete = JBool False,
               p_createdAt = Date_ms 1768467600000, p_completedAt = None \<rparr>
   \<and> JSON_parse (lit ''null'') = Inr JNull
   \<and> deserializeSession no_other_formats (lit ''null'')
       = Inl (Error (lit ''Failed to deserialize session: Cannot read properties of null or undefined''))
   \<and> \<not> sublist (lit ''missing required fields'')
          (lit ''Failed to deserialize session: Cannot read properties of null or undefined'')
   \<and> new_Date no_other_formats (JString (lit ''invalid-date'')) = Invalid_Date
   \<and> deserializeSession no_other_formats
        (lit ''{\"id\":\"x\",\"parsedJD\":{},\"questions\":[],\"answers\":5,\"createdAt\":\"invalid-date\"}'')
       = Inl (Error (lit ''Failed to deserialize session: object is not iterable''))
   \<and> \<not> sublist (lit ''createdAt'') (lit ''Failed to deserialize session: object is not iterable'')"
proof -
  have d: "new_Date no_other_formats (JString []) = Invalid_Date"
    "new_Date no_other_formats (JString (lit ''invalid-date'')) = Invalid_Date"
    by (simp_all add: new_Date_def Date_parse_def parse_iso_def iso_time_def no_other_formats_def lit_def)
  have d': "new_Date no_other_formats (JString (lit ''2026-01-15T09:00:00.000Z''))
      = Date_ms 1768467600000"
    by (simp add: new_Date_def Date_parse_def parse_iso_examples)
  have s1: "\<not> sublist (lit ''missing required fields'')
          (lit ''Failed to deserialize session: Cannot read properties of null or undefined'')"
    by (simp add: lit_def sublist_code del: sublist_code(2))
  have s2: "\<not> sublist (lit ''createdAt'') (lit ''Failed to deserialize session: object is not iterable'')"
    by (simp add: lit_def sublist_code del: sublist_code(2))
  have a: "deserializeSession no_other_formats
        (lit ''{\"id\":\"x\",\"parsedJD\":{},\"questions\":[],\"createdAt\":\"2026-01-15T09:00:00.000Z\",\"completedAt\":\"\"}'')
       = Inr \<lparr> p_id = JString (lit ''x''), p_parsedJD = JObject [], p_questions = [],
               p_answers = [], p_feedback = [], p_sessionFeedback = JUndefined,
               p_currentQuestionIndex = JNumber (Decimal 0 0), p_isComplete = JBool False,
               p_createdAt = Date_ms 1768467600000, p_completedAt = None \<rparr>"
    by (simp add: deserializeSession_def deserialize_body_def parse_empty_completedAt d d'
        get_prop_def field_def nullish_def truthy_def isArray_def new_Map_def feedback_Map_def
        getTime_def
        lit_def [of "''id''"] lit_def [of "''parsedJD''"] lit_def [of "''questions''"]
        lit_def [of "''answers''"] lit_def [of "''feedback''"] lit_def [of "''createdAt''"]
        lit_def [of "''completedAt''"] lit_def [of "''x''"] lit_def [of "''sessionFeedback''"]
        lit_def [of "''currentQuestionIndex''"] lit_def [of "''isComplete''"])
  have b: "deserializeSession no_other_formats (lit ''null'')
       = Inl (Error (lit ''Failed to deserialize session: Cannot read properties of null or undefined''))"
    by (simp add: deserializeSession_def deserialize_body_def parse_null get_prop_def
        nullish_def) (simp add: lit_def)
  have c: "deserializeSession no_other_formats
        (lit ''{\"id\":\"x\",\"parsedJD\":{},\"questions\":[],\"answers\":5,\"createdAt\":\"invalid-date\"}'')
       = Inl (Error (lit ''Failed to deserialize session: object is not iterable''))"
    by (simp add: deserializeSession_def deserialize_body_def parse_bad_answers d
        get_prop_def field_def nullish_def truthy_def isArray_def new_Map_def feedback_Map_def
        getTime_def
        lit_def [of "''id''"] lit_def [of "''parsedJD''"] lit_def [of "''questions''"]
        lit_def [of "''answers''"] lit_def [of "''feedback''"] lit_def [of "''createdAt''"]
        lit_def [of "''completedAt''"] lit_def [of "''x''"]) (simp add: lit_def)
  show ?thesis
    using parse_empty_completedAt parse_null d a b c s1 s2 by simp
qed

section \<open>What deserializeSession does not check (claim C10)\<close>

lemma parse_unvalidated: "JSON_parse unvalidated_text = Inr unvalidated_data"
  by (simp add: unvalidated_text_def unvalidated_data_def lit_def JSON_parse_def parse_value.simps parse_elements.simps parse_members.simps
      parse_string.simps skip_ws_def
      is_ws_def is_digit_def parse_number_def lex_sign_def lex_int_def lex_frac_def lex_exp_def nat_of_digits_def normalize.simps)

lemma deserialize_unvalidated:
  "deserializeSession other unvalidated_text = Inr unvalidated_parsed"
  by (simp add: deserializeSession_def deserialize_body_def parse_unvalidated
      unvalidated_data_def unvalidated_parsed_def
      get_prop_def field_def nullish_def truthy_def isArray_def new_Map_def feedback_Map_def
      entry_of_def element_at_def same_key_def feedback_entry_def destructure_pair_def
      getTime_def new_Date_def Date_parse_def parse_iso_examples)

lemma typed_unvalidated: "as_InterviewSession unvalidated_parsed = Some unvalidated_session"
  by (simp add: as_InterviewSession_def unvalidated_parsed_def unvalidated_session_def
      as_string_def as_ParsedJobDescription_def as_RoleType_def as_ExperienceLevel_def
      as_strings_def as_answer_def as_AnswerFeedback_def as_SessionFeedback_def as_number_def
      as_bool_def field_def num_def number_of_int_def normalize.simps)

text \<open>
  Claim C10. \<open>deserializeSession\<close> accepts the text \<open>unvalidated_text\<close>, whatever the
  engine makes of other date formats. The session it returns, read at the declared types,
  has its cursor at 5 with no question, an answer key and a feedback key that are ids of
  no question, and \<open>getCurrentQuestion\<close> reads the question sequence outside its bounds:
  the result is \<open>undefined\<close>.
\<close>

theorem deserializeSession_unvalidated:
  "deserializeSession other unvalidated_text = Inr unvalidated_parsed
   \<and> as_InterviewSession unvalidated_parsed = Some unvalidated_session
   \<and> \<not> cursor_in_range unvalidated_session
   \<and> \<not> answer_keys_valid unvalidated_session
   \<and> \<not> feedback_keys_valid unvalidated_session
   \<and> number_ge (currentQuestionIndex unvalidated_session)
         (num (int (length (questions unvalidated_session))))
   \<and> getCurrentQuestion unvalidated_session = None"
  by (simp add: deserialize_unvalidated typed_unvalidated)
     (simp add: unvalidated_session_def cursor_in_range_def answer_keys_valid_def
      feedback_keys_valid_def question_ids_def Map_keys_def getCurrentQuestion_def
      array_index_num)

section \<open>Concrete texts\<close>

lemma pad_digits_2: "pad_digits 2 x = [48 + x div 10 mod 10, 48 + x mod 10]"
  by (simp add: numeral_2_eq_2)

lemma pad_digits_3:
  "pad_digits 3 x = [48 + x div 10 div 10 mod 10, 48 + x div 10 mod 10, 48 + x mod 10]"
  by (simp add: numeral_3_eq_3)

lemma pad_digits_4:
  "pad_digits 4 x = [48 + x div 10 div 10 div 10 mod 10, 48 + x div 10 div 10 mod 10,
                     48 + x div 10 mod 10, 48 + x mod 10]"
proof -
  have "(4::nat) = Suc (Suc (Suc (Suc 0)))" by simp
  then show ?thesis by (simp only: pad_digits.simps) simp
qed

lemma format_iso_examples:
  "format_iso 1768467600000 = lit ''2026-01-15T09:00:00.000Z''"
  "format_iso 1768471200000 = lit ''2026-01-15T10:00:00.000Z''"
  "format_iso 1768474800000 = lit ''2026-01-15T11:00:00.000Z''"
proof -
  have d: "(1768467600000::int) div 86400000 = 20468" "(1768467600000::int) mod 86400000 = 32400000"
    "(1768471200000::int) div 86400000 = 20468" "(1768471200000::int) mod 86400000 = 36000000"
    "(1768474800000::int) div 86400000 = 20468" "(1768474800000::int) mod 86400000 = 39600000"
    by simp_all
  have y: "YearFromDay 20468 = 2026" "DayFromYear 2026 = 20454" "InLeapYear 2026 = False"
    by (simp_all add: YearFromDay_def DayFromYear_def InLeapYear_def Let_def)
  have m: "MonthFromDay False 14 = 0" "month_start False 0 = 0"
    by (simp_all add: MonthFromDay_def month_start_def)
  show "format_iso 1768467600000 = lit ''2026-01-15T09:00:00.000Z''"
    "format_iso 1768471200000 = lit ''2026-01-15T10:00:00.000Z''"
    "format_iso 1768474800000 = lit ''2026-01-15T11:00:00.000Z''"
    by (simp_all add: format_iso_def Let_def d y m pad_digits_2 pad_digits_3 pad_digits_4 lit_def)
qed

lemma quote_units_plain: "list_all (\<lambda>c. 32 \<le> c \<and> c < 55296 \<and> c \<noteq> 34 \<and> c \<noteq> 92) s \<Longrightarrow> quote_units s = s"
proof (induction s rule: quote_units.induct)
  case 1
  show ?case by simp
next
  case (2 c)
  then show ?case by (simp add: quote_unit_def is_lead_def is_trail_def)
next
  case (3 c d cs)
  then show ?case by (simp add: quote_unit_def is_lead_def is_trail_def)
qed

lemma QuoteJSONString_plain:
  "list_all (\<lambda>c. 32 \<le> c \<and> c < 55296 \<and> c \<noteq> 34 \<and> c \<noteq> 92) s \<Longrightarrow> QuoteJSONString s = 34 # s @ [34]"
  by (simp add: QuoteJSONString_def quote_units_plain)

lemma history_text_examples:
  "json_text (JArray [history_record storageMockSession])
     = lit ''[{\"id\":\"550e8400-e29b-41d4-a716-446655440000\",\"roleType\":\"software\",\"experienceLevel\":\"mid\",\"createdAt\":\"2026-01-15T09:00:00.000Z\",\"completedAt\":null,\"overallScore\":7.5}]''"
  "json_text (JArray [history_record (completeSession 1768474800000 storageMockSession)])
     = lit ''[{\"id\":\"550e8400-e29b-41d4-a716-446655440000\",\"roleType\":\"software\",\"experienceLevel\":\"mid\",\"createdAt\":\"2026-01-15T09:00:00.000Z\",\"completedAt\":\"2026-01-15T11:00:00.000Z\",\"overallScore\":7.5}]''"
  by (simp_all add: json_text_def history_record_def storageMockSession_def completeSession_def
      iso_text_def format_iso_examples js_of_RoleType_def js_of_ExperienceLevel_def
      js_of_number_def normalize.simps Number_toString_def digits_of_nat.simps
      QuoteJSONString_plain lit_def)

lemma wire_text_example:
  "json_text (wire_session storageMockSession) = lit ''{\"id\":\"550e8400-e29b-41d4-a716-446655440000\",\"parsedJD\":{\"roleType\":\"software\",\"skills\":[\"JavaScript\",\"React\"],\"experienceLevel\":\"mid\",\"technologies\":[\"TypeScript\",\"Next.js\"],\"responsibilities\":[\"Build web apps\"],\"rawDescription\":\"A software engineer position requiring JavaScript experience.\"},\"questions\":[{\"id\":\"550e8400-e29b-41d4-a716-446655440001\",\"type\":\"technical\",\"question\":\"Explain closures\",\"difficulty\":\"mid\",\"relatedSkills\":[\"JavaScript\"]},{\"id\":\"550e8400-e29b-41d4-a716-446655440002\",\"type\":\"behavioral\",\"question\":\"Describe a project\",\"difficulty\":\"mid\",\"relatedSkills\":[\"React\"]}],\"answers\":[[\"550e8400-e29b-41d4-a716-446655440001\",\"Closures are functions...\"],[\"550e8400-e29b-41d4-a716-446655440002\",\"I worked on a project...\"]],\"feedback\":[[\"550e8400-e29b-41d4-a716-446655440001\",{\"questionId\":\"550e8400-e29b-41d4-a716-446655440001\",\"score\":8,\"strengths\":[\"Good explanation\",\"Clear examples\"],\"improvements\":[\"Add more detail\",\"Mention use cases\"],\"timestamp\":\"2026-01-15T10:00:00.000Z\"}]],\"sessionFeedback\":{\"overallScore\":7.5,\"performanceSummary\":{\"behavioral\":8,\"technical\":7,\"systemDesign\":7.5},\"strongestAreas\":[\"Communication\"],\"improvementAreas\":[\"System design\"],\"recommendations\":[\"Practice more\"]},\"currentQuestionIndex\":1,\"isComplete\":false,\"createdAt\":\"2026-01-15T09:00:00.000Z\",\"completedAt\":null}''"
  by (simp add: json_text_def wire_session_def wire_feedback_def storageMockSession_def
      js_of_ParsedJobDescription_def js_of_InterviewQuestion_def js_of_SessionFeedback_def
      js_of_QuestionType_def js_of_strings_def num_def number_of_int_def
      iso_text_def format_iso_examples js_of_RoleType_def js_of_ExperienceLevel_def
      js_of_number_def normalize.simps Number_toString_def digits_of_nat.simps
      QuoteJSONString_plain lit_def)

section \<open>The round trip of the codec (claim C1)\<close>

text \<open>
  Claim C1. For every session value whose cursor is in range, whose answer and feedback
  keys are ids of its questions and whose completion is consistent,
  \<open>deserializeSession(serializeSession(s))\<close> returns, and what it returns is \<open>s\<close>: the
  two associations with their entries in order, every timestamp to the millisecond
  (\<open>createdAt\<close>, \<open>completedAt\<close>, the timestamp of every feedback), every score, and the
  session feedback when there is one. A session value is what the declared type and its
  schema admit (\<open>Session_value\<close>). The law holds whatever the engine makes of date texts
  outside the ISO format.
\<close>

theorem round_trip_law:
  assumes "Session_value s" "cursor_in_range s" "answer_keys_valid s" "feedback_keys_valid s"
    "completion_consistent s"
  shows "round_trip other s = Inr (Some s)"
proof -
  from assms(1) have "is_number (currentQuestionIndex s)" by (simp add: Session_value_def)
  with assms(2) have "finite_number (currentQuestionIndex s)" by (rule cursor_in_range_finite)
  with assms(1) show ?thesis by (rule round_trip_Session_value)
qed

theorem round_trip_law_witness:
  "Session_value storageMockSession
   \<and> cursor_in_range storageMockSession
   \<and> answer_keys_valid storageMockSession
   \<and> feedback_keys_valid storageMockSession
   \<and> completion_consistent storageMockSession
   \<and> overallScore (the (sessionFeedback storageMockSession)) = Finite (Decimal 75 (- 1))
   \<and> serializeSession storageMockSession = Inr (lit ''{\"id\":\"550e8400-e29b-41d4-a716-446655440000\",\"parsedJD\":{\"roleType\":\"software\",\"skills\":[\"JavaScript\",\"React\"],\"experienceLevel\":\"mid\",\"technologies\":[\"TypeScript\",\"Next.js\"],\"responsibilities\":[\"Build web apps\"],\"rawDescription\":\"A software engineer position requiring JavaScript experience.\"},\"questions\":[{\"id\":\"550e8400-e29b-41d4-a716-446655440001\",\"type\":\"technical\",\"question\":\"Explain closures\",\"difficulty\":\"mid\",\"relatedSkills\":[\"JavaScript\"]},{\"id\":\"550e8400-e29b-41d4-a716-446655440002\",\"type\":\"behavioral\",\"question\":\"Describe a project\",\"difficulty\":\"mid\",\"relatedSkills\":[\"React\"]}],\"answers\":[[\"550e8400-e29b-41d4-a716-446655440001\",\"Closures are functions...\"],[\"550e8400-e29b-41d4-a716-446655440002\",\"I worked on a project...\"]],\"feedback\":[[\"550e8400-e29b-41d4-a716-446655440001\",{\"questionId\":\"550e8400-e29b-41d4-a716-446655440001\",\"score\":8,\"strengths\":[\"Good explanation\",\"Clear examples\"],\"improvements\":[\"Add more detail\",\"Mention use cases\"],\"timestamp\":\"2026-01-15T10:00:00.000Z\"}]],\"sessionFeedback\":{\"overallScore\":7.5,\"performanceSummary\":{\"behavioral\":8,\"technical\":7,\"systemDesign\":7.5},\"strongestAreas\":[\"Communication\"],\"improvementAreas\":[\"System design\"],\"recommendations\":[\"Practice more\"]},\"currentQuestionIndex\":1,\"isComplete\":false,\"createdAt\":\"2026-01-15T09:00:00.000Z\",\"completedAt\":null}'')
   \<and> round_trip no_other_formats storageMockSession = Inr (Some storageMockSession)"
proof -
  have v: "Session_value storageMockSession"
    by (simp add: Session_value_def valid_dates_def valid_Date_def max_time_def is_number_def
        finite_number_def finite_SessionFeedback_def wf_decimal_def storageMockSession_def
        num_def number_of_int_def normalize.simps lit_def)
  have c: "cursor_in_range storageMockSession"
    by (simp add: cursor_in_range_def storageMockSession_def)
  have k: "answer_keys_valid storageMockSession" "feedback_keys_valid storageMockSession"
    "completion_consistent storageMockSession"
    by (simp_all add: answer_keys_valid_def feedback_keys_valid_def completion_consistent_def
        question_ids_def Map_keys_def storageMockSession_def)
  from v have "valid_dates storageMockSession" by (simp add: Session_value_def)
  then have t: "serializeSession storageMockSession = Inr (lit ''{\"id\":\"550e8400-e29b-41d4-a716-446655440000\",\"parsedJD\":{\"roleType\":\"software\",\"skills\":[\"JavaScript\",\"React\"],\"experienceLevel\":\"mid\",\"technologies\":[\"TypeScript\",\"Next.js\"],\"responsibilities\":[\"Build web apps\"],\"rawDescription\":\"A software engineer position requiring JavaScript experience.\"},\"questions\":[{\"id\":\"550e8400-e29b-41d4-a716-446655440001\",\"type\":\"technical\",\"question\":\"Explain closures\",\"difficulty\":\"mid\",\"relatedSkills\":[\"JavaScript\"]},{\"id\":\"550e8400-e29b-41d4-a716-446655440002\",\"type\":\"behavioral\",\"question\":\"Describe a project\",\"difficulty\":\"mid\",\"relatedSkills\":[\"React\"]}],\"answers\":[[\"550e8400-e29b-41d4-a716-446655440001\",\"Closures are functions...\"],[\"550e8400-e29b-41d4-a716-446655440002\",\"I worked on a project...\"]],\"feedback\":[[\"550e8400-e29b-41d4-a716-446655440001\",{\"questionId\":\"550e8400-e29b-41d4-a716-446655440001\",\"score\":8,\"strengths\":[\"Good explanation\",\"Clear examples\"],\"improvements\":[\"Add more detail\",\"Mention use cases\"],\"timestamp\":\"2026-01-15T10:00:00.000Z\"}]],\"sessionFeedback\":{\"overallScore\":7.5,\"performanceSummary\":{\"behavioral\":8,\"technical\":7,\"systemDesign\":7.5},\"strongestAreas\":[\"Communication\"],\"improvementAreas\":[\"System design\"],\"recommendations\":[\"Practice more\"]},\"currentQuestionIndex\":1,\"isComplete\":false,\"createdAt\":\"2026-01-15T09:00:00.000Z\",\"completedAt\":null}'')"
    by (simp add: serializeSession_valid wire_text_example)
  have "overallScore (the (sessionFeedback storageMockSession)) = Finite (Decimal 75 (- 1))"
    by (simp add: storageMockSession_def)
  with round_trip_law [OF v c k, of no_other_formats] v c k t show ?thesis by simp
qed

section \<open>The history of sessions (claim C9)\<close>

text \<open>
  Claim C9 as stated fails. In a browser whose storage has no room left, \<open>setItem\<close> throws,
  \<open>saveSessionToHistory\<close> catches the error, and the history is left as it was: the record
  of the session is not in it. The same happens without a window, with a stored history
  that is not a list or has a \<open>null\<close> entry before the first entry with the id, and for a
  session with an invalid date.
\<close>

theorem saveSessionToHistory_counterexample:
  "saveSessionToHistory fullBrowser storageMockSession = fullBrowser
   \<and> getSessionHistory (saveSessionToHistory fullBrowser storageMockSession) = JArray []
   \<and> entries_with_id (id_session storageMockSession)
        (getSessionHistory (saveSessionToHistory fullBrowser storageMockSession)) = 0
   \<and> saveSessionToHistory (emptyBrowser\<lparr>window_defined := False\<rparr>) storageMockSession
        = emptyBrowser\<lparr>window_defined := False\<rparr>"
  by (simp add: saveSessionToHistory_eq write_succeeds_def fullBrowser_def getSessionHistory_def
      entries_with_id_def)

text \<open>
  Claim C9, amended. \<open>saveSessionToHistory\<close> stores the history with the summary record of
  the session upserted by id (the first entry with the id replaced where it stands, the
  record appended when there is none) exactly when the write goes through: there is a
  window, the stored history is read as a list with no \<open>null\<close> entry before the first one
  with the id, \<open>createdAt\<close> and \<open>completedAt\<close> are valid dates, and the storage accepts the
  text; that is then the history read afterwards. In every other case the storage is
  left as it was. The record carries the id, \<open>createdAt\<close> as the text that
  \<open>toISOString\<close> returns, which the engine reads back as the same date, \<open>completedAt\<close>
  likewise or \<open>null\<close>, and the overall score (a finite score as that number, no session
  feedback as \<open>null\<close>). And from any state of the storage in which at most one entry has
  the id, any number of calls for sessions with that id leaves at most one entry with it.
\<close>

theorem saveSessionToHistory_upsert:
  "saveSessionToHistory env s =
     (if write_succeeds env s
      then env\<lparr>localStorage := (localStorage env)(SESSION_HISTORY \<mapsto>
             json_text (JArray (upsert (id_session s) (history_record s) (history_list env))))\<rparr>
      else env)
   \<and> (write_succeeds env s \<longrightarrow>
         getSessionHistory (saveSessionToHistory env s)
           = JArray (upsert (id_session s) (history_record s) (history_list env)))
   \<and> field (history_record s) (lit ''id'') = JString (id_session s)
   \<and> (valid_Date (createdAt s) \<longrightarrow>
         (\<exists>text. toISOString (createdAt s) = Inr text
            \<and> field (history_record s) (lit ''createdAt'') = JString text
            \<and> Date_parse other text = createdAt s))
   \<and> (case completedAt s of
         None \<Rightarrow> field (history_record s) (lit ''completedAt'') = JNull
       | Some c \<Rightarrow>
           valid_Date c \<longrightarrow>
             (\<exists>text. toISOString c = Inr text
                \<and> field (history_record s) (lit ''completedAt'') = JString text
                \<and> Date_parse other text = c))
   \<and> (case sessionFeedback s of
         None \<Rightarrow> field (history_record s) (lit ''overallScore'') = JNull
       | Some f \<Rightarrow>
           finite_number (overallScore f) \<longrightarrow>
             as_number (field (history_record s) (lit ''overallScore'')) = Some (overallScore f))
   \<and> ((\<forall>x \<in> set ss. id_session x = id_session s)
          \<and> entries_with_id (id_session s) (getSessionHistory e) \<le> 1
        \<longrightarrow> entries_with_id (id_session s) (getSessionHistory (save_all e ss)) \<le> 1)"
proof -
  have d: "valid_Date x \<Longrightarrow> toISOString x = Inr (iso_text x) \<and> Date_parse other (iso_text x) = x"
    for x
    using new_Date_iso_text [of x other] by (simp add: toISOString_valid new_Date_def)
  have "field (history_record s) (lit ''id'') = JString (id_session s)"
    by (simp add: history_record_def field_def)
  moreover have "valid_Date (createdAt s) \<longrightarrow>
         (\<exists>text. toISOString (createdAt s) = Inr text
            \<and> field (history_record s) (lit ''createdAt'') = JString text
            \<and> Date_parse other text = createdAt s)"
    using d [of "createdAt s"] by (simp add: history_record_def field_def)
  moreover have "case completedAt s of
         None \<Rightarrow> field (history_record s) (lit ''completedAt'') = JNull
       | Some c \<Rightarrow>
           valid_Date c \<longrightarrow>
             (\<exists>text. toISOString c = Inr text
                \<and> field (history_record s) (lit ''completedAt'') = JString text
                \<and> Date_parse other text = c)"
    using d by (simp add: history_record_def field_def split: option.splits)
  moreover have "case sessionFeedback s of
         None \<Rightarrow> field (history_record s) (lit ''overallScore'') = JNull
       | Some f \<Rightarrow>
           finite_number (overallScore f) \<longrightarrow>
             as_number (field (history_record s) (lit ''overallScore'')) = Some (overallScore f)"
    by (simp add: history_record_def field_def split: option.splits)
  moreover note saveSessionToHistory_eq [of env s] write_succeeds_read [of env s]
    save_all_count [of ss "id_session s" e]
  ultimately show ?thesis by blast
qed

theorem saveSessionToHistory_upsert_witness:
  "write_succeeds emptyBrowser storageMockSession
   \<and> localStorage (saveSessionToHistory emptyBrowser storageMockSession) SESSION_HISTORY
       = Some (lit ''[{\"id\":\"550e8400-e29b-41d4-a716-446655440000\",\"roleType\":\"software\",\"experienceLevel\":\"mid\",\"createdAt\":\"2026-01-15T09:00:00.000Z\",\"completedAt\":null,\"overallScore\":7.5}]'')
   \<and> getSessionHistory (saveSessionToHistory emptyBrowser storageMockSession)
       = JArray [history_record storageMockSession]
   \<and> toISOString (createdAt storageMockSession) = Inr (lit ''2026-01-15T09:00:00.000Z'')
   \<and> Date_parse no_other_formats (lit ''2026-01-15T09:00:00.000Z'') = createdAt storageMockSession
   \<and> write_succeeds (saveSessionToHistory emptyBrowser storageMockSession)
        (completeSession 1768474800000 storageMockSession)
   \<and> localStorage
        (save_all emptyBrowser
           [storageMockSession, completeSession 1768474800000 storageMockSession])
        SESSION_HISTORY
       = Some (lit ''[{\"id\":\"550e8400-e29b-41d4-a716-446655440000\",\"roleType\":\"software\",\"experienceLevel\":\"mid\",\"createdAt\":\"2026-01-15T09:00:00.000Z\",\"completedAt\":\"2026-01-15T11:00:00.000Z\",\"overallScore\":7.5}]'')
   \<and> entries_with_id (id_session storageMockSession)
        (getSessionHistory
          (save_all emptyBrowser
             [storageMockSession, completeSession 1768474800000 storageMockSession])) \<le> 1"
proof -
  let ?s = storageMockSession
  let ?c = "completeSession 1768474800000 storageMockSession"
  let ?env = "saveSessionToHistory emptyBrowser ?s"
  note first = saveSessionToHistory_upsert
    [of emptyBrowser ?s no_other_formats "[?s, ?c]" emptyBrowser]
  note second = saveSessionToHistory_upsert [of ?env ?c no_other_formats "[]" emptyBrowser]
  have h0: "getSessionHistory emptyBrowser = JArray []"
    by (simp add: getSessionHistory_def emptyBrowser_def)
  have w1: "write_succeeds emptyBrowser ?s"
    by (simp add: write_succeeds_def h0 history_list_def isArray_def entries_readable_def)
      (simp add: emptyBrowser_def storageMockSession_def)
  from first [THEN conjunct2, THEN conjunct1] w1
  have r1: "getSessionHistory ?env = JArray [history_record ?s]"
    by (simp add: h0 history_list_def)
  from first [THEN conjunct1] w1
  have e1: "?env = emptyBrowser\<lparr>localStorage := (localStorage emptyBrowser)(SESSION_HISTORY \<mapsto>
             json_text (JArray [history_record ?s]))\<rparr>"
    by (simp add: h0 history_list_def)
  have ids: "field (history_record ?s) (lit ''id'') = JString (id_session ?c)"
    by (simp add: history_record_def field_def completeSession_def)
  have b: "window_defined ?env" "\<And>key text. \<not> quota_exceeded ?env key text"
    by (subst e1, simp add: emptyBrowser_def)+
  have dc: "createdAt ?c \<noteq> Invalid_Date" "completedAt ?c \<noteq> Some Invalid_Date"
    by (simp_all add: storageMockSession_def completeSession_def)
  have w2: "write_succeeds ?env ?c"
    by (simp add: write_succeeds_def r1 history_list_def isArray_def entries_readable_def ids
        b dc)
  with second [THEN conjunct1] have e2: "saveSessionToHistory ?env ?c =
      ?env\<lparr>localStorage := (localStorage ?env)(SESSION_HISTORY \<mapsto>
             json_text (JArray [history_record ?c]))\<rparr>"
    by (simp add: r1 history_list_def ids)
  have t: "toISOString (createdAt ?s) = Inr (lit ''2026-01-15T09:00:00.000Z'')"
    by (simp add: toISOString_def storageMockSession_def format_iso_examples)
  have v: "valid_Date (createdAt ?s)"
    by (simp add: valid_Date_def storageMockSession_def max_time_def)
  with first [THEN conjunct2, THEN conjunct2, THEN conjunct2, THEN conjunct1] t
  have p: "Date_parse no_other_formats (lit ''2026-01-15T09:00:00.000Z'') = createdAt ?s"
    by auto
  have idc: "id_session ?c = id_session ?s" by (simp add: completeSession_def)
  have z: "entries_with_id (id_session ?s) (getSessionHistory emptyBrowser) \<le> 1"
    by (simp add: h0 entries_with_id_def)
  from first [THEN conjunct2, THEN conjunct2, THEN conjunct2, THEN conjunct2, THEN conjunct2,
    THEN conjunct2] idc z
  have n: "entries_with_id (id_session ?s) (getSessionHistory (save_all emptyBrowser [?s, ?c])) \<le> 1"
    by simp
  have l1: "localStorage ?env SESSION_HISTORY = Some (json_text (JArray [history_record ?s]))"
    by (subst e1) simp
  have l2: "localStorage (save_all emptyBrowser [?s, ?c]) SESSION_HISTORY
      = Some (json_text (JArray [history_record ?c]))"
    by (simp add: e2)
  from w1 l1 r1 t p w2 l2 n show ?thesis
    by (simp only: history_text_examples)
qed

end
